theory Spec2Isabelle
  imports Main "HOL-Library.Char_ord" "HOL-Library.List_Lexorder"
begin

section \<open>The migration runner of server/migrations.ts\<close>

text \<open>
  The runner executes a fixed sequence of migration functions against a PostgreSQL
  database at process start. The embedding keeps the part of the database the
  functions read and write as a record, threads it through every function, and
  turns every \<^verbatim>\<open>throw\<close> into a value: a function returns the error or its
  result, together with the database as the function left it (there is no
  transaction around a migration, so writes made before a throw stay).
\<close>

subsection \<open>Rows and the database\<close>

text \<open>Timestamps (\<^verbatim>\<open>created_at\<close>, \<^verbatim>\<open>executed_at\<close>) and generated row ids are left out.\<close>

record board =
  board_id :: string
  board_name :: string

record school =
  school_id :: string
  school_name :: string
  school_board :: "string option"

record user =
  user_id :: string
  email :: "string option"
  first_name :: "string option"
  last_name :: "string option"
  role :: string

record user_school =
  us_user :: string
  us_school :: string
  is_default :: bool

record budget_category =
  bc_name :: string
  bc_school :: string
  budget :: int
  spent :: int

record maintenance_history_row =
  mh_category :: "string option"
  mh_school :: string
  cost :: "int option"

text \<open>A timestamp, as far as \<^verbatim>\<open>getFullYear\<close> reads it.\<close>

datatype date = Date (date_year: int) (date_month: nat) (date_day: nat)

record investment =
  inv_id :: string
  start_date :: "date option"
  is_cyclic :: bool
  cycle_years :: "int option"

record investment_year =
  iy_investment :: string
  iy_year :: int
  amount :: int

record drawing =
  drawing_id :: string
  category :: string

text \<open>
  What the DDL statements create: relations, columns, constraints, indexes, enum types
  and the labels of an enum type.
\<close>

datatype schema_object =
    Table string
  | Column string string
  | Constraint string
  | Index string
  | EnumType string
  | EnumLabel string string

text \<open>The migration functions, named as in the source.\<close>

datatype step =
    CreateBaseSchema
  | EnsureSessionTable
  | AddDrawingCategoryEnumValues
  | SeedSchoolsAndBoards
  | SeedHardcodedAdminUser
  | AssignUsersToSchools
  | EnsureSupabaseBucketsForSchools
  | RecalculateBudgetSpentAmounts
  | CreateRoomsAndTerrainTables
  | AddMaxStudentsToRooms
  | CreateFoldersAndExtendDocuments
  | CreateInvestmentYearsTable
  | FixInvalidDrawingCategories
  | PopulateInvestmentYears
  | AddAttachmentColumnsToReportsAndMaintenance
  | ExtendRoleEnumForRbac
  | FixJeanAdminRole

text \<open>
  \<open>catalog\<close> is the system catalog; \<open>drawing_category\<close> and \<open>role_enum\<close> are the labels
  of the two enum types the migrations extend (\<open>None\<close>: the type does not exist);
  \<open>migration_status\<close> holds the names in the tracking table; \<open>buckets\<close> is the object
  storage, which is not part of the database; \<open>started\<close> records, in order, the
  functions that printed their opening \<^verbatim>\<open>[Migration] Checking ...\<close> line.
\<close>

record db =
  catalog :: "schema_object list"
  drawing_category :: "string list option"
  role_enum :: "string list option"
  migration_status :: "string list"
  boards :: "board list"
  schools :: "school list"
  users :: "user list"
  user_schools :: "user_school list"
  budget_categories :: "budget_category list"
  maintenance_history :: "maintenance_history_row list"
  investments :: "investment list"
  investment_years :: "investment_year list"
  drawings :: "drawing list"
  buckets :: "string list"
  started :: "step list"

subsection \<open>Statements, failures and results\<close>

text \<open>One constructor for each \<^verbatim>\<open>db.execute\<close> call of the source, with its parameters.\<close>

datatype stmt =
    CreateMigrationTable
  | SelectMigration string
  | InsertMigration string
  | CheckSchoolsTable
  | RunSchemaSQL
  | CreateSessionTable
  | AddSessionPkey
  | CreateSessionIndex
  | AddEnumValue string
  | CountSchools
  | InsertBoards
  | InsertSchools
  | SelectAdminUser
  | InsertAdminUser
  | CountUsers
  | CountOrphanedUsers
  | InsertUserSchools
  | SelectSchools
  | ResetSpent
  | RecalculateSpent
  | CreateRoomsTable
  | CreateTerrainTable
  | AddMaxStudentsColumn
  | CreateFoldersTable
  | AlterDocuments
  | CreateInvestmentYears
  | DropInvestmentColumns
  | UpdateDrawingCategories
  | SelectInvestmentsWithoutYears
  | InsertInvestmentYear string int
  | AlterReports
  | AlterMaintenance
  | CheckRoleEnum
  | AddRoleValue string
  | ConvertUserRoles
  | SelectJean
  | UpdateJean

datatype error = Error (message: string)

text \<open>
  The environment decides which calls fail: \<open>db_fault q = Some m\<close> means that
  statement \<open>q\<close> throws an error with message \<open>m\<close>. It also says whether
  \<^verbatim>\<open>server/create_schema.sql\<close> is on disk, whether importing the storage module
  throws, and for which bucket names the storage service fails.
\<close>

record env =
  db_fault :: "stmt \<Rightarrow> string option"
  schema_file_exists :: bool
  import_fault :: "string option"
  storage_fault :: "string \<Rightarrow> string option"

type_synonym 'a io = "db \<Rightarrow> (error + 'a) \<times> db"

definition io_return :: "'a \<Rightarrow> 'a io" where
  "io_return x = (\<lambda>s. (Inr x, s))"

definition io_throw :: "error \<Rightarrow> 'a io" where
  "io_throw e = (\<lambda>s. (Inl e, s))"

definition io_bind :: "'a io \<Rightarrow> ('a \<Rightarrow> 'b io) \<Rightarrow> 'b io" where
  "io_bind m f = (\<lambda>s. case m s of (Inl e, s') \<Rightarrow> (Inl e, s') | (Inr x, s') \<Rightarrow> f x s')"

definition io_then :: "unit io \<Rightarrow> 'b io \<Rightarrow> 'b io" where
  "io_then m n = io_bind m (\<lambda>_. n)"

text \<open>\<^verbatim>\<open>try { m } catch (e) { h(e) }\<close>\<close>

definition io_catch :: "'a io \<Rightarrow> (error \<Rightarrow> 'a io) \<Rightarrow> 'a io" where
  "io_catch m h = (\<lambda>s. case m s of (Inl e, s') \<Rightarrow> h e s' | (Inr x, s') \<Rightarrow> (Inr x, s'))"

text \<open>A statement that changes the database, and a query that reads it.\<close>

definition execute :: "env \<Rightarrow> stmt \<Rightarrow> (db \<Rightarrow> db) \<Rightarrow> unit io" where
  "execute env q upd = (\<lambda>s. case db_fault env q of
       Some m \<Rightarrow> (Inl (Error m), s)
     | None \<Rightarrow> (Inr (), upd s))"

definition query :: "env \<Rightarrow> stmt \<Rightarrow> (db \<Rightarrow> 'a) \<Rightarrow> 'a io" where
  "query env q f = (\<lambda>s. case db_fault env q of
       Some m \<Rightarrow> (Inl (Error m), s)
     | None \<Rightarrow> (Inr (f s), s))"

text \<open>
  Some statements PostgreSQL refuses because of the data the model holds, whatever the
  environment does: a literal that is not a label of its enum type, an enum type that
  does not exist, an integer outside the 32-bit range of its \<^verbatim>\<open>INTEGER\<close> column, a
  second user with an e-mail address that is taken. For such a statement \<open>upd\<close>
  returns the message of the error or the new database; a refused statement changes
  nothing. Whether the tables a statement names exist is left to the environment.
\<close>

definition execute_checked :: "env \<Rightarrow> stmt \<Rightarrow> (db \<Rightarrow> string + db) \<Rightarrow> unit io" where
  "execute_checked env q upd = (\<lambda>s. case db_fault env q of
       Some m \<Rightarrow> (Inl (Error m), s)
     | None \<Rightarrow> (case upd s of Inl m \<Rightarrow> (Inl (Error m), s) | Inr s' \<Rightarrow> (Inr (), s')))"

definition query_checked :: "env \<Rightarrow> stmt \<Rightarrow> (db \<Rightarrow> string + 'a) \<Rightarrow> 'a io" where
  "query_checked env q f = (\<lambda>s. case db_fault env q of
       Some m \<Rightarrow> (Inl (Error m), s)
     | None \<Rightarrow> (case f s of Inl m \<Rightarrow> (Inl (Error m), s) | Inr x \<Rightarrow> (Inr x, s)))"

text \<open>The values an \<^verbatim>\<open>INTEGER\<close> column holds.\<close>

definition int4_ok :: "int \<Rightarrow> bool" where
  "int4_ok n = (- 2147483648 \<le> n \<and> n \<le> 2147483647)"

text \<open>
  A literal written where a value of an enum type is expected is read as a label of
  that type when the statement is analysed, before any row is looked at.
  \<open>labels_ok ty lits e\<close> is the error, if any, of a statement that writes the
  literals \<open>lits\<close> for the enum type \<open>ty\<close> whose labels are \<open>e\<close>.
\<close>

definition labels_ok :: "string \<Rightarrow> string list \<Rightarrow> string list option \<Rightarrow> string option" where
  "labels_ok ty lits e = (case e of
       None \<Rightarrow> Some (''type '' @ ty @ '' does not exist'')
     | Some ls \<Rightarrow> if set lits \<subseteq> set ls then None
                 else Some (''invalid input value for enum '' @ ty))"

text \<open>The outcome of a statement that is refused with error \<open>r\<close>, or else gives \<open>s'\<close>.\<close>

definition unless_refused :: "string option \<Rightarrow> db \<Rightarrow> string + db" where
  "unless_refused r s' = (case r of Some m \<Rightarrow> Inl m | None \<Rightarrow> Inr s')"

text \<open>The opening \<^verbatim>\<open>console.log\<close> of a migration function.\<close>

definition log_start :: "step \<Rightarrow> unit io" where
  "log_start st = (\<lambda>s. (Inr (), s\<lparr>started := started s @ [st]\<rparr>))"

text \<open>\<^verbatim>\<open>for (const x of xs) { await f(x) }\<close>\<close>

fun io_foreach :: "('a \<Rightarrow> unit io) \<Rightarrow> 'a list \<Rightarrow> unit io" where
  "io_foreach f [] = io_return ()"
| "io_foreach f (x # xs) = io_then (f x) (io_foreach f xs)"

text \<open>Insert-if-absent into a list that models a relation with a unique key.\<close>

definition add_new :: "'a \<Rightarrow> 'a list \<Rightarrow> 'a list" where
  "add_new x xs = (if x \<in> set xs then xs else xs @ [x])"

definition create_objects :: "schema_object list \<Rightarrow> db \<Rightarrow> db" where
  "create_objects objs s = s\<lparr>catalog := foldl (\<lambda>c x. add_new x c) (catalog s) objs\<rparr>"

definition drop_objects :: "schema_object list \<Rightarrow> db \<Rightarrow> db" where
  "drop_objects objs s = s\<lparr>catalog := filter (\<lambda>x. x \<notin> set objs) (catalog s)\<rparr>"

subsection \<open>The tracking store\<close>

definition ensureMigrationTable :: "env \<Rightarrow> unit io" where
  "ensureMigrationTable env =
     execute env CreateMigrationTable (create_objects [Table ''migration_status''])"

text \<open>
  \<^verbatim>\<open>hasMigrationRun\<close> catches the error of its query and returns false; it never
  throws and never writes, so it is a function of the database.
\<close>

definition hasMigrationRun :: "env \<Rightarrow> string \<Rightarrow> db \<Rightarrow> bool" where
  "hasMigrationRun env name s = (case db_fault env (SelectMigration name) of
       Some m \<Rightarrow> False
     | None \<Rightarrow> name \<in> set (migration_status s))"

text \<open>\<^verbatim>\<open>INSERT ... ON CONFLICT (name) DO NOTHING\<close>; the error is logged and rethrown.\<close>

definition markMigrationComplete :: "env \<Rightarrow> string \<Rightarrow> unit io" where
  "markMigrationComplete env name =
     execute env (InsertMigration name)
       (\<lambda>s. s\<lparr>migration_status := add_new name (migration_status s)\<rparr>)"

text \<open>
  The shape shared by the migrations that consult the tracking table: print the
  opening line, return at once when \<^verbatim>\<open>hasMigrationRun(name)\<close> is true, otherwise do
  the work and then \<^verbatim>\<open>markMigrationComplete(name)\<close>. The surrounding
  \<^verbatim>\<open>try/catch\<close> logs and rethrows, so it does not show in the result.
\<close>

definition tracked :: "env \<Rightarrow> step \<Rightarrow> string \<Rightarrow> unit io \<Rightarrow> unit io" where
  "tracked env st name work =
     io_then (log_start st)
       (\<lambda>s. if hasMigrationRun env name s then (Inr (), s)
            else io_then work (markMigrationComplete env name) s)"

subsection \<open>Critical migrations\<close>

text \<open>
  \<^verbatim>\<open>server/create_schema.sql\<close>: each enum type is created unless it exists
  (\<^verbatim>\<open>duplicate_object\<close> is ignored), each table and the index are created
  \<^verbatim>\<open>IF NOT EXISTS\<close>. Of the columns only the two that a later migration drops are
  kept; they come with a freshly created \<^verbatim>\<open>investments\<close> table.
\<close>

definition base_enum_types :: "schema_object list" where
  "base_enum_types = map EnumType
     [''role'', ''priority'', ''status'', ''investment_status'', ''investment_type'',
      ''quote_status'', ''installation_type'', ''activity_type'', ''floor_level'',
      ''drawing_category'', ''contact_category'']"

definition base_tables :: "schema_object list" where
  "base_tables = map Table
     [''boards'', ''schools'', ''sessions'', ''users'', ''user_schools'', ''maintenance'',
      ''appointments'', ''contracts'', ''reports'', ''report_comments'', ''building_data'',
      ''installation_data'', ''contact_data'', ''drawings'', ''budget_categories'',
      ''documents'', ''activities'', ''investments'', ''maintenance_history'',
      ''year_plan_columns'', ''year_plan_rows'', ''quotes'']"

definition investments_columns :: "schema_object list" where
  "investments_columns =
     [Column ''investments'' ''budgeted_cost'', Column ''investments'' ''parent_investment_id'']"

definition create_enum :: "string list \<Rightarrow> string list option \<Rightarrow> string list option" where
  "create_enum labels e = (case e of None \<Rightarrow> Some labels | Some ls \<Rightarrow> Some ls)"

definition apply_schema_sql :: "db \<Rightarrow> db" where
  "apply_schema_sql s =
     create_objects
       (base_enum_types @ base_tables @ [Index ''IDX_session_expire'']
        @ (if Table ''investments'' \<in> set (catalog s) then [] else investments_columns))
       (s\<lparr>role_enum := create_enum [''admin'', ''directeur'', ''medewerker''] (role_enum s),
          drawing_category :=
            create_enum [''bouwkundig'', ''w-installatie'', ''e-installatie'', ''terrein'', ''overig'']
              (drawing_category s)\<rparr>)"

text \<open>
  The script creates the table \<^verbatim>\<open>users\<close>, unless it exists, with the column
  \<^verbatim>\<open>role role NOT NULL DEFAULT 'user'\<close>. The type \<^verbatim>\<open>role\<close>, when the script has
  created it, has no label \<^verbatim>\<open>user\<close>: PostgreSQL then refuses the default, and with
  it the whole script, which is sent as one query.
\<close>

definition run_schema_sql :: "db \<Rightarrow> string + db" where
  "run_schema_sql s =
     unless_refused
       (if Table ''users'' \<in> set (catalog s) then None
        else labels_ok ''role'' [''user''] (role_enum (apply_schema_sql s)))
       (apply_schema_sql s)"

text \<open>
  \<^verbatim>\<open>createBaseSchema\<close>. When the \<^verbatim>\<open>schools\<close> table exists, the migration is marked
  inside a \<^verbatim>\<open>try\<close> whose \<^verbatim>\<open>catch\<close> is empty. Otherwise \<^verbatim>\<open>hasMigrationRun\<close> is
  consulted for a log line only, the schema file is read (a missing file throws) and
  executed, and the migration is marked.
\<close>

definition createBaseSchema :: "env \<Rightarrow> unit io" where
  "createBaseSchema env =
     io_then (log_start CreateBaseSchema)
       (io_bind (query env CheckSchoolsTable (\<lambda>s. Table ''schools'' \<in> set (catalog s)))
          (\<lambda>schemaExists.
             if schemaExists
             then io_catch (markMigrationComplete env ''create_base_schema'') (\<lambda>e. io_return ())
             else if \<not> schema_file_exists env
             then io_throw (Error ''Schema SQL file not found'')
             else io_then (execute_checked env RunSchemaSQL run_schema_sql)
                    (markMigrationComplete env ''create_base_schema'')))"

text \<open>\<^verbatim>\<open>haystack.includes(needle)\<close>\<close>

fun str_includes :: "string \<Rightarrow> string \<Rightarrow> bool" where
  "str_includes [] needle = (needle = [])"
| "str_includes (c # cs) needle = (take (length needle) (c # cs) = needle \<or> str_includes cs needle)"

text \<open>
  \<^verbatim>\<open>ensureSessionTable\<close>: three idempotent DDL statements; an error whose message
  contains \<^verbatim>\<open>already exists\<close> is swallowed, any other error is rethrown.
\<close>

definition ensureSessionTable :: "env \<Rightarrow> unit io" where
  "ensureSessionTable env =
     io_then (log_start EnsureSessionTable)
       (io_catch
          (io_then (execute env CreateSessionTable (create_objects [Table ''session'']))
             (io_then (execute env AddSessionPkey (create_objects [Constraint ''session_pkey'']))
                (execute env CreateSessionIndex (create_objects [Index ''IDX_session_expire'']))))
          (\<lambda>e. if str_includes (message e) ''already exists'' then io_return () else io_throw e))"

text \<open>
  The \<^verbatim>\<open>DO\<close> block of \<^verbatim>\<open>addDrawingCategoryEnumValues\<close>: the label is added unless
  \<^verbatim>\<open>pg_enum\<close> has it; \<^verbatim>\<open>ALTER TYPE\<close> on a type that does not exist is an error.
\<close>

definition add_drawing_category_value :: "env \<Rightarrow> string \<Rightarrow> unit io" where
  "add_drawing_category_value env v =
     execute_checked env (AddEnumValue v)
       (\<lambda>s. case drawing_category s of
               None \<Rightarrow> Inl ''type drawing_category does not exist''
             | Some ls \<Rightarrow> Inr (s\<lparr>drawing_category := Some (add_new v ls)\<rparr>))"

definition addDrawingCategoryEnumValues :: "env \<Rightarrow> unit io" where
  "addDrawingCategoryEnumValues env =
     tracked env AddDrawingCategoryEnumValues ''add_all_drawing_category_enum_values''
       (io_foreach (add_drawing_category_value env)
          [''terrein'', ''overig'', ''veiligheid'', ''afwerking''])"

text \<open>The rows of \<^verbatim>\<open>seedSchoolsAndBoards\<close>.\<close>

definition seed_boards :: "board list" where
  "seed_boards =
     [\<lparr>board_id = ''16f34a48-cda4-4355-b27f-2f3a554d4f49'', board_name = ''Hervormde Scholen''\<rparr>,
      \<lparr>board_id = ''4fce4dc9-f9b4-4c18-b1b2-386b12e2b7b9'', board_name = ''VPCO''\<rparr>]"

definition seed_schools :: "school list" where
  "seed_schools =
     [\<lparr>school_id = ''1d09ec9f-8177-4e8d-8ffe-22912d6785b2'', school_name = ''De Appelgaard'',
       school_board = Some ''16f34a48-cda4-4355-b27f-2f3a554d4f49''\<rparr>,
      \<lparr>school_id = ''655a2de6-a5a9-48f6-9ca3-19aa6675cac9'', school_name = ''De Hoeksteen'',
       school_board = Some ''16f34a48-cda4-4355-b27f-2f3a554d4f49''\<rparr>,
      \<lparr>school_id = ''14d3ab65-e849-4af2-9280-b386ac80c69d'', school_name = ''De Horizon'',
       school_board = Some ''16f34a48-cda4-4355-b27f-2f3a554d4f49''\<rparr>,
      \<lparr>school_id = ''7ffa2b7b-2d71-4f5d-89c4-88190ff85f7c'', school_name = ''Ichtus'',
       school_board = Some ''16f34a48-cda4-4355-b27f-2f3a554d4f49''\<rparr>,
      \<lparr>school_id = ''099237d5-89eb-405f-90d1-2670976e7775'', school_name = ''Maranatha'',
       school_board = Some ''16f34a48-cda4-4355-b27f-2f3a554d4f49''\<rparr>,
      \<lparr>school_id = ''3aaf933c-1b0f-4c7c-b670-d6eed43de3c9'', school_name = ''Rehoboth'',
       school_board = Some ''16f34a48-cda4-4355-b27f-2f3a554d4f49''\<rparr>,
      \<lparr>school_id = ''1921acbb-cb38-46f0-9819-dd3a02b27ca0'', school_name = ''Olijfboom'',
       school_board = Some ''4fce4dc9-f9b4-4c18-b1b2-386b12e2b7b9''\<rparr>,
      \<lparr>school_id = ''2e39cec0-0213-4839-9223-3a042fb0a0ad'', school_name = ''School a'',
       school_board = None\<rparr>,
      \<lparr>school_id = ''9e277fdf-7db8-437d-96ff-ccc38c0ac924'', school_name = ''Test Omgeving'',
       school_board = None\<rparr>]"

text \<open>\<^verbatim>\<open>INSERT ... ON CONFLICT (id) DO NOTHING\<close>: a row whose id is taken is skipped.\<close>

definition insert_by_key :: "('a \<Rightarrow> 'k) \<Rightarrow> 'a list \<Rightarrow> 'a list \<Rightarrow> 'a list" where
  "insert_by_key key rows tbl =
     foldl (\<lambda>t r. if key r \<in> key ` set t then t else t @ [r]) tbl rows"

definition seedSchoolsAndBoards :: "env \<Rightarrow> unit io" where
  "seedSchoolsAndBoards env =
     io_then (log_start SeedSchoolsAndBoards)
       (io_bind (query env CountSchools (\<lambda>s. 0 < length (schools s)))
          (\<lambda>hasSchools.
             if hasSchools then markMigrationComplete env ''seed_schools_and_boards''
             else io_then
                    (execute env InsertBoards
                       (\<lambda>s. s\<lparr>boards := insert_by_key board_id seed_boards (boards s)\<rparr>))
                    (io_then
                       (execute env InsertSchools
                          (\<lambda>s. s\<lparr>schools := insert_by_key school_id seed_schools (schools s)\<rparr>))
                       (markMigrationComplete env ''seed_schools_and_boards''))))"

subsection \<open>Non-critical migrations\<close>

definition HARDCODED_USER_ID :: string where
  "HARDCODED_USER_ID = ''3f62dec4-fc48-4308-850d-cd0dca4d4349''"

definition admin_user :: user where
  "admin_user = \<lparr>user_id = HARDCODED_USER_ID, email = Some ''admin@eduvium.nl'',
     first_name = Some ''System'', last_name = Some ''Administrator'', role = ''admin''\<rparr>"

text \<open>
  \<^verbatim>\<open>seedHardcodedAdminUser\<close> does not use the tracking table: it looks for the row.
  The \<^verbatim>\<open>INSERT\<close> writes the literal \<^verbatim>\<open>'admin'\<close> into the \<^verbatim>\<open>role\<close> column;
  \<^verbatim>\<open>ON CONFLICT (id) DO NOTHING\<close> skips a row whose id is taken, and the column
  \<^verbatim>\<open>email\<close> is \<^verbatim>\<open>UNIQUE\<close>, so a new row with an address that is taken is refused.
\<close>

definition insert_admin_user :: "db \<Rightarrow> string + db" where
  "insert_admin_user s =
     unless_refused
       (case labels_ok ''role'' [''admin''] (role_enum s) of
          Some m \<Rightarrow> Some m
        | None \<Rightarrow>
            if HARDCODED_USER_ID \<notin> user_id ` set (users s)
               \<and> email admin_user \<in> email ` set (users s)
            then Some ''duplicate key value violates unique constraint''
            else None)
       (s\<lparr>users := insert_by_key user_id [admin_user] (users s)\<rparr>)"

definition seedHardcodedAdminUser :: "env \<Rightarrow> unit io" where
  "seedHardcodedAdminUser env =
     io_then (log_start SeedHardcodedAdminUser)
       (io_bind (query env SelectAdminUser
                   (\<lambda>s. filter (\<lambda>u. user_id u = HARDCODED_USER_ID) (users s)))
          (\<lambda>userCheck.
             if 0 < length userCheck then io_return ()
             else execute_checked env InsertAdminUser insert_admin_user))"

text \<open>
  The \<^verbatim>\<open>INSERT ... SELECT\<close> of \<^verbatim>\<open>assignUsersToSchools\<close>: every pair of a user and a
  school without a \<^verbatim>\<open>user_schools\<close> row; within one user the pairs are numbered in the
  order of the school name, and number 1 is the default. User ids are a primary key,
  so the partition by \<^verbatim>\<open>u.id\<close> is the partition by user row. Names are compared as
  character lists.
\<close>

definition has_link :: "db \<Rightarrow> string \<Rightarrow> string \<Rightarrow> bool" where
  "has_link s uid sid = (\<exists>l \<in> set (user_schools s). us_user l = uid \<and> us_school l = sid)"

definition new_links_for :: "db \<Rightarrow> user \<Rightarrow> user_school list" where
  "new_links_for s u =
     map (\<lambda>(n, sc). \<lparr>us_user = user_id u, us_school = school_id sc, is_default = (n = 1)\<rparr>)
       (enumerate 1
          (sort_key school_name
             (filter (\<lambda>sc. \<not> has_link s (user_id u) (school_id sc)) (schools s))))"

definition orphaned :: "db \<Rightarrow> user \<Rightarrow> bool" where
  "orphaned s u = (\<not> (\<exists>l \<in> set (user_schools s). us_user l = user_id u))"

definition assignUsersToSchools :: "env \<Rightarrow> unit io" where
  "assignUsersToSchools env =
     io_then (log_start AssignUsersToSchools)
       (io_bind (query env CountUsers (\<lambda>s. length (users s)))
          (\<lambda>totalUsers.
             if totalUsers = 0 then io_return ()
             else io_bind (query env CountOrphanedUsers
                             (\<lambda>s. length (filter (orphaned s) (users s))))
                    (\<lambda>orphanedCount.
                       if orphanedCount = 0 then io_return ()
                       else execute env InsertUserSchools
                              (\<lambda>s. s\<lparr>user_schools :=
                                       user_schools s @ concat (map (new_links_for s) (users s))\<rparr>))))"

text \<open>
  \<^verbatim>\<open>ensureSupabaseBucketsForSchools\<close>: the failure of one bucket is caught inside the
  loop, and the outer \<^verbatim>\<open>catch\<close> does not rethrow.
\<close>

definition bucket_name :: "string \<Rightarrow> string" where
  "bucket_name schoolId = ''school-'' @ filter (\<lambda>c. c \<noteq> CHR ''-'') schoolId"

definition createBucketIfNotExists :: "env \<Rightarrow> string \<Rightarrow> unit io" where
  "createBucketIfNotExists env name = (\<lambda>s. case storage_fault env name of
       Some m \<Rightarrow> (Inl (Error (''Failed to create Supabase bucket: '' @ m)), s)
     | None \<Rightarrow> (Inr (), s\<lparr>buckets := add_new name (buckets s)\<rparr>))"

definition import_storage :: "env \<Rightarrow> unit io" where
  "import_storage env = (\<lambda>s. case import_fault env of
       Some m \<Rightarrow> (Inl (Error m), s)
     | None \<Rightarrow> (Inr (), s))"

definition ensureSupabaseBucketsForSchools :: "env \<Rightarrow> unit io" where
  "ensureSupabaseBucketsForSchools env =
     io_then (log_start EnsureSupabaseBucketsForSchools)
       (io_catch
          (io_then (import_storage env)
             (io_bind (query env SelectSchools schools)
                (\<lambda>allSchools.
                   if length allSchools = 0 then io_return ()
                   else io_foreach
                          (\<lambda>row. io_catch
                                    (createBucketIfNotExists env (bucket_name (school_id row)))
                                    (\<lambda>e. io_return ()))
                          allSchools)))
          (\<lambda>e. io_return ()))"

text \<open>\<^verbatim>\<open>LOWER\<close>, on the letters A to Z.\<close>

definition lower_char :: "char \<Rightarrow> char" where
  "lower_char c =
     (case map_of (zip ''ABCDEFGHIJKLMNOPQRSTUVWXYZ'' ''abcdefghijklmnopqrstuvwxyz'') c of
        Some l \<Rightarrow> l
      | None \<Rightarrow> c)"

definition lower :: "string \<Rightarrow> string" where
  "lower = map lower_char"

text \<open>\<^verbatim>\<open>SUM\<close> is \<^verbatim>\<open>NULL\<close> over no rows; \<^verbatim>\<open>COALESCE(x, d)\<close>.\<close>

definition sql_sum :: "int list \<Rightarrow> int option" where
  "sql_sum xs = (if xs = [] then None else Some (sum_list xs))"

definition coalesce :: "'a option \<Rightarrow> 'a \<Rightarrow> 'a" where
  "coalesce x d = (case x of None \<Rightarrow> d | Some v \<Rightarrow> v)"

text \<open>
  The subquery of the second \<^verbatim>\<open>UPDATE\<close>: the costs of the history rows with
  \<^verbatim>\<open>LOWER(mh.category) = LOWER(bc.name)\<close>, the same school and a cost; a comparison
  with a \<^verbatim>\<open>NULL\<close> category is not true.
\<close>

definition history_costs :: "db \<Rightarrow> budget_category \<Rightarrow> int list" where
  "history_costs s bc =
     List.map_filter
       (\<lambda>mh. case mh_category mh of
                None \<Rightarrow> None
              | Some cat \<Rightarrow>
                  if lower cat = lower (bc_name bc) \<and> mh_school mh = bc_school bc
                  then cost mh else None)
       (maintenance_history s)"

text \<open>
  The second \<^verbatim>\<open>UPDATE\<close>. The column \<^verbatim>\<open>spent\<close> is an \<^verbatim>\<open>INTEGER\<close>: when the sum
  for one row is outside the 32-bit range PostgreSQL refuses the statement, and no row
  is updated.
\<close>

definition update_spent :: "db \<Rightarrow> string + db" where
  "update_spent s =
     unless_refused
       (if list_all (\<lambda>bc. int4_ok (coalesce (sql_sum (history_costs s bc)) 0))
             (budget_categories s)
        then None else Some ''integer out of range'')
       (s\<lparr>budget_categories :=
            map (\<lambda>bc. bc\<lparr>spent := coalesce (sql_sum (history_costs s bc)) 0\<rparr>)
              (budget_categories s)\<rparr>)"

definition recalculate_spent :: "env \<Rightarrow> unit io" where
  "recalculate_spent env =
     io_then
       (execute env ResetSpent
          (\<lambda>s. s\<lparr>budget_categories := map (\<lambda>bc. bc\<lparr>spent := 0\<rparr>) (budget_categories s)\<rparr>))
       (execute_checked env RecalculateSpent update_spent)"

definition recalculateBudgetSpentAmounts :: "env \<Rightarrow> unit io" where
  "recalculateBudgetSpentAmounts env =
     tracked env RecalculateBudgetSpentAmounts ''recalculate_budget_spent_amounts''
       (recalculate_spent env)"

definition createRoomsAndTerrainTables :: "env \<Rightarrow> unit io" where
  "createRoomsAndTerrainTables env =
     tracked env CreateRoomsAndTerrainTables ''create_rooms_and_terrain_tables''
       (io_then (execute env CreateRoomsTable (create_objects [Table ''rooms'']))
          (execute env CreateTerrainTable (create_objects [Table ''terrain''])))"

definition addMaxStudentsToRooms :: "env \<Rightarrow> unit io" where
  "addMaxStudentsToRooms env =
     tracked env AddMaxStudentsToRooms ''add_max_students_to_rooms''
       (execute env AddMaxStudentsColumn (create_objects [Column ''rooms'' ''max_students'']))"

definition createFoldersAndExtendDocuments :: "env \<Rightarrow> unit io" where
  "createFoldersAndExtendDocuments env =
     tracked env CreateFoldersAndExtendDocuments ''create_folders_and_extend_documents''
       (io_then (execute env CreateFoldersTable (create_objects [Table ''folders'']))
          (execute env AlterDocuments
             (create_objects [Column ''documents'' ''folder_id'',
                              Column ''documents'' ''description''])))"

definition createInvestmentYearsTable :: "env \<Rightarrow> unit io" where
  "createInvestmentYearsTable env =
     tracked env CreateInvestmentYearsTable ''create_investment_years_table''
       (io_then (execute env CreateInvestmentYears (create_objects [Table ''investment_years'']))
          (execute env DropInvestmentColumns (drop_objects investments_columns)))"

definition valid_drawing_categories :: "string list" where
  "valid_drawing_categories =
     [''bouwkundig'', ''w-installatie'', ''e-installatie'', ''terrein'', ''overig'',
      ''veiligheid'', ''afwerking'']"

text \<open>
  The \<^verbatim>\<open>UPDATE\<close> of \<^verbatim>\<open>fixInvalidDrawingCategories\<close> writes the seven categories as
  literals of the enum type \<^verbatim>\<open>drawing_category\<close>.
\<close>

definition update_drawing_categories :: "db \<Rightarrow> string + db" where
  "update_drawing_categories s =
     unless_refused
       (labels_ok ''drawing_category'' valid_drawing_categories (drawing_category s))
       (s\<lparr>drawings :=
            map (\<lambda>d. if category d \<notin> set valid_drawing_categories
                     then d\<lparr>category := ''overig''\<rparr> else d)
              (drawings s)\<rparr>)"

definition fixInvalidDrawingCategories :: "env \<Rightarrow> unit io" where
  "fixInvalidDrawingCategories env =
     tracked env FixInvalidDrawingCategories ''fix_invalid_drawing_categories''
       (execute_checked env UpdateDrawingCategories update_drawing_categories)"

text \<open>
  The \<^verbatim>\<open>INSERT\<close> of one year row. \<^verbatim>\<open>ON CONFLICT DO NOTHING\<close> skips a row whose
  \<^verbatim>\<open>(investment_id, year)\<close> is taken. The column \<^verbatim>\<open>year\<close> is an \<^verbatim>\<open>INTEGER\<close>:
  PostgreSQL rejects a value outside the 32-bit range, and the model throws there.
\<close>

definition insert_investment_year :: "env \<Rightarrow> string \<Rightarrow> int \<Rightarrow> unit io" where
  "insert_investment_year env i y =
     execute_checked env (InsertInvestmentYear i y)
       (\<lambda>s. if \<not> int4_ok y then Inl ''integer out of range''
            else Inr (s\<lparr>investment_years :=
                          (if \<exists>r \<in> set (investment_years s). iy_investment r = i \<and> iy_year r = y
                           then investment_years s
                           else investment_years s
                                @ [\<lparr>iy_investment = i, iy_year = y, amount = 0\<rparr>])\<rparr>))"

text \<open>
  \<^verbatim>\<open>for (let year = startYear; year <= maxYear; year += cycleYears)\<close>. The loop is
  entered only where \<^verbatim>\<open>cycle_years\<close> is truthy, that is not zero; the guard repeats
  this. With a negative step the year falls until the insert is rejected.
\<close>

function cyclic_years_loop :: "env \<Rightarrow> string \<Rightarrow> int \<Rightarrow> int \<Rightarrow> int \<Rightarrow> unit io" where
  "cyclic_years_loop env i cycleYears maxYear year s =
     (if cycleYears \<noteq> 0 \<and> year \<le> maxYear
      then (case insert_investment_year env i year s of
              (Inl e, s') \<Rightarrow> (Inl e, s')
            | (Inr u, s') \<Rightarrow> cyclic_years_loop env i cycleYears maxYear (year + cycleYears) s')
      else (Inr (), s))"
  by pat_completeness auto
termination
proof -
  have ok: "int4_ok y" if "(Inr u, s') = insert_investment_year env i y s"
    for env i y s s' and u :: unit
    using that
    by (auto simp: insert_investment_year_def execute_checked_def
             split: option.splits if_splits)
  show ?thesis
    apply (relation "measure (\<lambda>(env, i, c, maxYear, year, s).
             if 0 < c then nat (maxYear - year + 1) else nat (year + 2147483649))")
     apply simp
    apply (auto dest!: ok simp: int4_ok_def)
    done
qed

declare cyclic_years_loop.simps [simp del]

text \<open>
  The rows of the \<^verbatim>\<open>SELECT\<close> of \<^verbatim>\<open>populateInvestmentYears\<close>: the investments
  without a year row and with a start date.
\<close>

definition investments_without_years :: "db \<Rightarrow> (string \<times> date \<times> bool \<times> int option) list" where
  "investments_without_years s =
     List.map_filter
       (\<lambda>inv. if \<exists>r \<in> set (investment_years s). iy_investment r = inv_id inv then None
              else (case start_date inv of
                      None \<Rightarrow> None
                    | Some d \<Rightarrow> Some (inv_id inv, d, is_cyclic inv, cycle_years inv)))
       (investments s)"

definition getFullYear :: "date \<Rightarrow> int" where
  "getFullYear d = date_year d"

text \<open>\<^verbatim>\<open>investment.is_cyclic && investment.cycle_years\<close>: a number is truthy unless zero.\<close>

definition populate_investment :: "env \<Rightarrow> string \<times> date \<times> bool \<times> int option \<Rightarrow> unit io" where
  "populate_investment env row =
     (case row of (i, d, cyclic, cyc) \<Rightarrow>
        (let startYear = getFullYear d in
         case (if cyclic then cyc else None) of
           Some cycleYears \<Rightarrow>
             if cycleYears \<noteq> 0
             then cyclic_years_loop env i cycleYears (startYear + 30) startYear
             else insert_investment_year env i startYear
         | None \<Rightarrow> insert_investment_year env i startYear))"

definition populate_years :: "env \<Rightarrow> unit io" where
  "populate_years env =
     io_bind (query env SelectInvestmentsWithoutYears investments_without_years)
       (\<lambda>invs. if length invs = 0 then io_return ()
               else io_foreach (populate_investment env) invs)"

definition populateInvestmentYears :: "env \<Rightarrow> unit io" where
  "populateInvestmentYears env =
     tracked env PopulateInvestmentYears ''populate_investment_years'' (populate_years env)"

definition addAttachmentColumnsToReportsAndMaintenance :: "env \<Rightarrow> unit io" where
  "addAttachmentColumnsToReportsAndMaintenance env =
     tracked env AddAttachmentColumnsToReportsAndMaintenance
       ''add_attachment_columns_to_reports_and_maintenance''
       (io_then
          (execute env AlterReports
             (create_objects [Column ''reports'' ''attachment_url'',
                              Column ''reports'' ''attachment_name'']))
          (execute env AlterMaintenance
             (create_objects [Column ''maintenance'' ''attachment_url'',
                              Column ''maintenance'' ''attachment_name''])))"

text \<open>
  \<^verbatim>\<open>extendRoleEnumForRbac\<close>: the catalog query casts \<^verbatim>\<open>'role'\<close> to a type, which is
  an error when the type does not exist; the two \<^verbatim>\<open>ALTER TYPE\<close> statements sit in
  their own \<^verbatim>\<open>try/catch\<close>, which swallows the error. The \<^verbatim>\<open>UPDATE\<close> writes the
  literals \<^verbatim>\<open>'directeur'\<close> and \<^verbatim>\<open>'user'\<close> for the column \<^verbatim>\<open>users.role\<close>, whose
  type is \<^verbatim>\<open>role\<close>: it is refused unless both are labels of the type.
\<close>

definition add_role_value :: "env \<Rightarrow> string \<Rightarrow> unit io" where
  "add_role_value env v =
     execute_checked env (AddRoleValue v)
       (\<lambda>s. case role_enum s of
               None \<Rightarrow> Inl ''type role does not exist''
             | Some ls \<Rightarrow> Inr (s\<lparr>role_enum := Some (add_new v ls)\<rparr>))"

definition convert_user_roles :: "db \<Rightarrow> string + db" where
  "convert_user_roles s =
     unless_refused (labels_ok ''role'' [''directeur'', ''user''] (role_enum s))
       (s\<lparr>users := map (\<lambda>u. if role u = ''user'' then u\<lparr>role := ''directeur''\<rparr> else u)
                      (users s)\<rparr>)"

definition extend_role_enum :: "env \<Rightarrow> unit io" where
  "extend_role_enum env =
     io_bind
       (query_checked env CheckRoleEnum
          (\<lambda>s. case role_enum s of
                  None \<Rightarrow> Inl ''type role does not exist''
                | Some ls \<Rightarrow>
                    Inr (filter (\<lambda>l. l = ''directeur'' \<or> l = ''medewerker'') ls)))
       (\<lambda>enumCheck.
          io_then
            (if length enumCheck < 2
             then io_then (io_catch (add_role_value env ''directeur'') (\<lambda>e. io_return ()))
                    (io_catch (add_role_value env ''medewerker'') (\<lambda>e. io_return ()))
             else io_return ())
            (execute_checked env ConvertUserRoles convert_user_roles))"

definition extendRoleEnumForRbac :: "env \<Rightarrow> unit io" where
  "extendRoleEnumForRbac env =
     tracked env ExtendRoleEnumForRbac ''extend_role_enum_for_rbac'' (extend_role_enum env)"

text \<open>
  \<^verbatim>\<open>fixJeanAdminRole\<close>: the first query only feeds a log line; the \<^verbatim>\<open>UPDATE\<close>
  writes the literal \<^verbatim>\<open>'admin'\<close> into the \<^verbatim>\<open>role\<close> column.
\<close>

definition is_jean :: "user \<Rightarrow> bool" where
  "is_jean u = (case email u of
       None \<Rightarrow> False
     | Some a \<Rightarrow> lower a = lower ''jean@deruiterpartners.nl'')"

definition update_jean :: "db \<Rightarrow> string + db" where
  "update_jean s =
     unless_refused (labels_ok ''role'' [''admin''] (role_enum s))
       (s\<lparr>users := map (\<lambda>u. if is_jean u then u\<lparr>role := ''admin''\<rparr> else u) (users s)\<rparr>)"

definition fixJeanAdminRole :: "env \<Rightarrow> unit io" where
  "fixJeanAdminRole env =
     tracked env FixJeanAdminRole ''fix_jean_admin_role_v2''
       (io_then (query env SelectJean (\<lambda>s. ()))
          (execute_checked env UpdateJean update_jean))"

subsection \<open>The runner\<close>

text \<open>\<^verbatim>\<open>await a(); await b(); ...\<close>: the first throw ends the sequence.\<close>

fun run_steps :: "unit io list \<Rightarrow> unit io" where
  "run_steps [] = io_return ()"
| "run_steps (m # ms) = io_then m (run_steps ms)"

definition critical_steps :: "env \<Rightarrow> unit io list" where
  "critical_steps env =
     [createBaseSchema env,
      ensureSessionTable env,
      addDrawingCategoryEnumValues env,
      seedSchoolsAndBoards env]"

definition noncritical_steps :: "env \<Rightarrow> unit io list" where
  "noncritical_steps env =
     [seedHardcodedAdminUser env,
      assignUsersToSchools env,
      ensureSupabaseBucketsForSchools env,
      recalculateBudgetSpentAmounts env,
      createRoomsAndTerrainTables env,
      addMaxStudentsToRooms env,
      createFoldersAndExtendDocuments env,
      createInvestmentYearsTable env,
      fixInvalidDrawingCategories env,
      populateInvestmentYears env,
      addAttachmentColumnsToReportsAndMaintenance env,
      extendRoleEnumForRbac env,
      fixJeanAdminRole env]"

text \<open>
  \<^verbatim>\<open>runMigrations\<close>: the tracking table and the critical migrations run in the outer
  \<^verbatim>\<open>try\<close>, whose \<^verbatim>\<open>catch\<close> rethrows; the non-critical migrations run together in
  one inner \<^verbatim>\<open>try\<close>, whose \<^verbatim>\<open>catch\<close> logs the error and goes on.
\<close>

definition runMigrations :: "env \<Rightarrow> unit io" where
  "runMigrations env =
     io_then (ensureMigrationTable env)
       (io_then (run_steps (critical_steps env))
          (io_catch (run_steps (noncritical_steps env)) (\<lambda>e. io_return ())))"

subsection \<open>The declared order\<close>

text \<open>The migrations in the order in which \<^verbatim>\<open>runMigrations\<close> awaits them.\<close>

definition migration_order :: "step list" where
  "migration_order =
     [CreateBaseSchema, EnsureSessionTable, AddDrawingCategoryEnumValues, SeedSchoolsAndBoards,
      SeedHardcodedAdminUser, AssignUsersToSchools, EnsureSupabaseBucketsForSchools,
      RecalculateBudgetSpentAmounts, CreateRoomsAndTerrainTables, AddMaxStudentsToRooms,
      CreateFoldersAndExtendDocuments, CreateInvestmentYearsTable, FixInvalidDrawingCategories,
      PopulateInvestmentYears, AddAttachmentColumnsToReportsAndMaintenance,
      ExtendRoleEnumForRbac, FixJeanAdminRole]"

fun position_in :: "'a list \<Rightarrow> 'a \<Rightarrow> nat" where
  "position_in [] x = 0"
| "position_in (y # ys) x = (if x = y then 0 else Suc (position_in ys x))"

definition precedes :: "step \<Rightarrow> step \<Rightarrow> bool" where
  "precedes a b = (position_in migration_order a < position_in migration_order b)"

text \<open>
  \<open>io_respects R m\<close>: running \<open>m\<close> takes every database to one related to it by \<open>R\<close>,
  whether \<open>m\<close> returns or throws.
\<close>

definition io_respects :: "(db \<Rightarrow> db \<Rightarrow> bool) \<Rightarrow> 'a io \<Rightarrow> bool" where
  "io_respects R m = (\<forall>s. R s (snd (m s)))"

definition same_started :: "db \<Rightarrow> db \<Rightarrow> bool" where
  "same_started s t = (started t = started s)"

text \<open>\<open>announces st m\<close>: \<open>m\<close> prints the opening line of \<open>st\<close> and no other.\<close>

definition announces :: "step \<Rightarrow> unit io \<Rightarrow> bool" where
  "announces st m = (\<forall>s. started (snd (m s)) = started s @ [st])"

subsection \<open>What the specification speaks of\<close>

text \<open>
  The schema objects a migration creates, and those its statements name and therefore
  need, read off the SQL of each function.
\<close>

fun creates :: "step \<Rightarrow> schema_object list" where
  "creates CreateBaseSchema =
     base_enum_types @ base_tables @ [Index ''IDX_session_expire''] @ investments_columns
     @ map (EnumLabel ''role'') [''admin'', ''directeur'', ''medewerker'']
     @ map (EnumLabel ''drawing_category'')
         [''bouwkundig'', ''w-installatie'', ''e-installatie'', ''terrein'', ''overig'']"
| "creates EnsureSessionTable =
     [Table ''session'', Constraint ''session_pkey'', Index ''IDX_session_expire'']"
| "creates AddDrawingCategoryEnumValues =
     map (EnumLabel ''drawing_category'') [''terrein'', ''overig'', ''veiligheid'', ''afwerking'']"
| "creates CreateRoomsAndTerrainTables = [Table ''rooms'', Table ''terrain'']"
| "creates AddMaxStudentsToRooms = [Column ''rooms'' ''max_students'']"
| "creates CreateFoldersAndExtendDocuments =
     [Table ''folders'', Column ''documents'' ''folder_id'', Column ''documents'' ''description'']"
| "creates CreateInvestmentYearsTable = [Table ''investment_years'']"
| "creates AddAttachmentColumnsToReportsAndMaintenance =
     [Column ''reports'' ''attachment_url'', Column ''reports'' ''attachment_name'',
      Column ''maintenance'' ''attachment_url'', Column ''maintenance'' ''attachment_name'']"
| "creates ExtendRoleEnumForRbac = map (EnumLabel ''role'') [''directeur'', ''medewerker'']"
| "creates st = []"

fun needs :: "step \<Rightarrow> schema_object list" where
  "needs CreateBaseSchema = []"
| "needs EnsureSessionTable = []"
| "needs AddDrawingCategoryEnumValues = [EnumType ''drawing_category'']"
| "needs SeedSchoolsAndBoards = [Table ''schools'', Table ''boards'']"
| "needs SeedHardcodedAdminUser = [Table ''users'', EnumLabel ''role'' ''admin'']"
| "needs AssignUsersToSchools = [Table ''users'', Table ''schools'', Table ''user_schools'']"
| "needs EnsureSupabaseBucketsForSchools = [Table ''schools'']"
| "needs RecalculateBudgetSpentAmounts =
     [Table ''budget_categories'', Table ''maintenance_history'']"
| "needs CreateRoomsAndTerrainTables = [Table ''building_data'', Table ''schools'']"
| "needs AddMaxStudentsToRooms = [Table ''rooms'']"
| "needs CreateFoldersAndExtendDocuments = [Table ''schools'', Table ''documents'']"
| "needs CreateInvestmentYearsTable = [Table ''investments'']"
| "needs FixInvalidDrawingCategories =
     Table ''drawings'' # map (EnumLabel ''drawing_category'') valid_drawing_categories"
| "needs PopulateInvestmentYears = [Table ''investments'', Table ''investment_years'']"
| "needs AddAttachmentColumnsToReportsAndMaintenance = [Table ''reports'', Table ''maintenance'']"
| "needs ExtendRoleEnumForRbac =
     [EnumType ''role'', Table ''users'', EnumLabel ''role'' ''directeur'',
      EnumLabel ''role'' ''user'']"
| "needs FixJeanAdminRole = [Table ''users'', EnumLabel ''role'' ''admin'']"

text \<open>The migrations whose statements insert or update rows.\<close>

fun writes_rows :: "step \<Rightarrow> bool" where
  "writes_rows SeedSchoolsAndBoards = True"
| "writes_rows SeedHardcodedAdminUser = True"
| "writes_rows AssignUsersToSchools = True"
| "writes_rows RecalculateBudgetSpentAmounts = True"
| "writes_rows FixInvalidDrawingCategories = True"
| "writes_rows PopulateInvestmentYears = True"
| "writes_rows ExtendRoleEnumForRbac = True"
| "writes_rows FixJeanAdminRole = True"
| "writes_rows st = False"

text \<open>
  The spent amount as the specification words it: the sum of the costs of the history
  rows of the same school whose category is the name of the budget category up to
  letter case, rows without a cost left out.
\<close>

definition same_category :: "budget_category \<Rightarrow> maintenance_history_row \<Rightarrow> bool" where
  "same_category bc mh = (case mh_category mh of
       None \<Rightarrow> False
     | Some cat \<Rightarrow> lower cat = lower (bc_name bc))"

definition spent_from_history :: "db \<Rightarrow> budget_category \<Rightarrow> int" where
  "spent_from_history s bc =
     sum_list (map (\<lambda>mh. case cost mh of None \<Rightarrow> 0 | Some c \<Rightarrow> c)
       (filter (\<lambda>mh. same_category bc mh \<and> mh_school mh = bc_school bc \<and> cost mh \<noteq> None)
          (maintenance_history s)))"





text \<open>
  The sequence of \<^verbatim>\<open>runMigrations\<close> without the inner \<^verbatim>\<open>catch\<close>: it returns normally
  exactly when no migration throws to the runner.
\<close>

definition run_without_catch :: "env \<Rightarrow> unit io" where
  "run_without_catch env =
     io_then (ensureMigrationTable env)
       (run_steps (critical_steps env @ noncritical_steps env))"

subsection \<open>What a run never undoes\<close>

text \<open>
  \<open>grows s t\<close> holds from the database before a migration to the one after it: marks
  and catalog objects stay (but for the two columns a migration drops), the schools
  table changes only while it is empty, the user ids change only while the
  administrator is missing, and links and buckets stay.
\<close>

definition grows :: "db \<Rightarrow> db \<Rightarrow> bool" where
  "grows s t =
     (set (migration_status s) \<subseteq> set (migration_status t)
      \<and> (\<forall>x \<in> set (catalog s). x \<notin> set investments_columns \<longrightarrow> x \<in> set (catalog t))
      \<and> (schools s \<noteq> [] \<longrightarrow> schools t = schools s)
      \<and> (HARDCODED_USER_ID \<in> user_id ` set (users s)
           \<longrightarrow> map user_id (users t) = map user_id (users s))
      \<and> set (user_schools s) \<subseteq> set (user_schools t)
      \<and> set (buckets s) \<subseteq> set (buckets t))"

definition tracked_names :: "string list" where
  "tracked_names =
     [''create_base_schema'', ''add_all_drawing_category_enum_values'',
      ''seed_schools_and_boards'', ''recalculate_budget_spent_amounts'',
      ''create_rooms_and_terrain_tables'', ''add_max_students_to_rooms'',
      ''create_folders_and_extend_documents'', ''create_investment_years_table'',
      ''fix_invalid_drawing_categories'', ''populate_investment_years'',
      ''add_attachment_columns_to_reports_and_maintenance'', ''extend_role_enum_for_rbac'',
      ''fix_jean_admin_role_v2'']"

text \<open>
  \<open>settled env s\<close>: what a run in which every migration returned normally leaves
  behind. The tracking table, the schema and the session table exist, every tracked
  migration is marked, there is a school, the administrator exists, every user has
  a school, and every school has its bucket unless the storage service refuses it.
\<close>

definition settled :: "env \<Rightarrow> db \<Rightarrow> bool" where
  "settled env s =
     (set [Table ''migration_status'', Table ''schools'', Table ''session'',
           Constraint ''session_pkey'', Index ''IDX_session_expire''] \<subseteq> set (catalog s)
      \<and> set tracked_names \<subseteq> set (migration_status s)
      \<and> schools s \<noteq> []
      \<and> HARDCODED_USER_ID \<in> user_id ` set (users s)
      \<and> (\<forall>u \<in> set (users s). \<not> orphaned s u)
      \<and> (import_fault env = None \<longrightarrow>
           (\<forall>sc \<in> set (schools s).
              storage_fault env (bucket_name (school_id sc)) = None
              \<longrightarrow> bucket_name (school_id sc) \<in> set (buckets s))))"

subsection \<open>Example environments and databases\<close>

definition fresh_db :: db where
  "fresh_db = \<lparr>catalog = [], drawing_category = None, role_enum = None, migration_status = [],
     boards = [], schools = [], users = [], user_schools = [], budget_categories = [],
     maintenance_history = [], investments = [], investment_years = [], drawings = [],
     buckets = [], started = []\<rparr>"

text \<open>An environment in which exactly the statements \<open>qs\<close> fail.\<close>

definition env_failing :: "stmt list \<Rightarrow> env" where
  "env_failing qs = \<lparr>db_fault = (\<lambda>q. if q \<in> set qs then Some ''connection terminated'' else None),
     schema_file_exists = True, import_fault = None, storage_fault = (\<lambda>b. None)\<rparr>"

definition no_faults :: env where
  "no_faults = env_failing []"

text \<open>
  A database on which an earlier start has run the critical migrations: the schema, the
  session table and the enum labels exist, the three tracked critical migrations are
  marked, and there is one school. The type \<^verbatim>\<open>role\<close> is older than
  \<^verbatim>\<open>server/create_schema.sql\<close> and has the labels \<^verbatim>\<open>admin\<close> and \<^verbatim>\<open>user\<close>.
\<close>

definition seeded_db :: db where
  "seeded_db = fresh_db\<lparr>
     catalog := [Table ''migration_status'', Table ''schools'', Table ''session'',
                 Constraint ''session_pkey'', Index ''IDX_session_expire''],
     drawing_category := Some [''bouwkundig'', ''w-installatie'', ''e-installatie'', ''terrein'',
                               ''overig'', ''veiligheid'', ''afwerking''],
     role_enum := Some [''admin'', ''user''],
     migration_status := [''create_base_schema'', ''add_all_drawing_category_enum_values'',
                          ''seed_schools_and_boards''],
     schools := [\<lparr>school_id = ''2e39cec0-0213-4839-9223-3a042fb0a0ad'',
                  school_name = ''School a'', school_board = None\<rparr>]\<rparr>"

text \<open>
  A database from before the schools: the table \<^verbatim>\<open>users\<close> and the type \<^verbatim>\<open>role\<close>
  with its older labels exist, and nothing else.
\<close>

definition legacy_db :: db where
  "legacy_db = fresh_db\<lparr>catalog := [Table ''users''], role_enum := Some [''admin'', ''user'']\<rparr>"

text \<open>An environment without \<^verbatim>\<open>server/create_schema.sql\<close>.\<close>

definition env_without_schema_file :: env where
  "env_without_schema_file = no_faults\<lparr>schema_file_exists := False\<rparr>"

text \<open>
  An environment in which the import of the storage module fails and so does the
  statement that creates the \<^verbatim>\<open>rooms\<close> table.
\<close>

definition storage_and_rooms_fail :: env where
  "storage_and_rooms_fail =
     (env_failing [CreateRoomsTable])\<lparr>import_fault := Some ''Cannot find module''\<rparr>"

text \<open>The link of the administrator to the school of \<open>seeded_db\<close>.\<close>

definition admin_link :: user_school where
  "admin_link = \<lparr>us_user = HARDCODED_USER_ID,
     us_school = ''2e39cec0-0213-4839-9223-3a042fb0a0ad'', is_default = True\<rparr>"

text \<open>An environment in which three of the inserts into the tracking table fail.\<close>

definition tracking_insert_fails :: env where
  "tracking_insert_fails =
     env_failing [InsertMigration ''populate_investment_years'',
                  InsertMigration ''seed_schools_and_boards'',
                  InsertMigration ''create_base_schema'']"

text \<open>
  A database with two budget categories and five history rows: two rows match the first
  category up to letter case, one belongs to another school, one has no cost and one
  has no category.
\<close>

definition budget_db :: db where
  "budget_db = fresh_db\<lparr>
     budget_categories :=
       [\<lparr>bc_name = ''Schilderwerk'', bc_school = ''s1'', budget = 1000, spent = 999\<rparr>,
        \<lparr>bc_name = ''Dak'', bc_school = ''s1'', budget = 500, spent = 7\<rparr>],
     maintenance_history :=
       [\<lparr>mh_category = Some ''schilderwerk'', mh_school = ''s1'', cost = Some 100\<rparr>,
        \<lparr>mh_category = Some ''SCHILDERWERK'', mh_school = ''s1'', cost = Some 50\<rparr>,
        \<lparr>mh_category = Some ''Schilderwerk'', mh_school = ''s2'', cost = Some 30\<rparr>,
        \<lparr>mh_category = Some ''schilderwerk'', mh_school = ''s1'', cost = None\<rparr>,
        \<lparr>mh_category = None, mh_school = ''s1'', cost = Some 5\<rparr>]\<rparr>"

text \<open>
  A database with one budget category and two history rows that match it, whose costs
  are \<^verbatim>\<open>INTEGER\<close> values with a sum that is not.
\<close>

definition overflow_db :: db where
  "overflow_db = fresh_db\<lparr>
     budget_categories :=
       [\<lparr>bc_name = ''Dak'', bc_school = ''s1'', budget = 500, spent = 7\<rparr>],
     maintenance_history :=
       [\<lparr>mh_category = Some ''dak'', mh_school = ''s1'', cost = Some 2000000000\<rparr>,
        \<lparr>mh_category = Some ''DAK'', mh_school = ''s1'', cost = Some 2000000000\<rparr>]\<rparr>"

text \<open>
  A database past the critical migrations with two schools, stored in the order opposite
  to that of their names, and one user without a school.
\<close>

definition teacher :: user where
  "teacher = \<lparr>user_id = ''u1'', email = Some ''teacher@example.org'', first_name = None,
     last_name = None, role = ''user''\<rparr>"

definition two_schools_db :: db where
  "two_schools_db = seeded_db\<lparr>
     schools := [\<lparr>school_id = ''s-z'', school_name = ''Zonnebloem'', school_board = None\<rparr>,
                 \<lparr>school_id = ''s-a'', school_name = ''Akker'', school_board = None\<rparr>],
     users := [teacher]\<rparr>"


section \<open>Properties\<close>

subsection \<open>Unfolding the combinators\<close>

lemma io_then_apply:
  "io_then m n s = (case m s of (Inl e, s') \<Rightarrow> (Inl e, s') | (Inr x, s') \<Rightarrow> n s')"
  by (simp add: io_then_def io_bind_def)

lemma io_catch_apply:
  "io_catch m h s = (case m s of (Inl e, s') \<Rightarrow> h e s' | (Inr x, s') \<Rightarrow> (Inr x, s'))"
  by (simp add: io_catch_def)

lemma io_bind_apply:
  "io_bind m f s = (case m s of (Inl e, s') \<Rightarrow> (Inl e, s') | (Inr x, s') \<Rightarrow> f x s')"
  by (simp add: io_bind_def)

lemma tracked_apply:
  "tracked env st name work s =
     (if name \<in> set (migration_status s) \<and> db_fault env (SelectMigration name) = None
      then (Inr (), s\<lparr>started := started s @ [st]\<rparr>)
      else io_then work (markMigrationComplete env name) (s\<lparr>started := started s @ [st]\<rparr>))"
  by (simp add: tracked_def io_then_def io_bind_def log_start_def hasMigrationRun_def
           split: option.splits)

lemma unless_refused_Inr [simp]: "(unless_refused r t = Inr s') = (r = None \<and> s' = t)"
  by (cases r) (auto simp: unless_refused_def)

lemma unless_refused_Inl [simp]: "(unless_refused r t = Inl m) = (r = Some m)"
  by (cases r) (auto simp: unless_refused_def)

lemma unless_refused_None [simp]: "unless_refused None t = Inr t"
  by (simp add: unless_refused_def)

lemma unless_refused_Some [simp]: "unless_refused (Some m) t = Inl m"
  by (simp add: unless_refused_def)

lemmas checked_defs =
  run_schema_sql_def insert_admin_user_def update_spent_def update_drawing_categories_def
  convert_user_roles_def update_jean_def

lemma env_failing_fault [simp]:
  "db_fault (env_failing qs) q = (if q \<in> set qs then Some ''connection terminated'' else None)"
  by (simp add: env_failing_def)

subsection \<open>The tracking check fails open\<close>

text \<open>
  C3. When the existence query of \<^verbatim>\<open>hasMigrationRun\<close> throws, for any migration name,
  \<^verbatim>\<open>hasMigrationRun\<close> returns false, and a migration that consults it does its work
  and marks itself instead of returning early, whatever the tracking table holds.
\<close>

theorem hasMigrationRun_fail_open:
  assumes "db_fault env (SelectMigration name) = Some m"
  shows "hasMigrationRun env name s = False \<and>
         tracked env st name work s =
           io_then work (markMigrationComplete env name) (s\<lparr>started := started s @ [st]\<rparr>)"
  using assms by (simp add: hasMigrationRun_def tracked_apply)

theorem hasMigrationRun_fail_open_witness:
  "db_fault (env_failing [SelectMigration ''populate_investment_years''])
     (SelectMigration ''populate_investment_years'') = Some ''connection terminated''
   \<and> ''populate_investment_years''
       \<in> set (migration_status (fresh_db\<lparr>migration_status := [''populate_investment_years'']\<rparr>))
   \<and> hasMigrationRun (env_failing [SelectMigration ''populate_investment_years''])
        ''populate_investment_years''
        (fresh_db\<lparr>migration_status := [''populate_investment_years'']\<rparr>) = False
   \<and> populateInvestmentYears (env_failing [SelectMigration ''populate_investment_years''])
        (fresh_db\<lparr>migration_status := [''populate_investment_years'']\<rparr>)
      = io_then (populate_years (env_failing [SelectMigration ''populate_investment_years'']))
          (markMigrationComplete (env_failing [SelectMigration ''populate_investment_years''])
             ''populate_investment_years'')
          (fresh_db\<lparr>migration_status := [''populate_investment_years''],
                    started := [PopulateInvestmentYears]\<rparr>)"
proof -
  have f: "db_fault (env_failing [SelectMigration ''populate_investment_years''])
     (SelectMigration ''populate_investment_years'') = Some ''connection terminated''"
    by simp
  show ?thesis
    using f hasMigrationRun_fail_open [OF f,
        of "fresh_db\<lparr>migration_status := [''populate_investment_years'']\<rparr>"
           PopulateInvestmentYears
           "populate_years (env_failing [SelectMigration ''populate_investment_years''])"]
    by (simp add: populateInvestmentYears_def fresh_db_def)
qed

subsection \<open>Relations kept by every run\<close>

lemma respects_return: "reflp R \<Longrightarrow> io_respects R (io_return x)"
  by (simp add: io_respects_def io_return_def reflpD)

lemma respects_throw: "reflp R \<Longrightarrow> io_respects R (io_throw e)"
  by (simp add: io_respects_def io_throw_def reflpD)

lemma respects_bind:
  assumes "transp R" and m: "io_respects R m" and f: "\<And>x. io_respects R (f x)"
  shows "io_respects R (io_bind m f)"
  unfolding io_respects_def
proof
  fix s
  obtain r s' where ms: "m s = (r, s')" by (cases "m s")
  have s': "R s s'" using m ms by (auto simp: io_respects_def dest: spec[of _ s])
  show "R s (snd (io_bind m f s))"
  proof (cases r)
    case (Inl e) then show ?thesis using ms s' by (simp add: io_bind_def)
  next
    case (Inr x)
    have "R s' (snd (f x s'))" using f[of x] by (simp add: io_respects_def)
    then have "R s (snd (f x s'))" using s' \<open>transp R\<close> by (blast dest: transpD)
    then show ?thesis using ms Inr by (simp add: io_bind_def)
  qed
qed

lemma respects_then:
  "transp R \<Longrightarrow> io_respects R m \<Longrightarrow> io_respects R n \<Longrightarrow> io_respects R (io_then m n)"
  by (simp add: io_then_def respects_bind)

lemma respects_catch:
  assumes "transp R" and m: "io_respects R m" and h: "\<And>e. io_respects R (h e)"
  shows "io_respects R (io_catch m h)"
  unfolding io_respects_def
proof
  fix s
  obtain r s' where ms: "m s = (r, s')" by (cases "m s")
  have s': "R s s'" using m ms by (auto simp: io_respects_def dest: spec[of _ s])
  show "R s (snd (io_catch m h s))"
  proof (cases r)
    case (Inr x) then show ?thesis using ms s' by (simp add: io_catch_def)
  next
    case (Inl e)
    have "R s' (snd (h e s'))" using h[of e] by (simp add: io_respects_def)
    then have "R s (snd (h e s'))" using s' \<open>transp R\<close> by (blast dest: transpD)
    then show ?thesis using ms Inl by (simp add: io_catch_def)
  qed
qed

lemma respects_execute:
  "reflp R \<Longrightarrow> (\<And>s. R s (upd s)) \<Longrightarrow> io_respects R (execute env q upd)"
  by (simp add: io_respects_def execute_def reflpD split: option.splits)

lemma respects_query: "reflp R \<Longrightarrow> io_respects R (query env q f)"
  by (simp add: io_respects_def query_def reflpD split: option.splits)

lemma respects_query_checked: "reflp R \<Longrightarrow> io_respects R (query_checked env q f)"
  by (simp add: io_respects_def query_checked_def reflpD split: option.splits sum.splits)

lemma respects_execute_checked:
  "reflp R \<Longrightarrow> (\<And>s s'. upd s = Inr s' \<Longrightarrow> R s s') \<Longrightarrow> io_respects R (execute_checked env q upd)"
  by (simp add: io_respects_def execute_checked_def reflpD split: option.splits sum.splits)

lemma respects_foreach:
  "reflp R \<Longrightarrow> transp R \<Longrightarrow> (\<And>x. io_respects R (f x)) \<Longrightarrow> io_respects R (io_foreach f xs)"
  by (induction xs) (simp_all add: respects_return respects_then)

lemma respects_if:
  "io_respects R m \<Longrightarrow> io_respects R n \<Longrightarrow> io_respects R (if b then m else n)"
  by simp

lemma respects_mark:
  "reflp R \<Longrightarrow> (\<And>s. R s (s\<lparr>migration_status := add_new name (migration_status s)\<rparr>))
   \<Longrightarrow> io_respects R (markMigrationComplete env name)"
  by (simp add: markMigrationComplete_def respects_execute)

lemma loop_stop:
  "cycleYears = 0 \<or> maxYear < year \<Longrightarrow>
   cyclic_years_loop env i cycleYears maxYear year s = (Inr (), s)"
  by (subst cyclic_years_loop.simps) auto

lemma loop_step:
  "cycleYears \<noteq> 0 \<Longrightarrow> year \<le> maxYear \<Longrightarrow>
   cyclic_years_loop env i cycleYears maxYear year s =
     (case insert_investment_year env i year s of
        (Inl e, s') \<Rightarrow> (Inl e, s')
      | (Inr u, s') \<Rightarrow> cyclic_years_loop env i cycleYears maxYear (year + cycleYears) s')"
  by (subst cyclic_years_loop.simps) simp

lemma respects_loop:
  assumes "reflp R" "transp R" and ins: "\<And>env i y. io_respects R (insert_investment_year env i y)"
  shows "io_respects R (cyclic_years_loop env i c maxYear year)"
  unfolding io_respects_def
proof
  fix s
  show "R s (snd (cyclic_years_loop env i c maxYear year s))"
  proof (induction env i c maxYear year s rule: cyclic_years_loop.induct)
    case (1 env' i' c maxYear year s)
    show ?case
    proof (cases "c \<noteq> 0 \<and> year \<le> maxYear")
      case False
      then show ?thesis using \<open>reflp R\<close> by (auto simp: loop_stop reflpD)
    next
      case True
      obtain r s' where p: "insert_investment_year env' i' year s = (r, s')"
        by (cases "insert_investment_year env' i' year s")
      have k: "R s s'" using ins[of env' i' year] p by (auto simp: io_respects_def dest: spec[of _ s])
      show ?thesis
      proof (cases r)
        case (Inl e)
        then show ?thesis using True k p by (simp add: loop_step)
      next
        case (Inr u)
        have "R s' (snd (cyclic_years_loop env' i' c maxYear (year + c) s'))"
          using "1.IH"[OF True p[symmetric] Inr] by simp
        then have "R s (snd (cyclic_years_loop env' i' c maxYear (year + c) s'))"
          using k \<open>transp R\<close> by (blast dest: transpD)
        then show ?thesis using True p Inr by (simp add: loop_step)
      qed
    qed
  qed
qed

subsection \<open>Every migration prints its own opening line\<close>

lemmas respects_intros =
  respects_return respects_throw respects_bind respects_then respects_catch respects_execute
  respects_query respects_query_checked respects_execute_checked respects_foreach respects_if
  respects_mark respects_loop

lemma same_started_refl: "reflp same_started"
  by (simp add: reflp_def same_started_def)

lemma same_started_trans: "transp same_started"
  by (simp add: transp_def same_started_def)

lemma same_started_create [simp]: "same_started s (create_objects objs s)"
  by (simp add: same_started_def create_objects_def)

lemma same_started_drop [simp]: "same_started s (drop_objects objs s)"
  by (simp add: same_started_def drop_objects_def)

lemma same_started_insert_year: "io_respects same_started (insert_investment_year env i y)"
  unfolding insert_investment_year_def
  by (rule respects_execute_checked[OF same_started_refl])
     (auto simp: same_started_def split: if_splits)

lemma announces_logged:
  assumes "io_respects same_started m"
  shows "announces st (io_then (log_start st) m)"
  using assms
  by (simp add: announces_def io_respects_def same_started_def io_then_apply log_start_def
        split: prod.splits sum.splits)


lemma announces_tracked:
  assumes "io_respects same_started work"
  shows "announces st (tracked env st name work)"
proof -
  have "io_respects same_started (io_then work (markMigrationComplete env name))"
    by (intro respects_then respects_mark same_started_trans same_started_refl assms)
       (simp add: same_started_def)
  then show ?thesis
    by (simp add: announces_def io_respects_def same_started_def tracked_apply)
qed

lemmas started_intros =
  respects_intros same_started_refl same_started_trans same_started_insert_year

lemma announces_createBaseSchema: "announces CreateBaseSchema (createBaseSchema env)"
  unfolding createBaseSchema_def
  by (intro announces_logged started_intros)
     (auto simp: same_started_def run_schema_sql_def apply_schema_sql_def create_objects_def)

lemma announces_ensureSessionTable: "announces EnsureSessionTable (ensureSessionTable env)"
  unfolding ensureSessionTable_def
  by (intro announces_logged started_intros) simp_all

lemma announces_addDrawingCategoryEnumValues:
  "announces AddDrawingCategoryEnumValues (addDrawingCategoryEnumValues env)"
  unfolding addDrawingCategoryEnumValues_def add_drawing_category_value_def
  by (intro announces_tracked started_intros)
     (auto simp: same_started_def split: option.splits)

lemma announces_seedSchoolsAndBoards:
  "announces SeedSchoolsAndBoards (seedSchoolsAndBoards env)"
  unfolding seedSchoolsAndBoards_def
  by (intro announces_logged started_intros) (simp_all add: same_started_def)

lemma announces_seedHardcodedAdminUser:
  "announces SeedHardcodedAdminUser (seedHardcodedAdminUser env)"
  unfolding seedHardcodedAdminUser_def
  by (intro announces_logged started_intros)
     (auto simp: same_started_def insert_admin_user_def)

lemma announces_assignUsersToSchools:
  "announces AssignUsersToSchools (assignUsersToSchools env)"
  unfolding assignUsersToSchools_def
  by (intro announces_logged started_intros) (simp_all add: same_started_def)

lemma respects_createBucket:
  "reflp R \<Longrightarrow> (\<And>s. R s (s\<lparr>buckets := add_new name (buckets s)\<rparr>))
   \<Longrightarrow> io_respects R (createBucketIfNotExists env name)"
  by (simp add: io_respects_def createBucketIfNotExists_def reflpD split: option.splits)

lemma respects_import: "reflp R \<Longrightarrow> io_respects R (import_storage env)"
  by (simp add: io_respects_def import_storage_def reflpD split: option.splits)

lemma announces_ensureSupabaseBucketsForSchools:
  "announces EnsureSupabaseBucketsForSchools (ensureSupabaseBucketsForSchools env)"
  unfolding ensureSupabaseBucketsForSchools_def
  by (intro announces_logged started_intros respects_createBucket respects_import)
     (simp_all add: same_started_def)

lemma announces_recalculateBudgetSpentAmounts:
  "announces RecalculateBudgetSpentAmounts (recalculateBudgetSpentAmounts env)"
  unfolding recalculateBudgetSpentAmounts_def recalculate_spent_def
  by (intro announces_tracked started_intros)
     (auto simp: same_started_def update_spent_def)

lemma announces_createRoomsAndTerrainTables:
  "announces CreateRoomsAndTerrainTables (createRoomsAndTerrainTables env)"
  unfolding createRoomsAndTerrainTables_def
  by (intro announces_tracked started_intros) simp_all

lemma announces_addMaxStudentsToRooms:
  "announces AddMaxStudentsToRooms (addMaxStudentsToRooms env)"
  unfolding addMaxStudentsToRooms_def
  by (intro announces_tracked started_intros) simp_all

lemma announces_createFoldersAndExtendDocuments:
  "announces CreateFoldersAndExtendDocuments (createFoldersAndExtendDocuments env)"
  unfolding createFoldersAndExtendDocuments_def
  by (intro announces_tracked started_intros) simp_all

lemma announces_createInvestmentYearsTable:
  "announces CreateInvestmentYearsTable (createInvestmentYearsTable env)"
  unfolding createInvestmentYearsTable_def
  by (intro announces_tracked started_intros) simp_all

lemma announces_fixInvalidDrawingCategories:
  "announces FixInvalidDrawingCategories (fixInvalidDrawingCategories env)"
  unfolding fixInvalidDrawingCategories_def
  by (intro announces_tracked started_intros)
     (auto simp: same_started_def update_drawing_categories_def)

lemma respects_populate_investment:
  assumes "reflp R" "transp R" "\<And>env i y. io_respects R (insert_investment_year env i y)"
  shows "io_respects R (populate_investment env row)"
  unfolding populate_investment_def Let_def
  by (cases row) (auto intro!: respects_loop assms split: option.splits)

lemma announces_populateInvestmentYears:
  "announces PopulateInvestmentYears (populateInvestmentYears env)"
  unfolding populateInvestmentYears_def populate_years_def
  by (intro announces_tracked started_intros respects_populate_investment)

lemma announces_addAttachmentColumns:
  "announces AddAttachmentColumnsToReportsAndMaintenance
     (addAttachmentColumnsToReportsAndMaintenance env)"
  unfolding addAttachmentColumnsToReportsAndMaintenance_def
  by (intro announces_tracked started_intros) simp_all

lemma announces_extendRoleEnumForRbac:
  "announces ExtendRoleEnumForRbac (extendRoleEnumForRbac env)"
  unfolding extendRoleEnumForRbac_def extend_role_enum_def add_role_value_def
  by (intro announces_tracked started_intros)
     (auto simp: same_started_def convert_user_roles_def split: option.splits)

lemma announces_fixJeanAdminRole: "announces FixJeanAdminRole (fixJeanAdminRole env)"
  unfolding fixJeanAdminRole_def
  by (intro announces_tracked started_intros)
     (auto simp: same_started_def update_jean_def)

subsection \<open>The runner stops at the first throw\<close>

lemma run_steps_append:
  "run_steps (xs @ ys) s =
     (case run_steps xs s of (Inl e, s') \<Rightarrow> (Inl e, s') | (Inr u, s') \<Rightarrow> run_steps ys s')"
proof (induction xs arbitrary: s)
  case Nil
  then show ?case by (simp add: io_return_def)
next
  case (Cons m ms)
  show ?case
    by (cases "m s") (auto simp: io_then_apply Cons.IH split: sum.splits prod.splits)
qed

lemma run_steps_stops:
  assumes "run_steps before s = (Inr (), s1)" and "failing s1 = (Inl e, s2)"
  shows "run_steps (before @ failing # after) s = (Inl e, s2)"
  using assms by (simp add: run_steps_append io_then_apply)

lemma run_steps_started:
  assumes "list_all2 announces names ms" and "run_steps ms s = (Inr (), s')"
  shows "started s' = started s @ names"
  using assms
proof (induction names ms arbitrary: s rule: list_all2_induct)
  case Nil
  then show ?case by (simp add: io_return_def)
next
  case (Cons n ns m ms)
  obtain r t where mt: "m s = (r, t)" by (cases "m s")
  with Cons.prems obtain u where r: "r = Inr u" and rest: "run_steps ms t = (Inr (), s')"
    by (cases r) (auto simp: io_then_apply)
  have "started t = started s @ [n]"
    using Cons.hyps(1) mt by (auto simp: announces_def dest: spec[of _ s])
  with Cons.IH[OF rest] show ?case by simp
qed

lemma run_steps_started_prefix:
  assumes "list_all2 announces names ms"
  shows "\<exists>k \<le> length names. started (snd (run_steps ms s)) = started s @ take k names
           \<and> (\<forall>u. fst (run_steps ms s) = Inr u \<longrightarrow> k = length names)"
  using assms
proof (induction names ms arbitrary: s rule: list_all2_induct)
  case Nil
  then show ?case by (simp add: io_return_def)
next
  case (Cons n ns m ms)
  obtain r t where mt: "m s = (r, t)" by (cases "m s")
  have t: "started t = started s @ [n]"
    using Cons.hyps(1) mt by (auto simp: announces_def dest: spec[of _ s])
  show ?case
  proof (cases r)
    case (Inl e)
    then have "started (snd (run_steps (m # ms) s)) = started s @ take 1 (n # ns)"
      and "fst (run_steps (m # ms) s) = Inl e"
      using mt t by (simp_all add: io_then_apply)
    then show ?thesis by (intro exI[of _ 1]) simp
  next
    case (Inr u)
    from Cons.IH[of t] obtain k where k: "k \<le> length ns"
      "started (snd (run_steps ms t)) = started t @ take k ns"
      "\<forall>u. fst (run_steps ms t) = Inr u \<longrightarrow> k = length ns" by blast
    have eq: "run_steps (m # ms) s = run_steps ms t" using mt Inr by (simp add: io_then_apply)
    show ?thesis
      using k t unfolding eq by (intro exI[of _ "Suc k"]) simp
  qed
qed

lemma run_steps_started_fail:
  assumes all: "list_all2 announces names (before @ failing # after)"
    and ok: "run_steps before s = (Inr (), s1)" and f: "failing s1 = (r, s2)"
  shows "started s2 = started s @ take (Suc (length before)) names"
proof -
  from all obtain ns1 n ns2 where names: "names = ns1 @ n # ns2"
    and b: "list_all2 announces ns1 before" and a: "announces n failing"
    by (auto simp: list_all2_append2 list_all2_Cons2)
  have l: "length ns1 = length before" using b by (rule list_all2_lengthD)
  have "started s1 = started s @ ns1" using b ok by (rule run_steps_started)
  moreover have "started s2 = started s1 @ [n]"
    using a f by (auto simp: announces_def dest: spec[of _ s1])
  ultimately show ?thesis using names l by simp
qed

lemma critical_announce:
  "list_all2 announces (take 4 migration_order) (critical_steps env)"
  by (simp add: migration_order_def critical_steps_def announces_createBaseSchema
        announces_ensureSessionTable announces_addDrawingCategoryEnumValues
        announces_seedSchoolsAndBoards)

lemma noncritical_announce:
  "list_all2 announces (drop 4 migration_order) (noncritical_steps env)"
  by (simp add: migration_order_def noncritical_steps_def announces_seedHardcodedAdminUser
        announces_assignUsersToSchools announces_ensureSupabaseBucketsForSchools
        announces_recalculateBudgetSpentAmounts announces_createRoomsAndTerrainTables
        announces_addMaxStudentsToRooms announces_createFoldersAndExtendDocuments
        announces_createInvestmentYearsTable announces_fixInvalidDrawingCategories
        announces_populateInvestmentYears announces_addAttachmentColumns
        announces_extendRoleEnumForRbac announces_fixJeanAdminRole)

lemma ensureMigrationTable_started:
  "started (snd (ensureMigrationTable env s)) = started s"
  by (simp add: ensureMigrationTable_def execute_def create_objects_def split: option.splits)

lemma runMigrations_apply:
  "runMigrations env s =
     (case ensureMigrationTable env s of
        (Inl e, s0) \<Rightarrow> (Inl e, s0)
      | (Inr u, s0) \<Rightarrow>
          (case run_steps (critical_steps env) s0 of
             (Inl e, s1) \<Rightarrow> (Inl e, s1)
           | (Inr u, s1) \<Rightarrow> (Inr (), snd (run_steps (noncritical_steps env) s1))))"
  by (auto simp: runMigrations_def io_then_apply io_catch_def io_return_def
           split: prod.splits sum.splits)

subsection \<open>Evaluating the example databases\<close>

lemmas io_eval =
  io_return_def io_throw_def io_bind_def io_then_def io_catch_def execute_def query_def
  execute_checked_def query_checked_def log_start_def tracked_def hasMigrationRun_def
  markMigrationComplete_def add_new_def create_objects_def drop_objects_def
  ensureMigrationTable_def labels_ok_def

lemmas step_eval =
  createBaseSchema_def ensureSessionTable_def addDrawingCategoryEnumValues_def
  seedSchoolsAndBoards_def seedHardcodedAdminUser_def assignUsersToSchools_def
  ensureSupabaseBucketsForSchools_def recalculateBudgetSpentAmounts_def
  createRoomsAndTerrainTables_def addMaxStudentsToRooms_def
  createFoldersAndExtendDocuments_def createInvestmentYearsTable_def
  fixInvalidDrawingCategories_def populateInvestmentYears_def
  addAttachmentColumnsToReportsAndMaintenance_def extendRoleEnumForRbac_def
  fixJeanAdminRole_def checked_defs

lemma critical_on_seeded:
  "\<forall>q \<in> set [CheckSchoolsTable, InsertMigration ''create_base_schema'', CreateSessionTable,
      AddSessionPkey, CreateSessionIndex, SelectMigration ''add_all_drawing_category_enum_values'',
      CountSchools, InsertMigration ''seed_schools_and_boards'']. db_fault env q = None \<Longrightarrow>
   run_steps (critical_steps env) (seeded_db\<lparr>started := xs\<rparr>)
     = (Inr (), seeded_db\<lparr>started := xs @ take 4 migration_order\<rparr>)"
  by (simp add: critical_steps_def step_eval io_eval seeded_db_def
        fresh_db_def migration_order_def)

lemma ensure_on_seeded:
  "db_fault env CreateMigrationTable = None \<Longrightarrow>
   ensureMigrationTable env (seeded_db\<lparr>started := xs\<rparr>) = (Inr (), seeded_db\<lparr>started := xs\<rparr>)"
  by (simp add: io_eval seeded_db_def fresh_db_def)

lemma seeded_started [simp]: "seeded_db\<lparr>started := []\<rparr> = seeded_db"
  by (simp add: seeded_db_def fresh_db_def)

subsection \<open>Statements PostgreSQL refuses\<close>

text \<open>
  On a database without the type \<^verbatim>\<open>role\<close> and the table \<^verbatim>\<open>users\<close> the schema script
  is refused, so \<^verbatim>\<open>createBaseSchema\<close> throws and creates nothing.
\<close>

lemma createBaseSchema_on_fresh_db:
  "createBaseSchema no_faults fresh_db
     = (Inl (Error ''invalid input value for enum role''),
        fresh_db\<lparr>started := [CreateBaseSchema]\<rparr>)"
  by (simp add: createBaseSchema_def run_schema_sql_def apply_schema_sql_def create_enum_def
        io_eval no_faults_def env_failing_def fresh_db_def)

text \<open>
  While \<^verbatim>\<open>user\<close> is not a label of the type \<^verbatim>\<open>role\<close>, the \<^verbatim>\<open>UPDATE\<close> of
  \<^verbatim>\<open>extendRoleEnumForRbac\<close> is refused, and the migration throws whenever it is not
  skipped.
\<close>

lemma convert_user_roles_refused:
  assumes "role_enum s = Some ls" and "''user'' \<notin> set ls"
  shows "convert_user_roles s = Inl ''invalid input value for enum role''"
  using assms by (simp add: convert_user_roles_def labels_ok_def)

lemma extendRoleEnumForRbac_refused:
  assumes "role_enum s = Some ls" and "''user'' \<notin> set ls"
    and "\<not> hasMigrationRun env ''extend_role_enum_for_rbac'' s"
  shows "\<exists>e s'. extendRoleEnumForRbac env s = (Inl e, s')"
  using assms
  by (auto simp: extendRoleEnumForRbac_def tracked_apply hasMigrationRun_def
        extend_role_enum_def io_then_apply io_bind_apply io_catch_apply query_checked_def
        execute_checked_def add_role_value_def convert_user_roles_def labels_ok_def
        add_new_def io_return_def log_start_def
        split: option.splits sum.splits prod.splits if_splits)

subsection \<open>Critical failures abort the run\<close>

text \<open>
  C2. When the tracking table is in place, the critical migrations before some critical
  migration return normally and that migration throws \<open>e\<close>, then \<^verbatim>\<open>runMigrations\<close>
  throws \<open>e\<close>, and the database is the one in which the migration threw: no migration
  declared after it has run, and the opening lines printed are those of the
  migrations up to and including the failing one.
\<close>

theorem critical_failure_propagates:
  assumes "ensureMigrationTable env s = (Inr (), s0)"
    and "critical_steps env = before @ failing # after"
    and "run_steps before s0 = (Inr (), s1)"
    and "failing s1 = (Inl e, s2)"
  shows "runMigrations env s = (Inl e, s2) \<and>
         started s2 = started s @ take (Suc (length before)) migration_order"
proof -
  have "run_steps (critical_steps env) s0 = (Inl e, s2)"
    using assms(2-4) by (simp add: run_steps_stops)
  then have r: "runMigrations env s = (Inl e, s2)"
    using assms(1) by (simp add: runMigrations_apply)
  have s0: "started s0 = started s"
    using ensureMigrationTable_started[of env s] assms(1) by simp
  have len: "length before < 4"
    using arg_cong[OF assms(2), of length] by (simp add: critical_steps_def)
  have "started s2 = started s0 @ take (Suc (length before)) (take 4 migration_order)"
    using critical_announce[of env] assms(3,4) unfolding assms(2)
    by (rule run_steps_started_fail)
  then show ?thesis using r s0 len by (simp add: min_def)
qed

theorem critical_failure_propagates_witness:
  "ensureMigrationTable env_without_schema_file fresh_db
     = (Inr (), fresh_db\<lparr>catalog := [Table ''migration_status'']\<rparr>)
   \<and> critical_steps env_without_schema_file
     = [] @ createBaseSchema env_without_schema_file
          # [ensureSessionTable env_without_schema_file,
             addDrawingCategoryEnumValues env_without_schema_file,
             seedSchoolsAndBoards env_without_schema_file]
   \<and> run_steps [] (fresh_db\<lparr>catalog := [Table ''migration_status'']\<rparr>)
     = (Inr (), fresh_db\<lparr>catalog := [Table ''migration_status'']\<rparr>)
   \<and> createBaseSchema env_without_schema_file (fresh_db\<lparr>catalog := [Table ''migration_status'']\<rparr>)
     = (Inl (Error ''Schema SQL file not found''),
        fresh_db\<lparr>catalog := [Table ''migration_status''], started := [CreateBaseSchema]\<rparr>)
   \<and> runMigrations env_without_schema_file fresh_db
     = (Inl (Error ''Schema SQL file not found''),
        fresh_db\<lparr>catalog := [Table ''migration_status''], started := [CreateBaseSchema]\<rparr>)"
proof -
  have a: "ensureMigrationTable env_without_schema_file fresh_db
     = (Inr (), fresh_db\<lparr>catalog := [Table ''migration_status'']\<rparr>)"
    by (simp add: io_eval env_without_schema_file_def no_faults_def fresh_db_def)
  have b: "critical_steps env_without_schema_file
     = [] @ createBaseSchema env_without_schema_file
          # [ensureSessionTable env_without_schema_file,
             addDrawingCategoryEnumValues env_without_schema_file,
             seedSchoolsAndBoards env_without_schema_file]"
    by (simp add: critical_steps_def)
  have c: "run_steps [] (fresh_db\<lparr>catalog := [Table ''migration_status'']\<rparr>)
     = (Inr (), fresh_db\<lparr>catalog := [Table ''migration_status'']\<rparr>)"
    by (simp add: io_return_def)
  have d: "createBaseSchema env_without_schema_file (fresh_db\<lparr>catalog := [Table ''migration_status'']\<rparr>)
     = (Inl (Error ''Schema SQL file not found''),
        fresh_db\<lparr>catalog := [Table ''migration_status''], started := [CreateBaseSchema]\<rparr>)"
    by (simp add: createBaseSchema_def io_eval env_without_schema_file_def no_faults_def
          fresh_db_def)
  show ?thesis
    using a b c d critical_failure_propagates [OF a b c d] by simp
qed

subsection \<open>Non-critical failures\<close>

lemma buckets_foreach:
  "io_foreach (\<lambda>row. io_catch (createBucketIfNotExists env (bucket_name (school_id row)))
                          (\<lambda>e. io_return ())) xs s
   = (Inr (), s\<lparr>buckets := foldl (\<lambda>bs x. if storage_fault env (bucket_name (school_id x)) = None
                                          then add_new (bucket_name (school_id x)) bs else bs)
                              (buckets s) xs\<rparr>)"
proof (induction xs arbitrary: s)
  case Nil
  then show ?case by (simp add: io_return_def)
next
  case (Cons x xs)
  show ?case
  proof (cases "storage_fault env (bucket_name (school_id x))")
    case None
    then have "io_catch (createBucketIfNotExists env (bucket_name (school_id x)))
                 (\<lambda>e. io_return ()) s
        = (Inr (), s\<lparr>buckets := add_new (bucket_name (school_id x)) (buckets s)\<rparr>)"
      by (simp add: io_catch_apply createBucketIfNotExists_def)
    then show ?thesis using None by (simp add: io_then_apply Cons)
  next
    case (Some m)
    then have "io_catch (createBucketIfNotExists env (bucket_name (school_id x)))
                 (\<lambda>e. io_return ()) s = (Inr (), s)"
      by (simp add: io_catch_apply createBucketIfNotExists_def io_return_def)
    then show ?thesis using Some by (simp add: io_then_apply Cons)
  qed
qed

text \<open>
  C1, as stated, fails: the non-critical migrations share one \<^verbatim>\<open>try\<close> block. When the
  first of them, \<^verbatim>\<open>seedHardcodedAdminUser\<close>, throws, \<^verbatim>\<open>runMigrations\<close> still
  resolves, but none of the other non-critical migrations runs.
\<close>

theorem noncritical_failure_counterexample:
  "seedHardcodedAdminUser (env_failing [SelectAdminUser])
       (seeded_db\<lparr>started := [CreateBaseSchema, EnsureSessionTable,
                                AddDrawingCategoryEnumValues, SeedSchoolsAndBoards]\<rparr>)
     = (Inl (Error ''connection terminated''),
        seeded_db\<lparr>started := [CreateBaseSchema, EnsureSessionTable, AddDrawingCategoryEnumValues,
                                SeedSchoolsAndBoards, SeedHardcodedAdminUser]\<rparr>)
   \<and> runMigrations (env_failing [SelectAdminUser]) seeded_db
     = (Inr (), seeded_db\<lparr>started := [CreateBaseSchema, EnsureSessionTable,
                                      AddDrawingCategoryEnumValues, SeedSchoolsAndBoards,
                                      SeedHardcodedAdminUser]\<rparr>)
   \<and> AssignUsersToSchools
       \<notin> set (started (snd (runMigrations (env_failing [SelectAdminUser]) seeded_db)))
   \<and> RecalculateBudgetSpentAmounts
       \<notin> set (started (snd (runMigrations (env_failing [SelectAdminUser]) seeded_db)))"
proof -
  have a: "seedHardcodedAdminUser (env_failing [SelectAdminUser])
       (seeded_db\<lparr>started := [CreateBaseSchema, EnsureSessionTable,
                                AddDrawingCategoryEnumValues, SeedSchoolsAndBoards]\<rparr>)
     = (Inl (Error ''connection terminated''),
        seeded_db\<lparr>started := [CreateBaseSchema, EnsureSessionTable, AddDrawingCategoryEnumValues,
                                SeedSchoolsAndBoards, SeedHardcodedAdminUser]\<rparr>)"
    by (simp add: seedHardcodedAdminUser_def io_eval)
  have c: "run_steps (critical_steps (env_failing [SelectAdminUser])) seeded_db
     = (Inr (), seeded_db\<lparr>started := [CreateBaseSchema, EnsureSessionTable,
                                AddDrawingCategoryEnumValues, SeedSchoolsAndBoards]\<rparr>)"
    using critical_on_seeded[of "env_failing [SelectAdminUser]" "[]"]
    by (simp add: migration_order_def)
  have e: "ensureMigrationTable (env_failing [SelectAdminUser]) seeded_db = (Inr (), seeded_db)"
    using ensure_on_seeded[of "env_failing [SelectAdminUser]" "[]"] by simp
  have b: "runMigrations (env_failing [SelectAdminUser]) seeded_db
     = (Inr (), seeded_db\<lparr>started := [CreateBaseSchema, EnsureSessionTable,
                                      AddDrawingCategoryEnumValues, SeedSchoolsAndBoards,
                                      SeedHardcodedAdminUser]\<rparr>)"
    by (simp add: runMigrations_apply e c noncritical_steps_def io_then_apply a)
  show ?thesis using a b by simp
qed

lemma ensureSupabaseBucketsForSchools_returns:
  "\<exists>bs. ensureSupabaseBucketsForSchools env t
     = (Inr (), t\<lparr>started := started t @ [EnsureSupabaseBucketsForSchools], buckets := bs\<rparr>)"
proof -
  let ?t = "t\<lparr>started := started t @ [EnsureSupabaseBucketsForSchools]\<rparr>"
  show ?thesis
  proof (cases "import_fault env = None \<and> db_fault env SelectSchools = None \<and> schools t \<noteq> []")
    case True
    then show ?thesis
      by (auto simp: ensureSupabaseBucketsForSchools_def io_then_apply log_start_def
            io_catch_apply import_storage_def io_bind_apply query_def buckets_foreach)
  next
    case False
    then have "ensureSupabaseBucketsForSchools env t = (Inr (), ?t\<lparr>buckets := buckets t\<rparr>)"
      by (auto simp: ensureSupabaseBucketsForSchools_def io_then_apply log_start_def
            io_catch_apply import_storage_def io_bind_apply query_def io_return_def
            split: option.splits)
    then show ?thesis by (rule exI)
  qed
qed

lemma run_steps_started_first:
  assumes "announces n m" and "list_all2 announces ns ms"
  shows "\<exists>k. started (snd (run_steps (m # ms) s)) = started s @ n # take k ns"
proof -
  obtain r t where mt: "m s = (r, t)" by (cases "m s")
  have t: "started t = started s @ [n]"
    using assms(1) mt by (auto simp: announces_def dest: spec[of _ s])
  show ?thesis
  proof (cases r)
    case (Inl e)
    then have "started (snd (run_steps (m # ms) s)) = started s @ n # take 0 ns"
      using mt t by (simp add: io_then_apply)
    then show ?thesis by blast
  next
    case (Inr u)
    from run_steps_started_prefix[OF assms(2), of t]
    obtain k where "started (snd (run_steps ms t)) = started t @ take k ns" by blast
    then have "started (snd (run_steps (m # ms) s)) = started s @ n # take k ns"
      using mt Inr t by (simp add: io_then_apply)
    then show ?thesis by blast
  qed
qed

text \<open>
  C1, amended. Let the critical migrations have returned normally. Then
  \<^verbatim>\<open>runMigrations\<close> resolves successfully whatever the non-critical migrations do.
  \<^verbatim>\<open>ensureSupabaseBucketsForSchools\<close> is isolated: it never throws to the
  runner, whatever fails inside it, and it changes nothing but the buckets; so
  when the two migrations before it have returned normally, the run goes on with
  \<^verbatim>\<open>recalculateBudgetSpentAmounts\<close> and the migrations after it, from the database
  the bucket migration left, and when none of those throws all seventeen migrations
  have run. Each of the other twelve non-critical migrations is not isolated: when
  one of them throws, the non-critical migrations before it have run and those
  declared after it have not.
\<close>

theorem noncritical_failures_are_contained:
  assumes "ensureMigrationTable env s = (Inr (), s0)"
    and "run_steps (critical_steps env) s0 = (Inr (), s1)"
  shows "runMigrations env s = (Inr (), snd (run_steps (noncritical_steps env) s1))
     \<and> (\<forall>t. \<exists>bs. ensureSupabaseBucketsForSchools env t
            = (Inr (), t\<lparr>started := started t @ [EnsureSupabaseBucketsForSchools],
                          buckets := bs\<rparr>))
     \<and> (\<forall>s2. run_steps [seedHardcodedAdminUser env, assignUsersToSchools env] s1 = (Inr (), s2)
          \<longrightarrow> runMigrations env s
                = (Inr (), snd (run_steps (drop 3 (noncritical_steps env))
                                  (snd (ensureSupabaseBucketsForSchools env s2))))
              \<and> (\<exists>k. started (snd (runMigrations env s))
                         = started s @ take (8 + k) migration_order)
              \<and> (\<forall>s3. run_steps (drop 3 (noncritical_steps env))
                          (snd (ensureSupabaseBucketsForSchools env s2)) = (Inr (), s3)
                     \<longrightarrow> runMigrations env s = (Inr (), s3)
                         \<and> started s3 = started s @ migration_order))
     \<and> (\<forall>before failing after err s2 s3.
          noncritical_steps env = before @ failing # after
          \<and> run_steps before s1 = (Inr (), s2) \<and> failing s2 = (Inl err, s3)
          \<longrightarrow> failing \<noteq> ensureSupabaseBucketsForSchools env
              \<and> runMigrations env s = (Inr (), s3)
              \<and> started s3 = started s @ take (4 + Suc (length before)) migration_order)"
proof (intro conjI allI impI)
  show r: "runMigrations env s = (Inr (), snd (run_steps (noncritical_steps env) s1))"
    using assms by (simp add: runMigrations_apply)
  have s0: "started s0 = started s"
    using ensureMigrationTable_started[of env s] assms(1) by simp
  have s1: "started s1 = started s0 @ take 4 migration_order"
    using critical_announce assms(2) by (rule run_steps_started)
  show "\<exists>bs. ensureSupabaseBucketsForSchools env t
            = (Inr (), t\<lparr>started := started t @ [EnsureSupabaseBucketsForSchools],
                          buckets := bs\<rparr>)" for t
    by (rule ensureSupabaseBucketsForSchools_returns)
  {
    fix s2
    assume two: "run_steps [seedHardcodedAdminUser env, assignUsersToSchools env] s1
                   = (Inr (), s2)"
    obtain bs where b: "ensureSupabaseBucketsForSchools env s2
        = (Inr (), s2\<lparr>started := started s2 @ [EnsureSupabaseBucketsForSchools],
                       buckets := bs\<rparr>)"
      using ensureSupabaseBucketsForSchools_returns[of env s2] by blast
    let ?t = "snd (ensureSupabaseBucketsForSchools env s2)"
    have split: "noncritical_steps env
        = [seedHardcodedAdminUser env, assignUsersToSchools env]
          @ ensureSupabaseBucketsForSchools env # drop 3 (noncritical_steps env)"
      by (simp add: noncritical_steps_def)
    have n: "run_steps (noncritical_steps env) s1
        = run_steps (drop 3 (noncritical_steps env)) ?t"
      by (subst split, subst run_steps_append, subst two) (simp add: io_then_apply b)
    show eq: "runMigrations env s
        = (Inr (), snd (run_steps (drop 3 (noncritical_steps env)) ?t))"
      using r n by simp
    have three: "run_steps [seedHardcodedAdminUser env, assignUsersToSchools env,
                   ensureSupabaseBucketsForSchools env] s1 = (Inr (), ?t)"
      using two b by (auto simp: io_then_apply io_return_def split: prod.splits sum.splits)
    have a3: "list_all2 announces (take 3 (drop 4 migration_order))
                [seedHardcodedAdminUser env, assignUsersToSchools env,
                 ensureSupabaseBucketsForSchools env]"
      using list_all2_takeI[OF noncritical_announce, of 3 env]
      by (simp add: noncritical_steps_def)
    have st: "started ?t = started s1 @ take 3 (drop 4 migration_order)"
      using a3 three by (rule run_steps_started)
    have rest: "drop 3 (noncritical_steps env)
        = recalculateBudgetSpentAmounts env # drop 4 (noncritical_steps env)"
      by (simp add: noncritical_steps_def)
    have a9: "list_all2 announces (drop 8 migration_order) (drop 4 (noncritical_steps env))"
      using list_all2_dropI[OF noncritical_announce, of 4 env] by simp
    from run_steps_started_first[OF announces_recalculateBudgetSpentAmounts a9, of env ?t]
    obtain k where "started (snd (run_steps (drop 3 (noncritical_steps env)) ?t))
        = started ?t @ RecalculateBudgetSpentAmounts # take k (drop 8 migration_order)"
      unfolding rest by blast
    then have "started (snd (runMigrations env s))
        = started s @ (take 4 migration_order @ take 3 (drop 4 migration_order)
            @ [RecalculateBudgetSpentAmounts]) @ take k (drop 8 migration_order)"
      unfolding eq using st s1 s0 by simp
    also have "take 4 migration_order @ take 3 (drop 4 migration_order)
            @ [RecalculateBudgetSpentAmounts] = take 8 migration_order"
      by (simp add: migration_order_def)
    also have "take 8 migration_order @ take k (drop 8 migration_order)
            = take (8 + k) migration_order"
      by (simp only: take_add)
    finally show "\<exists>k. started (snd (runMigrations env s))
                        = started s @ take (8 + k) migration_order"
      by blast
    fix s3
    assume later: "run_steps (drop 3 (noncritical_steps env)) ?t = (Inr (), s3)"
    then show "runMigrations env s = (Inr (), s3)" using eq by simp
    have a10: "list_all2 announces (drop 7 migration_order) (drop 3 (noncritical_steps env))"
      using list_all2_dropI[OF noncritical_announce, of 3 env] by simp
    have "started s3 = started ?t @ drop 7 migration_order"
      using a10 later by (rule run_steps_started)
    then have "started s3 = started s @ take 4 migration_order
        @ take 3 (drop 4 migration_order) @ drop 7 migration_order"
      using st s1 s0 by simp
    also have "take 4 migration_order @ take 3 (drop 4 migration_order)
        @ drop 7 migration_order = migration_order"
      by (simp add: migration_order_def)
    finally show "started s3 = started s @ migration_order" .
  }
  {
    fix before failing after err s2 s3
    assume h: "noncritical_steps env = before @ failing # after
          \<and> run_steps before s1 = (Inr (), s2) \<and> failing s2 = (Inl err, s3)"
    show "failing \<noteq> ensureSupabaseBucketsForSchools env"
      using h ensureSupabaseBucketsForSchools_returns[of env s2] by auto
    have "run_steps (noncritical_steps env) s1 = (Inl err, s3)"
      using h by (simp add: run_steps_stops)
    then show "runMigrations env s = (Inr (), s3)" using r by simp
    have "started s3 = started s1 @ take (Suc (length before)) (drop 4 migration_order)"
      using noncritical_announce[of env] h
      by (auto intro: run_steps_started_fail)
    then have "started s3 = started s @ take 4 migration_order
                  @ take (Suc (length before)) (drop 4 migration_order)"
      using s0 s1 by simp
    also have "take 4 migration_order @ take (Suc (length before)) (drop 4 migration_order)
               = take (4 + Suc (length before)) migration_order"
      by (simp only: take_add)
    finally show "started s3 = started s @ take (4 + Suc (length before)) migration_order" .
  }
qed

theorem noncritical_failures_are_contained_witness:
  "ensureMigrationTable storage_and_rooms_fail seeded_db = (Inr (), seeded_db)
   \<and> run_steps (critical_steps storage_and_rooms_fail) seeded_db
     = (Inr (), seeded_db\<lparr>started := take 4 migration_order\<rparr>)
   \<and> import_fault storage_and_rooms_fail = Some ''Cannot find module''
   \<and> run_steps [seedHardcodedAdminUser storage_and_rooms_fail,
                 assignUsersToSchools storage_and_rooms_fail]
        (seeded_db\<lparr>started := take 4 migration_order\<rparr>)
     = (Inr (), seeded_db\<lparr>started := take 6 migration_order, users := [admin_user],
                          user_schools := [admin_link]\<rparr>)
   \<and> ensureSupabaseBucketsForSchools storage_and_rooms_fail
        (seeded_db\<lparr>started := take 6 migration_order, users := [admin_user],
                   user_schools := [admin_link]\<rparr>)
     = (Inr (), seeded_db\<lparr>started := take 7 migration_order, users := [admin_user],
                          user_schools := [admin_link]\<rparr>)
   \<and> recalculateBudgetSpentAmounts storage_and_rooms_fail
        (seeded_db\<lparr>started := take 7 migration_order, users := [admin_user],
                   user_schools := [admin_link]\<rparr>)
     = (Inr (), seeded_db\<lparr>started := take 8 migration_order, users := [admin_user],
                          user_schools := [admin_link],
                          migration_status := migration_status seeded_db
                            @ [''recalculate_budget_spent_amounts'']\<rparr>)
   \<and> createRoomsAndTerrainTables storage_and_rooms_fail
        (seeded_db\<lparr>started := take 8 migration_order, users := [admin_user],
                   user_schools := [admin_link],
                   migration_status := migration_status seeded_db
                     @ [''recalculate_budget_spent_amounts'']\<rparr>)
     = (Inl (Error ''connection terminated''),
        seeded_db\<lparr>started := take 9 migration_order, users := [admin_user],
                   user_schools := [admin_link],
                   migration_status := migration_status seeded_db
                     @ [''recalculate_budget_spent_amounts'']\<rparr>)
   \<and> runMigrations storage_and_rooms_fail seeded_db
     = (Inr (), seeded_db\<lparr>started := take 9 migration_order, users := [admin_user],
                          user_schools := [admin_link],
                          migration_status := migration_status seeded_db
                            @ [''recalculate_budget_spent_amounts'']\<rparr>)
   \<and> createRoomsAndTerrainTables storage_and_rooms_fail
       \<noteq> ensureSupabaseBucketsForSchools storage_and_rooms_fail"
proof -
  let ?E = "storage_and_rooms_fail"
  let ?s1 = "seeded_db\<lparr>started := take 4 migration_order\<rparr>"
  let ?s2 = "seeded_db\<lparr>started := take 6 migration_order, users := [admin_user],
                       user_schools := [admin_link]\<rparr>"
  let ?s3 = "seeded_db\<lparr>started := take 7 migration_order, users := [admin_user],
                       user_schools := [admin_link]\<rparr>"
  let ?s4 = "seeded_db\<lparr>started := take 8 migration_order, users := [admin_user],
                       user_schools := [admin_link],
                       migration_status := migration_status seeded_db
                         @ [''recalculate_budget_spent_amounts'']\<rparr>"
  let ?s5 = "seeded_db\<lparr>started := take 9 migration_order, users := [admin_user],
                       user_schools := [admin_link],
                       migration_status := migration_status seeded_db
                         @ [''recalculate_budget_spent_amounts'']\<rparr>"
  have f: "db_fault ?E q
      = (if q = CreateRoomsTable then Some ''connection terminated'' else None)" for q
    by (simp add: storage_and_rooms_fail_def env_failing_def)
  have e: "ensureMigrationTable ?E seeded_db = (Inr (), seeded_db)"
    using ensure_on_seeded[of ?E "[]"] by (simp add: f)
  have c: "run_steps (critical_steps ?E) seeded_db = (Inr (), ?s1)"
    using critical_on_seeded[of ?E "[]"] by (simp add: f)
  have i: "import_fault ?E = Some ''Cannot find module''"
    by (simp add: storage_and_rooms_fail_def)
  have two: "run_steps [seedHardcodedAdminUser ?E, assignUsersToSchools ?E] ?s1 = (Inr (), ?s2)"
    by (simp add: seedHardcodedAdminUser_def assignUsersToSchools_def insert_admin_user_def
          io_eval f seeded_db_def fresh_db_def migration_order_def insert_by_key_def
          admin_user_def admin_link_def HARDCODED_USER_ID_def orphaned_def new_links_for_def
          has_link_def)
  have b: "ensureSupabaseBucketsForSchools ?E ?s2 = (Inr (), ?s3)"
    by (simp add: ensureSupabaseBucketsForSchools_def import_storage_def io_eval i
          seeded_db_def fresh_db_def migration_order_def)
  have r: "recalculateBudgetSpentAmounts ?E ?s3 = (Inr (), ?s4)"
    by (simp add: recalculateBudgetSpentAmounts_def recalculate_spent_def update_spent_def
          io_eval f seeded_db_def fresh_db_def migration_order_def)
  have four: "run_steps [seedHardcodedAdminUser ?E, assignUsersToSchools ?E,
                 ensureSupabaseBucketsForSchools ?E, recalculateBudgetSpentAmounts ?E] ?s1
      = (Inr (), ?s4)"
    using two b r by (auto simp: io_then_apply io_return_def split: prod.splits sum.splits)
  have x: "createRoomsAndTerrainTables ?E ?s4 = (Inl (Error ''connection terminated''), ?s5)"
    by (simp add: createRoomsAndTerrainTables_def io_eval f seeded_db_def fresh_db_def
          migration_order_def)
  have n: "noncritical_steps ?E
      = [seedHardcodedAdminUser ?E, assignUsersToSchools ?E, ensureSupabaseBucketsForSchools ?E,
         recalculateBudgetSpentAmounts ?E]
        @ createRoomsAndTerrainTables ?E # drop 5 (noncritical_steps ?E)"
    by (simp add: noncritical_steps_def)
  from noncritical_failures_are_contained [OF e c]
  have "\<forall>before failing after err s2 s3.
          noncritical_steps ?E = before @ failing # after
          \<and> run_steps before ?s1 = (Inr (), s2) \<and> failing s2 = (Inl err, s3)
          \<longrightarrow> failing \<noteq> ensureSupabaseBucketsForSchools ?E
              \<and> runMigrations ?E seeded_db = (Inr (), s3)
              \<and> started s3 = started seeded_db
                    @ take (4 + Suc (length before)) migration_order"
    by blast
  from this[rule_format, OF conjI[OF n conjI[OF four x]]]
  have "createRoomsAndTerrainTables ?E \<noteq> ensureSupabaseBucketsForSchools ?E"
    and "runMigrations ?E seeded_db = (Inr (), ?s5)"
    by blast+
  then show ?thesis using e c i two b r x by blast
qed

subsection \<open>A failing insert into the tracking table\<close>

text \<open>
  C4, as stated, fails for \<^verbatim>\<open>createBaseSchema\<close>: when the \<^verbatim>\<open>schools\<close> table exists,
  the call of \<^verbatim>\<open>markMigrationComplete\<close> throws, the empty \<^verbatim>\<open>catch\<close> around it
  swallows the error, and the migration returns normally.
\<close>

theorem createBaseSchema_swallows_mark_failure:
  "markMigrationComplete (env_failing [InsertMigration ''create_base_schema''])
       ''create_base_schema'' (fresh_db\<lparr>catalog := [Table ''schools''], started := [CreateBaseSchema]\<rparr>)
     = (Inl (Error ''connection terminated''),
        fresh_db\<lparr>catalog := [Table ''schools''], started := [CreateBaseSchema]\<rparr>)
   \<and> createBaseSchema (env_failing [InsertMigration ''create_base_schema''])
       (fresh_db\<lparr>catalog := [Table ''schools'']\<rparr>)
     = (Inr (), fresh_db\<lparr>catalog := [Table ''schools''], started := [CreateBaseSchema]\<rparr>)"
  by (simp add: createBaseSchema_def io_eval fresh_db_def)

lemma mark_fails:
  "db_fault env (InsertMigration name) = Some m \<Longrightarrow>
   markMigrationComplete env name s = (Inl (Error m), s)"
  by (simp add: markMigrationComplete_def execute_def)

lemma then_mark_throws:
  assumes "db_fault env (InsertMigration name) = Some m"
  shows "\<exists>e s'. io_then work (markMigrationComplete env name) s = (Inl e, s')"
  using assms
  by (cases "work s") (auto simp: io_then_apply mark_fails split: sum.splits)

text \<open>
  C4, amended. A failing insert makes \<^verbatim>\<open>markMigrationComplete\<close> throw that error.
  Every migration gated by \<^verbatim>\<open>hasMigrationRun\<close> that is not skipped then throws, and
  throws that very error when its work went through; \<^verbatim>\<open>seedSchoolsAndBoards\<close> throws
  on both of its paths; and \<^verbatim>\<open>createBaseSchema\<close> throws when the \<^verbatim>\<open>schools\<close>
  table does not exist yet. The one path left out is \<^verbatim>\<open>createBaseSchema\<close> on an
  existing schema.
\<close>

theorem mark_failure_propagates:
  "(db_fault env (InsertMigration name) = Some m \<longrightarrow>
       markMigrationComplete env name s = (Inl (Error m), s)
     \<and> (\<not> hasMigrationRun env name s \<longrightarrow>
          (\<exists>e s'. tracked env st name work s = (Inl e, s'))
          \<and> (\<forall>s1. work (s\<lparr>started := started s @ [st]\<rparr>) = (Inr (), s1)
                \<longrightarrow> tracked env st name work s = (Inl (Error m), s1))))
   \<and> (db_fault env (InsertMigration ''seed_schools_and_boards'') = Some m
        \<longrightarrow> (\<exists>e s'. seedSchoolsAndBoards env s = (Inl e, s')))
   \<and> (db_fault env (InsertMigration ''create_base_schema'') = Some m
        \<and> Table ''schools'' \<notin> set (catalog s)
        \<longrightarrow> (\<exists>e s'. createBaseSchema env s = (Inl e, s')))"
proof (intro conjI impI)
  assume f: "db_fault env (InsertMigration name) = Some m"
  then show "markMigrationComplete env name s = (Inl (Error m), s)"
    by (rule mark_fails)
  assume "\<not> hasMigrationRun env name s"
  then have t: "tracked env st name work s
      = io_then work (markMigrationComplete env name) (s\<lparr>started := started s @ [st]\<rparr>)"
    by (auto simp: tracked_apply hasMigrationRun_def split: option.splits)
  show "\<exists>e s'. tracked env st name work s = (Inl e, s')"
    unfolding t using f by (rule then_mark_throws)
  show "\<forall>s1. work (s\<lparr>started := started s @ [st]\<rparr>) = (Inr (), s1)
          \<longrightarrow> tracked env st name work s = (Inl (Error m), s1)"
    unfolding t using f by (simp add: io_then_apply mark_fails)
next
  assume f: "db_fault env (InsertMigration ''seed_schools_and_boards'') = Some m"
  show "\<exists>e s'. seedSchoolsAndBoards env s = (Inl e, s')"
    using f
    by (simp add: seedSchoolsAndBoards_def io_then_apply io_bind_def log_start_def query_def
          execute_def mark_fails split: option.splits)
next
  assume n: "db_fault env (InsertMigration ''create_base_schema'') = Some m
             \<and> Table ''schools'' \<notin> set (catalog s)"
  then show "\<exists>e s'. createBaseSchema env s = (Inl e, s')"
    by (simp add: createBaseSchema_def io_then_apply io_bind_def log_start_def query_def
          execute_checked_def io_throw_def mark_fails split: option.splits sum.splits)
qed

theorem mark_failure_propagates_witness:
  "db_fault tracking_insert_fails (InsertMigration ''populate_investment_years'')
      = Some ''connection terminated''
   \<and> db_fault tracking_insert_fails (InsertMigration ''seed_schools_and_boards'')
      = Some ''connection terminated''
   \<and> db_fault tracking_insert_fails (InsertMigration ''create_base_schema'')
      = Some ''connection terminated''
   \<and> \<not> hasMigrationRun tracking_insert_fails ''populate_investment_years'' legacy_db
   \<and> Table ''schools'' \<notin> set (catalog legacy_db)
   \<and> populate_years tracking_insert_fails (legacy_db\<lparr>started := [PopulateInvestmentYears]\<rparr>)
      = (Inr (), legacy_db\<lparr>started := [PopulateInvestmentYears]\<rparr>)
   \<and> populateInvestmentYears tracking_insert_fails legacy_db
      = (Inl (Error ''connection terminated''), legacy_db\<lparr>started := [PopulateInvestmentYears]\<rparr>)
   \<and> fst (seedSchoolsAndBoards tracking_insert_fails legacy_db)
      = Inl (Error ''connection terminated'')
   \<and> fst (createBaseSchema tracking_insert_fails legacy_db)
      = Inl (Error ''connection terminated'')"
proof -
  have p: "populate_years tracking_insert_fails (legacy_db\<lparr>started := [PopulateInvestmentYears]\<rparr>)
      = (Inr (), legacy_db\<lparr>started := [PopulateInvestmentYears]\<rparr>)"
    by (simp add: populate_years_def investments_without_years_def List.map_filter_def io_eval
          legacy_db_def fresh_db_def tracking_insert_fails_def)
  have s: "fst (seedSchoolsAndBoards tracking_insert_fails legacy_db)
      = Inl (Error ''connection terminated'')"
    by (simp add: seedSchoolsAndBoards_def io_eval legacy_db_def fresh_db_def
          tracking_insert_fails_def)
  have c: "fst (createBaseSchema tracking_insert_fails legacy_db)
      = Inl (Error ''connection terminated'')"
    by (simp add: createBaseSchema_def io_eval run_schema_sql_def legacy_db_def fresh_db_def
          tracking_insert_fails_def env_failing_def)
  show ?thesis
    using p s c
      mark_failure_propagates [of tracking_insert_fails "''populate_investment_years''"
        "''connection terminated''" legacy_db PopulateInvestmentYears
        "populate_years tracking_insert_fails"]
    by (simp add: populateInvestmentYears_def hasMigrationRun_def legacy_db_def fresh_db_def
          tracking_insert_fails_def)
qed

subsection \<open>Seeding boards and schools\<close>

lemma insert_by_key_keys:
  "key ` set (insert_by_key key rows tbl) = key ` set tbl \<union> key ` set rows"
  unfolding insert_by_key_def
  by (induction rows arbitrary: tbl) auto

lemma insert_seed_schools: "insert_by_key school_id seed_schools [] = seed_schools"
  by (simp add: insert_by_key_def seed_schools_def)

lemma insert_seed_boards: "insert_by_key board_id seed_boards [] = seed_boards"
  by (simp add: insert_by_key_def seed_boards_def)

text \<open>
  C9. On a database \<open>s\<close> with at least one school, \<^verbatim>\<open>seedSchoolsAndBoards\<close> does
  nothing but print its opening line and mark the migration: boards and schools stay
  as they are. On a database \<open>t\<close> without schools, when its statements go through,
  the schools become the nine fixed rows, and each of the two fixed boards is inserted
  unless a board with its id is there already (all of them on an empty boards table).
\<close>

theorem seedSchoolsAndBoards_only_when_empty:
  assumes "schools s \<noteq> []" and "schools t = []"
    and "db_fault env CountSchools = None"
    and "db_fault env InsertBoards = None"
    and "db_fault env InsertSchools = None"
  shows "seedSchoolsAndBoards env s
           = markMigrationComplete env ''seed_schools_and_boards''
               (s\<lparr>started := started s @ [SeedSchoolsAndBoards]\<rparr>)
     \<and> boards (snd (seedSchoolsAndBoards env s)) = boards s
     \<and> schools (snd (seedSchoolsAndBoards env s)) = schools s
     \<and> schools (snd (seedSchoolsAndBoards env t)) = seed_schools
     \<and> boards (snd (seedSchoolsAndBoards env t)) = insert_by_key board_id seed_boards (boards t)
     \<and> (\<forall>b \<in> set seed_boards. board_id b \<in> board_id ` set (boards (snd (seedSchoolsAndBoards env t))))
     \<and> (boards t = [] \<longrightarrow> boards (snd (seedSchoolsAndBoards env t)) = seed_boards)
     \<and> length seed_boards = 2 \<and> length seed_schools = 9"
proof -
  have s1: "seedSchoolsAndBoards env s
           = markMigrationComplete env ''seed_schools_and_boards''
               (s\<lparr>started := started s @ [SeedSchoolsAndBoards]\<rparr>)"
    using assms(1,3)
    by (simp add: seedSchoolsAndBoards_def io_then_apply io_bind_def log_start_def query_def)
  have s2: "boards (snd (seedSchoolsAndBoards env s)) = boards s
     \<and> schools (snd (seedSchoolsAndBoards env s)) = schools s"
    unfolding s1 by (simp add: markMigrationComplete_def execute_def split: option.splits)
  have t1: "schools (snd (seedSchoolsAndBoards env t)) = seed_schools
     \<and> boards (snd (seedSchoolsAndBoards env t)) = insert_by_key board_id seed_boards (boards t)"
    using assms(2-5)
    by (simp add: seedSchoolsAndBoards_def io_then_apply io_bind_def log_start_def query_def
          execute_def markMigrationComplete_def insert_seed_schools split: option.splits)
  have t2: "\<forall>b \<in> set seed_boards.
       board_id b \<in> board_id ` set (boards (snd (seedSchoolsAndBoards env t)))"
    using t1 by (simp add: insert_by_key_keys)
  show ?thesis
    using s1 s2 t1 t2 by (simp add: insert_seed_boards) (simp add: seed_boards_def seed_schools_def)
qed

theorem seedSchoolsAndBoards_only_when_empty_witness:
  "schools seeded_db \<noteq> [] \<and> schools fresh_db = []
   \<and> db_fault no_faults CountSchools = None \<and> db_fault no_faults InsertBoards = None
   \<and> db_fault no_faults InsertSchools = None
   \<and> seedSchoolsAndBoards no_faults seeded_db
        = (Inr (), seeded_db\<lparr>started := [SeedSchoolsAndBoards]\<rparr>)
   \<and> schools (snd (seedSchoolsAndBoards no_faults fresh_db)) = seed_schools
   \<and> boards (snd (seedSchoolsAndBoards no_faults fresh_db)) = seed_boards"
proof -
  have a: "schools seeded_db \<noteq> []" by (simp add: seeded_db_def)
  have b: "schools fresh_db = []" by (simp add: fresh_db_def)
  have c: "db_fault no_faults CountSchools = None" "db_fault no_faults InsertBoards = None"
    "db_fault no_faults InsertSchools = None"
    by (simp_all add: no_faults_def)
  have d: "boards fresh_db = []" by (simp add: fresh_db_def)
  have e: "seedSchoolsAndBoards no_faults seeded_db
        = (Inr (), seeded_db\<lparr>started := [SeedSchoolsAndBoards]\<rparr>)"
    by (simp add: seedSchoolsAndBoards_def io_eval seeded_db_def fresh_db_def no_faults_def)
  show ?thesis
    using a b c d e seedSchoolsAndBoards_only_when_empty [OF a b c]
    by (simp add: insert_seed_boards)
qed

subsection \<open>Recalculating the spent amounts\<close>

lemma coalesce_sum: "coalesce (sql_sum xs) 0 = sum_list xs"
  by (simp add: coalesce_def sql_sum_def)

lemma history_costs_sum: "sum_list (history_costs s bc) = spent_from_history s bc"
proof -
  have "sum_list (List.map_filter
          (\<lambda>mh. case mh_category mh of None \<Rightarrow> None
                 | Some cat \<Rightarrow> if lower cat = lower (bc_name bc) \<and> mh_school mh = bc_school bc
                               then cost mh else None) hs)
      = sum_list (map (\<lambda>mh. case cost mh of None \<Rightarrow> 0 | Some c \<Rightarrow> c)
          (filter (\<lambda>mh. same_category bc mh \<and> mh_school mh = bc_school bc \<and> cost mh \<noteq> None) hs))"
    for hs
    by (induction hs) (auto simp: List.map_filter_simps same_category_def split: option.splits)
  then show ?thesis by (simp add: history_costs_def spent_from_history_def)
qed

lemma same_category_spent [simp]: "same_category (bc\<lparr>spent := x\<rparr>) = same_category bc"
  by (rule ext) (simp add: same_category_def cong: option.case_cong)

lemma spent_from_history_db [simp]:
  "spent_from_history (s\<lparr>budget_categories := x\<rparr>) bc = spent_from_history s bc"
  "spent_from_history (s\<lparr>started := y\<rparr>) bc = spent_from_history s bc"
  "spent_from_history (s\<lparr>migration_status := z\<rparr>) bc = spent_from_history s bc"
  by (simp_all add: spent_from_history_def)

lemma spent_from_history_spent [simp]:
  "spent_from_history s (bc\<lparr>spent := x\<rparr>) = spent_from_history s bc"
  by (simp add: spent_from_history_def)

lemma history_costs_spent [simp]:
  "history_costs (s\<lparr>budget_categories := x\<rparr>) (bc\<lparr>spent := y\<rparr>) = history_costs s bc"
  by (simp add: history_costs_def cong: option.case_cong)

lemma update_spent_after_reset:
  "update_spent (s\<lparr>budget_categories := map (\<lambda>bc. bc\<lparr>spent := 0\<rparr>) (budget_categories s)\<rparr>)
     = (if \<forall>bc \<in> set (budget_categories s). int4_ok (spent_from_history s bc)
        then Inr (s\<lparr>budget_categories :=
                      map (\<lambda>bc. bc\<lparr>spent := spent_from_history s bc\<rparr>) (budget_categories s)\<rparr>)
        else Inl ''integer out of range'')"
  by (simp add: update_spent_def unless_refused_def coalesce_sum history_costs_sum comp_def
        list_all_iff)

lemma recalculate_spent_result:
  assumes "db_fault env ResetSpent = None" and "db_fault env RecalculateSpent = None"
    and "\<forall>bc \<in> set (budget_categories s). int4_ok (spent_from_history s bc)"
  shows "recalculate_spent env s
    = (Inr (), s\<lparr>budget_categories :=
                   map (\<lambda>bc. bc\<lparr>spent := spent_from_history s bc\<rparr>) (budget_categories s)\<rparr>)"
  using assms
  by (simp add: recalculate_spent_def io_then_apply execute_def execute_checked_def
        update_spent_after_reset)

lemma recalculate_spent_refused:
  assumes "db_fault env ResetSpent = None" and "db_fault env RecalculateSpent = None"
    and "\<not> (\<forall>bc \<in> set (budget_categories s). int4_ok (spent_from_history s bc))"
  shows "recalculate_spent env s
    = (Inl (Error ''integer out of range''),
       s\<lparr>budget_categories := map (\<lambda>bc. bc\<lparr>spent := 0\<rparr>) (budget_categories s)\<rparr>)"
  using assms
  by (simp add: recalculate_spent_def io_then_apply execute_def execute_checked_def
        update_spent_after_reset)

text \<open>
  C7, as stated, fails where a sum does not fit the column. With one budget category
  and two matching history rows of cost 2000000000 each, the sum the claim speaks of
  is 4000000000; \<^verbatim>\<open>recalculateBudgetSpentAmounts\<close> is not skipped, its first
  \<^verbatim>\<open>UPDATE\<close> sets \<^verbatim>\<open>spent\<close> to 0, its second is refused with
  \<^verbatim>\<open>integer out of range\<close>, and the migration throws with \<^verbatim>\<open>spent\<close> left at 0.
\<close>

theorem recalculated_spent_counterexample:
  "\<not> hasMigrationRun no_faults ''recalculate_budget_spent_amounts'' overflow_db
   \<and> map (spent_from_history overflow_db) (budget_categories overflow_db) = [4000000000]
   \<and> recalculateBudgetSpentAmounts no_faults overflow_db
     = (Inl (Error ''integer out of range''),
        overflow_db\<lparr>started := [RecalculateBudgetSpentAmounts],
                     budget_categories :=
                       [\<lparr>bc_name = ''Dak'', bc_school = ''s1'', budget = 500, spent = 0\<rparr>]\<rparr>)
   \<and> map spent (budget_categories (snd (recalculateBudgetSpentAmounts no_faults overflow_db)))
     = [0]"
proof -
  have a: "\<not> hasMigrationRun no_faults ''recalculate_budget_spent_amounts'' overflow_db"
    by (simp add: hasMigrationRun_def no_faults_def overflow_db_def fresh_db_def)
  have b: "map (spent_from_history overflow_db) (budget_categories overflow_db) = [4000000000]"
    by (simp add: spent_from_history_def same_category_def overflow_db_def fresh_db_def
          lower_def lower_char_def)
  have c: "recalculateBudgetSpentAmounts no_faults overflow_db
     = (Inl (Error ''integer out of range''),
        overflow_db\<lparr>started := [RecalculateBudgetSpentAmounts],
                     budget_categories :=
                       [\<lparr>bc_name = ''Dak'', bc_school = ''s1'', budget = 500, spent = 0\<rparr>]\<rparr>)"
    by (simp add: recalculateBudgetSpentAmounts_def recalculate_spent_def update_spent_def
          history_costs_def List.map_filter_def coalesce_def sql_sum_def int4_ok_def
          io_eval no_faults_def overflow_db_def fresh_db_def lower_def lower_char_def)
  show ?thesis using a b c by simp
qed

text \<open>
  C7, amended. When \<^verbatim>\<open>recalculateBudgetSpentAmounts\<close> is not skipped by the tracking table,
  the environment fails neither of its two updates, and the sum for every budget
  category is a value of the \<^verbatim>\<open>INTEGER\<close> column \<^verbatim>\<open>spent\<close>, then the history is
  untouched and every budget category keeps its other columns and has as \<^verbatim>\<open>spent\<close>
  the sum of the costs of the history rows whose category is its name up to letter
  case and whose school is its school, rows without a cost left out; the sum is 0
  where there is no such row.
\<close>

theorem recalculated_spent:
  assumes "\<not> hasMigrationRun env ''recalculate_budget_spent_amounts'' s"
    and "db_fault env ResetSpent = None"
    and "db_fault env RecalculateSpent = None"
    and "\<forall>bc \<in> set (budget_categories s). int4_ok (spent_from_history s bc)"
  shows "budget_categories (snd (recalculateBudgetSpentAmounts env s))
           = map (\<lambda>bc. bc\<lparr>spent := spent_from_history s bc\<rparr>) (budget_categories s)
     \<and> maintenance_history (snd (recalculateBudgetSpentAmounts env s)) = maintenance_history s
     \<and> (\<forall>bc \<in> set (budget_categories (snd (recalculateBudgetSpentAmounts env s))).
           spent bc = spent_from_history (snd (recalculateBudgetSpentAmounts env s)) bc
           \<and> ((\<forall>mh \<in> set (maintenance_history s).
                  \<not> (same_category bc mh \<and> mh_school mh = bc_school bc \<and> cost mh \<noteq> None))
                \<longrightarrow> spent bc = 0))"
proof -
  let ?s' = "snd (recalculateBudgetSpentAmounts env s)"
  have eq: "history_costs (t\<lparr>budget_categories := x\<rparr>) = history_costs t" for t x
    by (rule ext) (simp add: history_costs_def)
  have a: "budget_categories ?s'
           = map (\<lambda>bc. bc\<lparr>spent := spent_from_history s bc\<rparr>) (budget_categories s)
          \<and> maintenance_history ?s' = maintenance_history s"
proof -
    have r: "recalculate_spent env (s\<lparr>started := x\<rparr>)
        = (Inr (), s\<lparr>started := x, budget_categories :=
             map (\<lambda>bc. bc\<lparr>spent := spent_from_history s bc\<rparr>) (budget_categories s)\<rparr>)" for x
      using recalculate_spent_result[of env "s\<lparr>started := x\<rparr>"] assms(2-4) by simp
    show ?thesis
      using assms(1)
      by (auto simp: recalculateBudgetSpentAmounts_def tracked_apply hasMigrationRun_def
            r io_then_apply execute_def markMigrationComplete_def split: option.splits)
  qed
  have sp: "spent_from_history ?s' bc = spent_from_history s bc" for bc
    using a by (simp add: spent_from_history_def)
  have z: "spent_from_history s bc = 0"
    if "\<forall>mh \<in> set (maintenance_history s).
          \<not> (same_category bc mh \<and> mh_school mh = bc_school bc \<and> cost mh \<noteq> None)" for bc
  proof -
    have "filter (\<lambda>mh. same_category bc mh \<and> mh_school mh = bc_school bc \<and> cost mh \<noteq> None)
            (maintenance_history s) = []"
      using that by (auto simp: filter_empty_conv)
    then show ?thesis by (simp add: spent_from_history_def)
  qed
  have b: "\<forall>bc \<in> set (budget_categories ?s').
           spent bc = spent_from_history ?s' bc
           \<and> ((\<forall>mh \<in> set (maintenance_history s).
                  \<not> (same_category bc mh \<and> mh_school mh = bc_school bc \<and> cost mh \<noteq> None))
                \<longrightarrow> spent bc = 0)"
  proof
    fix bc assume "bc \<in> set (budget_categories ?s')"
    then obtain bc0 where bc0: "bc0 \<in> set (budget_categories s)"
        "bc = bc0\<lparr>spent := spent_from_history s bc0\<rparr>"
      using a by auto
    have n: "bc_name bc = bc_name bc0" "bc_school bc = bc_school bc0" using bc0 by simp_all
    show "spent bc = spent_from_history ?s' bc
           \<and> ((\<forall>mh \<in> set (maintenance_history s).
                  \<not> (same_category bc mh \<and> mh_school mh = bc_school bc \<and> cost mh \<noteq> None))
                \<longrightarrow> spent bc = 0)"
      using sp[of bc] z[of bc0] bc0(2) by (simp add: n)
  qed
  from a b show ?thesis by blast
qed


theorem recalculated_spent_witness:
  "\<not> hasMigrationRun no_faults ''recalculate_budget_spent_amounts'' budget_db
   \<and> db_fault no_faults ResetSpent = None \<and> db_fault no_faults RecalculateSpent = None
   \<and> list_all (\<lambda>bc. int4_ok (spent_from_history budget_db bc)) (budget_categories budget_db)
   \<and> map spent (budget_categories (snd (recalculateBudgetSpentAmounts no_faults budget_db)))
       = [150, 0]"
proof -
  have a: "\<not> hasMigrationRun no_faults ''recalculate_budget_spent_amounts'' budget_db"
    by (simp add: hasMigrationRun_def no_faults_def budget_db_def fresh_db_def)
  have b: "db_fault no_faults ResetSpent = None" "db_fault no_faults RecalculateSpent = None"
    by (simp_all add: no_faults_def)
  have c: "map (\<lambda>bc. spent_from_history budget_db bc) (budget_categories budget_db) = [150, 0]"
    by (simp add: spent_from_history_def same_category_def budget_db_def fresh_db_def
          lower_def lower_char_def)
  have "list_all int4_ok
          (map (\<lambda>bc. spent_from_history budget_db bc) (budget_categories budget_db))"
    unfolding c by (simp add: int4_ok_def)
  then have r: "list_all (\<lambda>bc. int4_ok (spent_from_history budget_db bc))
             (budget_categories budget_db)"
    by (simp add: list_all_iff)
  then have r': "\<forall>bc \<in> set (budget_categories budget_db).
                   int4_ok (spent_from_history budget_db bc)"
    by (simp add: list_all_iff)
  have d: "budget_categories (snd (recalculateBudgetSpentAmounts no_faults budget_db))
           = map (\<lambda>bc. bc\<lparr>spent := spent_from_history budget_db bc\<rparr>)
               (budget_categories budget_db)"
    using recalculated_spent [OF a b r'] by (rule conjunct1)
  have "map spent (budget_categories (snd (recalculateBudgetSpentAmounts no_faults budget_db)))
        = map (\<lambda>bc. spent_from_history budget_db bc) (budget_categories budget_db)"
    unfolding d by (simp add: comp_def)
  then have "map spent (budget_categories (snd (recalculateBudgetSpentAmounts no_faults budget_db)))
        = [150, 0]"
    using c by simp
  then show ?thesis using a b r by blast
qed

subsection \<open>Assigning users to schools\<close>

lemma seedSchoolsAndBoards_leaves_schools:
  assumes "seedSchoolsAndBoards env t = (Inr u, t')"
  shows "schools t' \<noteq> []"
proof (cases "schools t = []")
  case True
  have "insert_by_key school_id seed_schools [] \<noteq> []"
    unfolding insert_seed_schools by (simp add: seed_schools_def)
  with assms True show ?thesis
    by (auto simp: seedSchoolsAndBoards_def io_then_apply io_bind_def log_start_def query_def
          execute_def markMigrationComplete_def split: option.splits)
next
  case False
  with assms show ?thesis
    by (auto simp: seedSchoolsAndBoards_def io_then_apply io_bind_def log_start_def query_def
          execute_def markMigrationComplete_def split: option.splits)
qed

lemma critical_steps_leave_schools:
  assumes "run_steps (critical_steps env) s0 = (Inr (), s1)"
  shows "schools s1 \<noteq> []"
proof -
  have c: "critical_steps env
      = [createBaseSchema env, ensureSessionTable env, addDrawingCategoryEnumValues env]
        @ [seedSchoolsAndBoards env]"
    by (simp add: critical_steps_def)
  obtain r t where p: "run_steps [createBaseSchema env, ensureSessionTable env,
        addDrawingCategoryEnumValues env] s0 = (r, t)"
    by (cases "run_steps [createBaseSchema env, ensureSessionTable env,
        addDrawingCategoryEnumValues env] s0")
  from assms have "seedSchoolsAndBoards env t = (Inr (), s1)"
    unfolding c run_steps_append p
    by (cases r; cases "seedSchoolsAndBoards env t")
       (auto simp: io_then_apply io_return_def split: sum.splits)
  then show ?thesis by (rule seedSchoolsAndBoards_leaves_schools)
qed

lemma seedHardcodedAdminUser_schools:
  "schools (snd (seedHardcodedAdminUser env s)) = schools s"
  by (auto simp: seedHardcodedAdminUser_def io_then_apply io_bind_def log_start_def query_def
        execute_checked_def insert_admin_user_def io_return_def
        split: option.splits sum.splits)

lemma has_link_started [simp]: "has_link (s\<lparr>started := x\<rparr>) = has_link s"
  by (intro ext) (simp add: has_link_def)

lemma new_links_for_started [simp]: "new_links_for (s\<lparr>started := x\<rparr>) = new_links_for s"
  by (intro ext) (simp add: new_links_for_def)

lemma orphaned_started [simp]: "orphaned (s\<lparr>started := x\<rparr>) = orphaned s"
  by (intro ext) (simp add: orphaned_def)

lemma assignUsersToSchools_inserts:
  assumes "db_fault env CountUsers = None" "db_fault env CountOrphanedUsers = None"
    "db_fault env InsertUserSchools = None" "u \<in> set (users s)" "orphaned s u"
  shows "assignUsersToSchools env s
    = (Inr (), s\<lparr>started := started s @ [AssignUsersToSchools],
                   user_schools := user_schools s @ concat (map (new_links_for s) (users s))\<rparr>)"
proof -
  have "users s \<noteq> []" using assms(4) by auto
  moreover have "filter (orphaned s) (users s) \<noteq> []"
    using assms(4,5) by (auto simp: filter_empty_conv)
  ultimately show ?thesis
    using assms(1-3)
    by (simp add: assignUsersToSchools_def io_then_apply io_bind_def log_start_def query_def
          execute_def)
qed

lemma new_links_for_user: "l \<in> set (new_links_for s u) \<Longrightarrow> us_user l = user_id u"
  by (auto simp: new_links_for_def)

lemma filter_new_links:
  assumes "distinct (map user_id us)" "u \<in> set us" "\<And>l. P l \<Longrightarrow> us_user l = user_id u"
  shows "filter P (concat (map (new_links_for s) us)) = filter P (new_links_for s u)"
  using assms(1,2)
proof (induction us)
  case Nil
  then show ?case by simp
next
  case (Cons a us)
  have none: "filter P (new_links_for s b) = []" if "user_id b \<noteq> user_id u" for b
    using that assms(3) by (auto simp: filter_empty_conv dest: new_links_for_user)
  show ?case
  proof (cases "a = u")
    case True
    have "user_id u \<notin> set (map user_id us)" using Cons.prems(1) True by simp
    then have "\<forall>b \<in> set us. user_id b \<noteq> user_id u" by (auto simp: image_iff)
    then have "filter P (concat (map (new_links_for s) us)) = []"
      by (induction us) (simp_all add: none)
    then show ?thesis using True by simp
  next
    case False
    then have "u \<in> set us" using Cons.prems(2) by simp
    moreover have "user_id a \<noteq> user_id u" using Cons.prems(1) \<open>u \<in> set us\<close> by auto
    ultimately show ?thesis using Cons by (simp add: none)
  qed
qed

lemma orphan_links:
  assumes "orphaned s u"
  shows "new_links_for s u
    = map (\<lambda>(n, sc). \<lparr>us_user = user_id u, us_school = school_id sc, is_default = (n = 1)\<rparr>)
        (enumerate 1 (sort_key school_name (schools s)))"
proof -
  have "filter (\<lambda>sc. \<not> has_link s (user_id u) (school_id sc)) (schools s) = schools s"
    using assms by (auto simp: orphaned_def has_link_def)
  then show ?thesis by (simp add: new_links_for_def)
qed

lemma default_of_numbered:
  "filter (\<lambda>l. us_user l = uid \<and> is_default l)
     (map (\<lambda>(n, sc). \<lparr>us_user = uid, us_school = school_id sc, is_default = (n = 1)\<rparr>)
        (enumerate 1 (x # rest)))
   = [\<lparr>us_user = uid, us_school = school_id x, is_default = True\<rparr>]"
proof -
  have "\<forall>p \<in> set (enumerate 2 rest). fst p \<noteq> 1"
    by (auto simp: in_set_enumerate_eq)
  then have "filter (\<lambda>l. us_user l = uid \<and> is_default l)
     (map (\<lambda>(n, sc). \<lparr>us_user = uid, us_school = school_id sc, is_default = (n = 1)\<rparr>)
        (enumerate 2 rest)) = []"
    by (auto simp: filter_empty_conv)
  then show ?thesis by (simp add: numeral_2_eq_2)
qed

text \<open>
  C10. Take a database \<open>s\<close> in which \<^verbatim>\<open>runMigrations\<close> calls
  \<^verbatim>\<open>assignUsersToSchools\<close>, that is after the critical migrations and
  \<^verbatim>\<open>seedHardcodedAdminUser\<close> have returned normally, with user ids a primary key,
  and a user \<open>u\<close> without a \<^verbatim>\<open>user_schools\<close> row. When the three statements of
  \<^verbatim>\<open>assignUsersToSchools\<close> go through, \<open>u\<close> is linked to every school of the schools
  table, and exactly one row of \<open>u\<close> is marked as default: the one of a school whose
  name is least among the names of all schools.
\<close>

theorem assignUsersToSchools_links_orphans:
  assumes "run_steps (critical_steps env) s0 = (Inr (), s1)"
    and "seedHardcodedAdminUser env s1 = (Inr (), s)"
    and "db_fault env CountUsers = None"
    and "db_fault env CountOrphanedUsers = None"
    and "db_fault env InsertUserSchools = None"
    and "distinct (map user_id (users s))"
    and "u \<in> set (users s)" and "orphaned s u"
  shows "(\<forall>sc \<in> set (schools s).
            \<exists>l \<in> set (user_schools (snd (assignUsersToSchools env s))).
              us_user l = user_id u \<and> us_school l = school_id sc)
     \<and> (\<exists>sc \<in> set (schools s).
            (\<forall>sc' \<in> set (schools s). school_name sc \<le> school_name sc')
          \<and> filter (\<lambda>l. us_user l = user_id u \<and> is_default l)
               (user_schools (snd (assignUsersToSchools env s)))
             = [\<lparr>us_user = user_id u, us_school = school_id sc, is_default = True\<rparr>])"
proof -
  let ?s' = "snd (assignUsersToSchools env s)"
  let ?sorted = "sort_key school_name (schools s)"
  let ?mk = "\<lambda>(n, sc). \<lparr>us_user = user_id u, us_school = school_id sc, is_default = (n = 1)\<rparr>"
  have "schools s1 \<noteq> []" using assms(1) by (rule critical_steps_leave_schools)
  then have ne: "schools s \<noteq> []"
    using seedHardcodedAdminUser_schools[of env s1] assms(2) by simp
  have us: "user_schools ?s' = user_schools s @ concat (map (new_links_for s) (users s))"
    using assignUsersToSchools_inserts[OF assms(3-5,7,8)] by simp
  have old: "\<forall>l \<in> set (user_schools s). us_user l \<noteq> user_id u"
    using assms(8) by (auto simp: orphaned_def)
  have links: "new_links_for s u = map ?mk (enumerate 1 ?sorted)"
    using assms(8) by (rule orphan_links)
  have all: "\<forall>sc \<in> set (schools s). \<exists>l \<in> set (user_schools ?s').
              us_user l = user_id u \<and> us_school l = school_id sc"
  proof
    fix sc assume "sc \<in> set (schools s)"
    then have "sc \<in> set ?sorted" by simp
    then obtain i where i: "i < length ?sorted" "?sorted ! i = sc"
      by (metis in_set_conv_nth)
    then have "(i + 1, sc) \<in> set (enumerate 1 ?sorted)"
      by (auto simp: in_set_enumerate_eq)
    then have "?mk (i + 1, sc) \<in> ?mk ` set (enumerate 1 ?sorted)"
      by (rule imageI)
    then have "?mk (i + 1, sc) \<in> set (new_links_for s u)"
      unfolding links set_map .
    moreover have "new_links_for s u \<in> set (map (new_links_for s) (users s))"
      using assms(7) by simp
    ultimately have "?mk (i + 1, sc) \<in> set (user_schools ?s')"
      unfolding us by (auto simp del: set_map)
    then show "\<exists>l \<in> set (user_schools ?s'). us_user l = user_id u \<and> us_school l = school_id sc"
      by (intro bexI[of _ "?mk (i + 1, sc)"]) simp_all
  qed
  from ne obtain x rest where xr: "?sorted = x # rest"
    by (cases ?sorted) (auto simp: sort_key_def[symmetric] dest: arg_cong[of _ _ set])
  have "sorted (map school_name ?sorted)" by (rule sorted_sort_key)
  then have "\<forall>y \<in> set ?sorted. school_name x \<le> school_name y"
    unfolding xr by auto
  then have least: "\<forall>sc' \<in> set (schools s). school_name x \<le> school_name sc'" by simp
  have xin: "x \<in> set (schools s)"
    using arg_cong[OF xr, of set] by auto
  have "filter (\<lambda>l. us_user l = user_id u \<and> is_default l) (user_schools ?s')
      = filter (\<lambda>l. us_user l = user_id u \<and> is_default l)
          (concat (map (new_links_for s) (users s)))"
    unfolding us using old by (auto simp: filter_empty_conv)
  also have "\<dots> = filter (\<lambda>l. us_user l = user_id u \<and> is_default l) (new_links_for s u)"
    using assms(6,7) by (rule filter_new_links) simp
  also have "\<dots> = [\<lparr>us_user = user_id u, us_school = school_id x, is_default = True\<rparr>]"
    unfolding links xr by (rule default_of_numbered)
  finally show ?thesis using all least xin by blast
qed


theorem assignUsersToSchools_links_orphans_witness:
  "run_steps (critical_steps no_faults) two_schools_db
     = (Inr (), two_schools_db\<lparr>started := take 4 migration_order\<rparr>)
   \<and> seedHardcodedAdminUser no_faults (two_schools_db\<lparr>started := take 4 migration_order\<rparr>)
     = (Inr (), two_schools_db\<lparr>started := take 5 migration_order,
                               users := [teacher, admin_user]\<rparr>)
   \<and> db_fault no_faults CountUsers = None \<and> db_fault no_faults CountOrphanedUsers = None
   \<and> db_fault no_faults InsertUserSchools = None
   \<and> distinct (map user_id [teacher, admin_user])
   \<and> orphaned (two_schools_db\<lparr>started := take 5 migration_order,
                               users := [teacher, admin_user]\<rparr>) teacher
   \<and> filter (\<lambda>l. us_user l = ''u1'')
        (user_schools (snd (assignUsersToSchools no_faults
           (two_schools_db\<lparr>started := take 5 migration_order,
                            users := [teacher, admin_user]\<rparr>))))
      = [\<lparr>us_user = ''u1'', us_school = ''s-a'', is_default = True\<rparr>,
         \<lparr>us_user = ''u1'', us_school = ''s-z'', is_default = False\<rparr>]
   \<and> (\<exists>sc \<in> set (schools two_schools_db).
         (\<forall>sc' \<in> set (schools two_schools_db). school_name sc \<le> school_name sc')
         \<and> filter (\<lambda>l. us_user l = ''u1'' \<and> is_default l)
              (user_schools (snd (assignUsersToSchools no_faults
                 (two_schools_db\<lparr>started := take 5 migration_order,
                                  users := [teacher, admin_user]\<rparr>))))
            = [\<lparr>us_user = ''u1'', us_school = school_id sc, is_default = True\<rparr>])"
proof -
  let ?s = "two_schools_db\<lparr>started := take 5 migration_order, users := [teacher, admin_user]\<rparr>"
  have a: "run_steps (critical_steps no_faults) two_schools_db
     = (Inr (), two_schools_db\<lparr>started := take 4 migration_order\<rparr>)"
    by (simp add: critical_steps_def step_eval io_eval two_schools_db_def seeded_db_def
          fresh_db_def migration_order_def no_faults_def)
  have b: "seedHardcodedAdminUser no_faults (two_schools_db\<lparr>started := take 4 migration_order\<rparr>)
     = (Inr (), ?s)"
    by (simp add: seedHardcodedAdminUser_def insert_admin_user_def io_eval two_schools_db_def
          seeded_db_def fresh_db_def migration_order_def no_faults_def insert_by_key_def
          teacher_def admin_user_def HARDCODED_USER_ID_def)
  have c: "db_fault no_faults CountUsers = None" "db_fault no_faults CountOrphanedUsers = None"
    "db_fault no_faults InsertUserSchools = None"
    by (simp_all add: no_faults_def)
  have d: "distinct (map user_id (users ?s))"
    by (simp add: teacher_def admin_user_def HARDCODED_USER_ID_def)
  have e: "teacher \<in> set (users ?s)" by simp
  have f: "orphaned ?s teacher"
    by (simp add: orphaned_def two_schools_db_def seeded_db_def fresh_db_def)
  have g: "filter (\<lambda>l. us_user l = ''u1'') (user_schools (snd (assignUsersToSchools no_faults ?s)))
      = [\<lparr>us_user = ''u1'', us_school = ''s-a'', is_default = True\<rparr>,
         \<lparr>us_user = ''u1'', us_school = ''s-z'', is_default = False\<rparr>]"
    by (simp add: assignUsersToSchools_def io_eval two_schools_db_def seeded_db_def
          fresh_db_def no_faults_def orphaned_def new_links_for_def has_link_def teacher_def
          admin_user_def HARDCODED_USER_ID_def)
  have h: "schools ?s = schools two_schools_db" "user_id teacher = ''u1''"
    by (simp_all add: teacher_def)
  show ?thesis
    using a b c d f g assignUsersToSchools_links_orphans [OF a b c d e f]
    unfolding h by simp
qed

subsection \<open>Populating the investment years\<close>













subsection \<open>Running twice\<close>

lemma grows_refl: "reflp grows"
  by (simp add: reflp_def grows_def)

lemma grows_trans: "transp grows"
proof (rule transpI)
  fix a b c assume ab: "grows a b" and bc: "grows b c"
  have 1: "set (migration_status a) \<subseteq> set (migration_status c)"
    using ab bc unfolding grows_def by blast
  have 2: "\<forall>x \<in> set (catalog a). x \<notin> set investments_columns \<longrightarrow> x \<in> set (catalog c)"
    using ab bc unfolding grows_def by blast
  have 3: "schools a \<noteq> [] \<longrightarrow> schools c = schools a"
    using ab bc unfolding grows_def by metis
  have 4: "HARDCODED_USER_ID \<in> user_id ` set (users a)
           \<longrightarrow> map user_id (users c) = map user_id (users a)"
  proof
    assume h: "HARDCODED_USER_ID \<in> user_id ` set (users a)"
    then have e: "map user_id (users b) = map user_id (users a)"
      using ab unfolding grows_def by blast
    then have "user_id ` set (users b) = user_id ` set (users a)"
      by (metis set_map)
    then have "HARDCODED_USER_ID \<in> user_id ` set (users b)" using h by simp
    then have "map user_id (users c) = map user_id (users b)"
      using bc unfolding grows_def by blast
    then show "map user_id (users c) = map user_id (users a)" using e by simp
  qed
  have 5: "set (user_schools a) \<subseteq> set (user_schools c)"
    using ab bc unfolding grows_def by blast
  have 6: "set (buckets a) \<subseteq> set (buckets c)"
    using ab bc unfolding grows_def by blast
  show "grows a c"
    unfolding grows_def using 1 2 3 4 5 6 by blast
qed


lemma grows_same [simp]: "grows s s"
  by (simp add: grows_def)

lemma grows_updates [simp]:
  "grows s (s\<lparr>started := x1\<rparr>)"
  "grows s (s\<lparr>migration_status := add_new n (migration_status s)\<rparr>)"
  "grows s (s\<lparr>drawing_category := x2\<rparr>)"
  "grows s (s\<lparr>role_enum := x3\<rparr>)"
  "grows s (s\<lparr>boards := x4\<rparr>)"
  "grows s (s\<lparr>user_schools := user_schools s @ x5\<rparr>)"
  "grows s (s\<lparr>buckets := add_new b (buckets s)\<rparr>)"
  "grows s (s\<lparr>budget_categories := x6\<rparr>)"
  "grows s (s\<lparr>investment_years := x7\<rparr>)"
  "grows s (s\<lparr>drawings := x8\<rparr>)"
  by (auto simp: grows_def add_new_def)

lemma foldl_add_new_keeps: "x \<in> set c \<Longrightarrow> x \<in> set (foldl (\<lambda>c x. add_new x c) c objs)"
  by (induction objs arbitrary: c) (auto simp: add_new_def)

lemma grows_create [simp]: "grows s (create_objects objs s)"
  by (simp add: grows_def create_objects_def foldl_add_new_keeps)

lemma grows_drop [simp]: "grows s (drop_objects investments_columns s)"
  by (simp add: grows_def drop_objects_def)

lemma grows_schema [simp]: "grows s (apply_schema_sql s)"
proof -
  have "grows s (s\<lparr>role_enum := a, drawing_category := b\<rparr>)" for a b
    by (simp add: grows_def)
  moreover have "grows t (create_objects objs t)" for t objs by simp
  ultimately show ?thesis
    unfolding apply_schema_sql_def by (blast intro: transpD[OF grows_trans])
qed

lemma insert_by_key_present:
  "key r \<in> key ` set tbl \<Longrightarrow> insert_by_key key [r] tbl = tbl"
  by (simp add: insert_by_key_def)

lemma grows_admin [simp]:
  "grows s (s\<lparr>users := insert_by_key user_id [admin_user] (users s)\<rparr>)"
  by (auto simp: grows_def insert_by_key_def admin_user_def)

lemma grows_users_map:
  "(\<And>u. user_id (f u) = user_id u) \<Longrightarrow> grows s (s\<lparr>users := map f (users s)\<rparr>)"
  by (simp add: grows_def comp_def)

lemma respects_tracked:
  assumes "io_respects grows work"
  shows "io_respects grows (tracked env st name work)"
proof -
  have w: "io_respects grows (io_then work (markMigrationComplete env name))"
    by (intro respects_then respects_mark grows_trans grows_refl assms) simp
  show ?thesis
    unfolding io_respects_def
  proof
    fix s :: db
    let ?s = "s\<lparr>started := started s @ [st]\<rparr>"
    have "grows s ?s" by simp
    moreover have "grows ?s (snd (io_then work (markMigrationComplete env name) ?s))"
      using w by (simp add: io_respects_def)
    ultimately have "grows s (snd (io_then work (markMigrationComplete env name) ?s))"
      by (rule transpD[OF grows_trans])
    then show "grows s (snd (tracked env st name work s))"
      by (simp add: tracked_apply)
  qed
qed

lemma respects_logged:
  assumes "io_respects grows m"
  shows "io_respects grows (io_then (log_start st) m)"
proof -
  have "io_respects grows (log_start st)"
    by (simp add: io_respects_def log_start_def)
  then show ?thesis using assms by (intro respects_then grows_trans)
qed

lemmas grows_intros =
  respects_return respects_throw respects_bind respects_then respects_catch respects_execute
  respects_query respects_query_checked respects_execute_checked respects_foreach respects_if
  respects_mark respects_loop respects_createBucket respects_import respects_populate_investment
  grows_refl grows_trans

lemma grows_ensureMigrationTable: "io_respects grows (ensureMigrationTable env)"
  unfolding ensureMigrationTable_def by (intro grows_intros) simp

lemma grows_createBaseSchema: "io_respects grows (createBaseSchema env)"
  unfolding createBaseSchema_def
  by (intro respects_logged grows_intros) (auto simp: run_schema_sql_def)

lemma grows_ensureSessionTable: "io_respects grows (ensureSessionTable env)"
  unfolding ensureSessionTable_def by (intro respects_logged grows_intros) simp_all

lemma grows_addDrawingCategoryEnumValues:
  "io_respects grows (addDrawingCategoryEnumValues env)"
  unfolding addDrawingCategoryEnumValues_def add_drawing_category_value_def
  by (intro respects_tracked grows_intros) (auto split: option.splits)

lemma grows_seedSchoolsAndBoards: "io_respects grows (seedSchoolsAndBoards env)"
  unfolding io_respects_def
proof
  fix s
  show "grows s (snd (seedSchoolsAndBoards env s))"
  proof (cases "schools s = []")
    case True
    then show ?thesis
      by (auto simp: seedSchoolsAndBoards_def io_then_apply io_bind_def log_start_def query_def
            execute_def markMigrationComplete_def grows_def add_new_def split: option.splits)
  next
    case False
    then show ?thesis
      by (auto simp: seedSchoolsAndBoards_def io_then_apply io_bind_def log_start_def query_def
            execute_def markMigrationComplete_def grows_def add_new_def split: option.splits)
  qed
qed

lemma grows_seedHardcodedAdminUser: "io_respects grows (seedHardcodedAdminUser env)"
  unfolding seedHardcodedAdminUser_def
  by (intro respects_logged grows_intros) (auto simp: insert_admin_user_def)

lemma grows_assignUsersToSchools: "io_respects grows (assignUsersToSchools env)"
  unfolding assignUsersToSchools_def by (intro respects_logged grows_intros) simp_all

lemma grows_ensureSupabaseBucketsForSchools:
  "io_respects grows (ensureSupabaseBucketsForSchools env)"
  unfolding ensureSupabaseBucketsForSchools_def
  by (intro respects_logged grows_intros) simp_all

lemma grows_recalculateBudgetSpentAmounts:
  "io_respects grows (recalculateBudgetSpentAmounts env)"
  unfolding recalculateBudgetSpentAmounts_def recalculate_spent_def
  by (intro respects_tracked grows_intros) (auto simp: update_spent_def)

lemma grows_createRoomsAndTerrainTables: "io_respects grows (createRoomsAndTerrainTables env)"
  unfolding createRoomsAndTerrainTables_def by (intro respects_tracked grows_intros) simp_all

lemma grows_addMaxStudentsToRooms: "io_respects grows (addMaxStudentsToRooms env)"
  unfolding addMaxStudentsToRooms_def by (intro respects_tracked grows_intros) simp_all

lemma grows_createFoldersAndExtendDocuments:
  "io_respects grows (createFoldersAndExtendDocuments env)"
  unfolding createFoldersAndExtendDocuments_def by (intro respects_tracked grows_intros) simp_all

lemma grows_createInvestmentYearsTable: "io_respects grows (createInvestmentYearsTable env)"
  unfolding createInvestmentYearsTable_def by (intro respects_tracked grows_intros) simp_all

lemma grows_fixInvalidDrawingCategories: "io_respects grows (fixInvalidDrawingCategories env)"
  unfolding fixInvalidDrawingCategories_def
  by (intro respects_tracked grows_intros) (auto simp: update_drawing_categories_def)

lemma grows_insert_investment_year: "io_respects grows (insert_investment_year env i y)"
  unfolding insert_investment_year_def
  by (rule respects_execute_checked[OF grows_refl]) (auto split: if_splits)

lemma grows_populateInvestmentYears: "io_respects grows (populateInvestmentYears env)"
  unfolding populateInvestmentYears_def populate_years_def
  by (intro respects_tracked grows_intros grows_insert_investment_year)

lemma grows_addAttachmentColumns:
  "io_respects grows (addAttachmentColumnsToReportsAndMaintenance env)"
  unfolding addAttachmentColumnsToReportsAndMaintenance_def
  by (intro respects_tracked grows_intros) simp_all

lemma grows_extendRoleEnumForRbac: "io_respects grows (extendRoleEnumForRbac env)"
  unfolding extendRoleEnumForRbac_def extend_role_enum_def add_role_value_def
  by (intro respects_tracked grows_intros)
     (auto simp: convert_user_roles_def split: option.splits intro!: grows_users_map)

lemma grows_fixJeanAdminRole: "io_respects grows (fixJeanAdminRole env)"
  unfolding fixJeanAdminRole_def
  by (intro respects_tracked grows_intros)
     (auto simp: update_jean_def intro!: grows_users_map)


lemma all_steps_grow:
  "\<forall>m \<in> set (critical_steps env @ noncritical_steps env). io_respects grows m"
  by (simp add: critical_steps_def noncritical_steps_def grows_createBaseSchema
        grows_ensureSessionTable grows_addDrawingCategoryEnumValues grows_seedSchoolsAndBoards
        grows_seedHardcodedAdminUser grows_assignUsersToSchools
        grows_ensureSupabaseBucketsForSchools grows_recalculateBudgetSpentAmounts
        grows_createRoomsAndTerrainTables grows_addMaxStudentsToRooms
        grows_createFoldersAndExtendDocuments grows_createInvestmentYearsTable
        grows_fixInvalidDrawingCategories grows_populateInvestmentYears
        grows_addAttachmentColumns grows_extendRoleEnumForRbac grows_fixJeanAdminRole)

lemma run_steps_grow:
  assumes "\<forall>m \<in> set ms. io_respects grows m"
  shows "grows s (snd (run_steps ms s))"
proof -
  have "io_respects grows (run_steps ms)"
    using assms
    by (induction ms) (simp_all add: respects_return respects_then grows_refl grows_trans)
  then show ?thesis by (simp add: io_respects_def)
qed

lemma run_steps_split:
  assumes "run_steps (before @ m # after) s = (Inr (), t)"
  obtains a b where "run_steps before s = (Inr (), a)" "m a = (Inr (), b)"
    "run_steps after b = (Inr (), t)"
proof -
  obtain r a where p: "run_steps before s = (r, a)" by (cases "run_steps before s")
  obtain r' b where q: "m a = (r', b)" by (cases "m a")
  from assms p q have "r = Inr ()" "r' = Inr ()" "run_steps after b = (Inr (), t)"
    by (cases r; cases r'; simp add: run_steps_append io_then_apply)+
  with p q that show ?thesis by blast
qed

lemma run_steps_establishes:
  assumes run: "run_steps (before @ m # after) s = (Inr (), t)"
    and resp: "\<forall>x \<in> set after. io_respects grows x"
    and est: "\<And>a b. run_steps before s = (Inr (), a) \<Longrightarrow> m a = (Inr (), b) \<Longrightarrow> F b"
    and stable: "\<And>a b. F a \<Longrightarrow> grows a b \<Longrightarrow> F b"
  shows "F t"
proof -
  from run obtain a b where ab: "run_steps before s = (Inr (), a)" "m a = (Inr (), b)"
    "run_steps after b = (Inr (), t)"
    by (rule run_steps_split)
  have "F b" using ab(1,2) by (rule est)
  moreover have "grows b t" using run_steps_grow[OF resp, of b] ab(3) by simp
  ultimately show ?thesis by (rule stable)
qed


lemma run_steps_Cons_grows:
  assumes "run_steps (m # ms) s = (Inr (), t)" and "\<forall>x \<in> set ms. io_respects grows x"
  obtains a where "m s = (Inr (), a)" "run_steps ms a = (Inr (), t)" "grows a t"
proof -
  obtain r a where p: "m s = (r, a)" by (cases "m s")
  from assms(1) p have q: "r = Inr ()" "run_steps ms a = (Inr (), t)"
    by (cases r; simp add: io_then_apply)+
  have "grows a t" using run_steps_grow[OF assms(2), of a] q(2) by simp
  with p q that show ?thesis by blast
qed

lemma foldl_add_new_adds: "x \<in> set objs \<Longrightarrow> x \<in> set (foldl (\<lambda>c x. add_new x c) c objs)"
proof (induction objs arbitrary: c)
  case Nil
  then show ?case by simp
next
  case (Cons o1 objs)
  show ?case
  proof (cases "x = o1")
    case True
    have "x \<in> set (add_new o1 c)" using True by (simp add: add_new_def)
    then show ?thesis by (simp add: foldl_add_new_keeps)
  next
    case False
    then show ?thesis using Cons by simp
  qed
qed

lemma create_objects_adds: "x \<in> set objs \<Longrightarrow> x \<in> set (catalog (create_objects objs s))"
  by (simp add: create_objects_def foldl_add_new_adds)

lemma create_objects_keeps: "x \<in> set (catalog s) \<Longrightarrow> x \<in> set (catalog (create_objects objs s))"
  by (simp add: create_objects_def foldl_add_new_keeps)

lemma createBaseSchema_leaves:
  assumes "\<forall>q. db_fault env q = None" "createBaseSchema env a = (Inr (), b)"
  shows "Table ''schools'' \<in> set (catalog b) \<and> ''create_base_schema'' \<in> set (migration_status b)"
proof (cases "Table ''schools'' \<in> set (catalog a)")
  case True
  with assms show ?thesis
    by (auto simp: createBaseSchema_def io_then_apply io_bind_def log_start_def query_def
          io_catch_def markMigrationComplete_def execute_def add_new_def)
next
  case False
  have "Table ''schools'' \<in> set (catalog (apply_schema_sql t))" for t
    unfolding apply_schema_sql_def
    by (rule create_objects_adds) (simp add: base_tables_def)
  with False assms show ?thesis
    by (auto simp: createBaseSchema_def io_then_apply io_bind_def log_start_def query_def
          io_throw_def markMigrationComplete_def execute_def execute_checked_def
          run_schema_sql_def add_new_def split: if_splits sum.splits)
qed

lemma ensureSessionTable_leaves:
  assumes "\<forall>q. db_fault env q = None" "ensureSessionTable env a = (Inr (), b)"
  shows "Table ''session'' \<in> set (catalog b) \<and> Constraint ''session_pkey'' \<in> set (catalog b)
         \<and> Index ''IDX_session_expire'' \<in> set (catalog b)"
  using assms
  by (auto simp: ensureSessionTable_def io_then_apply io_catch_def log_start_def execute_def
        create_objects_adds create_objects_keeps)

lemma tracked_leaves:
  assumes "\<forall>q. db_fault env q = None" "tracked env st name work a = (Inr (), b)"
  shows "name \<in> set (migration_status b)"
proof (cases "name \<in> set (migration_status a)")
  case True
  with assms show ?thesis by (auto simp: tracked_apply)
next
  case False
  obtain r c where w: "work (a\<lparr>started := started a @ [st]\<rparr>) = (r, c)"
    by (cases "work (a\<lparr>started := started a @ [st]\<rparr>)")
  with False assms show ?thesis
    by (cases r) (auto simp: tracked_apply io_then_apply markMigrationComplete_def execute_def
          add_new_def)
qed

lemma seedSchoolsAndBoards_marks:
  assumes "\<forall>q. db_fault env q = None" "seedSchoolsAndBoards env a = (Inr (), b)"
  shows "''seed_schools_and_boards'' \<in> set (migration_status b)"
  using assms
  by (auto simp: seedSchoolsAndBoards_def io_then_apply io_bind_def log_start_def query_def
        execute_def markMigrationComplete_def add_new_def split: if_splits)

lemma seedHardcodedAdminUser_leaves:
  assumes "seedHardcodedAdminUser env a = (Inr (), b)"
  shows "HARDCODED_USER_ID \<in> user_id ` set (users b)"
proof (cases "HARDCODED_USER_ID \<in> user_id ` set (users a)")
  case True
  then have "filter (\<lambda>u. user_id u = HARDCODED_USER_ID) (users a) \<noteq> []"
    by (force simp: filter_empty_conv)
  with assms True show ?thesis
    by (auto simp: seedHardcodedAdminUser_def io_then_apply io_bind_def log_start_def query_def
          io_return_def split: option.splits)
next
  case False
  then have e: "filter (\<lambda>u. user_id u = HARDCODED_USER_ID) (users a) = []"
    by (force simp: filter_empty_conv)
  have "HARDCODED_USER_ID \<in> user_id ` set (insert_by_key user_id [admin_user] (users a))"
    by (simp add: insert_by_key_keys admin_user_def)
  with assms e show ?thesis
    by (auto simp: seedHardcodedAdminUser_def io_then_apply io_bind_def log_start_def query_def
          execute_checked_def insert_admin_user_def split: option.splits sum.splits)
qed


lemma assignUsersToSchools_leaves:
  assumes f: "\<forall>q. db_fault env q = None" and run: "assignUsersToSchools env a = (Inr (), b)"
    and sch: "schools a \<noteq> []"
  shows "\<forall>u \<in> set (users b). \<not> orphaned b u"
proof (cases "filter (orphaned a) (users a) = []")
  case True
  then have none: "\<forall>u \<in> set (users a). \<not> orphaned a u" by (auto simp: filter_empty_conv)
  have "b = a\<lparr>started := started a @ [AssignUsersToSchools]\<rparr>"
    using run True f
    by (auto simp: assignUsersToSchools_def io_then_apply io_bind_def log_start_def query_def
          io_return_def split: if_splits)
  then show ?thesis using none by (simp add: orphaned_def)
next
  case False
  then obtain u0 where u0: "u0 \<in> set (users a)" "orphaned a u0"
    by (auto simp: filter_empty_conv)
  have fq: "db_fault env q = None" for q using f by simp
  have b: "b = a\<lparr>started := started a @ [AssignUsersToSchools],
                 user_schools := user_schools a @ concat (map (new_links_for a) (users a))\<rparr>"
    using assignUsersToSchools_inserts[OF fq fq fq u0] run by simp
  show ?thesis
  proof
    fix u assume u: "u \<in> set (users b)"
    then have ua: "u \<in> set (users a)" using b by simp
    show "\<not> orphaned b u"
    proof (cases "orphaned a u")
      case False
      then show ?thesis using b by (auto simp: orphaned_def)
    next
      case True
      obtain x rest where xr: "sort_key school_name (schools a) = x # rest"
        using sch by (cases "sort_key school_name (schools a)")
          (auto dest: arg_cong[of _ _ length])
      have "new_links_for a u \<noteq> []"
        using orphan_links[OF True] xr by simp
      then obtain l where l: "l \<in> set (new_links_for a u)"
        by (cases "new_links_for a u") auto
      then have "us_user l = user_id u" by (rule new_links_for_user)
      moreover have "l \<in> set (user_schools b)" using l ua b by auto
      ultimately show ?thesis by (auto simp: orphaned_def)
    qed
  qed
qed

lemma buckets_foldl_keeps:
  "n \<in> set bs \<Longrightarrow>
   n \<in> set (foldl (\<lambda>bs x. if P x then add_new (g x) bs else bs) bs xs)"
  by (induction xs arbitrary: bs) (auto simp: add_new_def)

lemma buckets_foldl_adds:
  "x \<in> set xs \<Longrightarrow> P x \<Longrightarrow>
   g x \<in> set (foldl (\<lambda>bs x. if P x then add_new (g x) bs else bs) bs xs)"
proof (induction xs arbitrary: bs)
  case Nil
  then show ?case by simp
next
  case (Cons y ys)
  show ?case
  proof (cases "x = y")
    case True
    have "g x \<in> set (add_new (g y) bs)" using True by (simp add: add_new_def)
    then show ?thesis using True Cons.prems(2) by (simp add: buckets_foldl_keeps)
  next
    case False
    then show ?thesis using Cons by simp
  qed
qed

lemma ensureSupabaseBucketsForSchools_leaves:
  assumes f: "\<forall>q. db_fault env q = None" and i: "import_fault env = None"
    and sc: "sc \<in> set (schools a)"
    and ok: "storage_fault env (bucket_name (school_id sc)) = None"
  shows "bucket_name (school_id sc) \<in> set (buckets (snd (ensureSupabaseBucketsForSchools env a)))"
proof -
  have ne: "schools a \<noteq> []" using sc by auto
  have "bucket_name (school_id sc)
      \<in> set (foldl (\<lambda>bs x. if storage_fault env (bucket_name (school_id x)) = None
                            then add_new (bucket_name (school_id x)) bs else bs)
                 (buckets a) (schools a))"
    using sc ok
    by (rule buckets_foldl_adds[of _ _ "\<lambda>x. storage_fault env (bucket_name (school_id x)) = None"
               "\<lambda>x. bucket_name (school_id x)"])
  then show ?thesis
    using f i ne
    by (simp add: ensureSupabaseBucketsForSchools_def io_then_apply io_catch_apply log_start_def
          import_storage_def io_bind_apply query_def buckets_foreach)
qed


lemma complete_run_settles:
  assumes f: "\<forall>q. db_fault env q = None"
    and run: "run_without_catch env s = (Inr (), t)"
  shows "settled env t"
proof -
  note g = all_steps_grow[of env, unfolded critical_steps_def noncritical_steps_def, simplified]
  obtain r0 s0 where e: "ensureMigrationTable env s = (r0, s0)"
    by (cases "ensureMigrationTable env s")
  from run e have r0: "r0 = Inr ()"
    and all: "run_steps (critical_steps env @ noncritical_steps env) s0 = (Inr (), t)"
    by (cases r0; simp add: run_without_catch_def io_then_apply)+
  have g0: "grows s0 t"
    using run_steps_grow[OF all_steps_grow[of env], of s0] all by simp
  have c0: "Table ''migration_status'' \<in> set (catalog s0)"
    using e r0 f by (auto simp: ensureMigrationTable_def execute_def create_objects_adds)
  note all' = all[unfolded critical_steps_def noncritical_steps_def append_Cons append_Nil]
  from all' obtain s1 where 1: "createBaseSchema env s0 = (Inr (), s1)" "grows s1 t"
    and r1: "run_steps [ensureSessionTable env, addDrawingCategoryEnumValues env,
      seedSchoolsAndBoards env, seedHardcodedAdminUser env, assignUsersToSchools env,
      ensureSupabaseBucketsForSchools env, recalculateBudgetSpentAmounts env,
      createRoomsAndTerrainTables env, addMaxStudentsToRooms env,
      createFoldersAndExtendDocuments env, createInvestmentYearsTable env,
      fixInvalidDrawingCategories env, populateInvestmentYears env,
      addAttachmentColumnsToReportsAndMaintenance env, extendRoleEnumForRbac env,
      fixJeanAdminRole env] s1 = (Inr (), t)"
    by (rule run_steps_Cons_grows) (simp_all add: g)
  from r1 obtain s2 where 2: "ensureSessionTable env s1 = (Inr (), s2)" "grows s2 t"
    and r2: "run_steps [addDrawingCategoryEnumValues env,
      seedSchoolsAndBoards env, seedHardcodedAdminUser env, assignUsersToSchools env,
      ensureSupabaseBucketsForSchools env, recalculateBudgetSpentAmounts env,
      createRoomsAndTerrainTables env, addMaxStudentsToRooms env,
      createFoldersAndExtendDocuments env, createInvestmentYearsTable env,
      fixInvalidDrawingCategories env, populateInvestmentYears env,
      addAttachmentColumnsToReportsAndMaintenance env, extendRoleEnumForRbac env,
      fixJeanAdminRole env] s2 = (Inr (), t)"
    by (rule run_steps_Cons_grows) (simp_all add: g)
  from r2 obtain s3 where 3: "addDrawingCategoryEnumValues env s2 = (Inr (), s3)" "grows s3 t"
    and r3: "run_steps [seedSchoolsAndBoards env, seedHardcodedAdminUser env,
      assignUsersToSchools env,
      ensureSupabaseBucketsForSchools env, recalculateBudgetSpentAmounts env,
      createRoomsAndTerrainTables env, addMaxStudentsToRooms env,
      createFoldersAndExtendDocuments env, createInvestmentYearsTable env,
      fixInvalidDrawingCategories env, populateInvestmentYears env,
      addAttachmentColumnsToReportsAndMaintenance env, extendRoleEnumForRbac env,
      fixJeanAdminRole env] s3 = (Inr (), t)"
    by (rule run_steps_Cons_grows) (simp_all add: g)
  from r3 obtain s4 where 4: "seedSchoolsAndBoards env s3 = (Inr (), s4)" "grows s4 t"
    and r4: "run_steps [seedHardcodedAdminUser env, assignUsersToSchools env,
      ensureSupabaseBucketsForSchools env, recalculateBudgetSpentAmounts env,
      createRoomsAndTerrainTables env, addMaxStudentsToRooms env,
      createFoldersAndExtendDocuments env, createInvestmentYearsTable env,
      fixInvalidDrawingCategories env, populateInvestmentYears env,
      addAttachmentColumnsToReportsAndMaintenance env, extendRoleEnumForRbac env,
      fixJeanAdminRole env] s4 = (Inr (), t)"
    by (rule run_steps_Cons_grows) (simp_all add: g)
  from r4 obtain s5 where 5: "seedHardcodedAdminUser env s4 = (Inr (), s5)" "grows s5 t"
    and r5: "run_steps [assignUsersToSchools env,
      ensureSupabaseBucketsForSchools env, recalculateBudgetSpentAmounts env,
      createRoomsAndTerrainTables env, addMaxStudentsToRooms env,
      createFoldersAndExtendDocuments env, createInvestmentYearsTable env,
      fixInvalidDrawingCategories env, populateInvestmentYears env,
      addAttachmentColumnsToReportsAndMaintenance env, extendRoleEnumForRbac env,
      fixJeanAdminRole env] s5 = (Inr (), t)"
    by (rule run_steps_Cons_grows) (simp_all add: g)
  from r5 obtain s6 where 6: "assignUsersToSchools env s5 = (Inr (), s6)" "grows s6 t"
    and r6: "run_steps [ensureSupabaseBucketsForSchools env, recalculateBudgetSpentAmounts env,
      createRoomsAndTerrainTables env, addMaxStudentsToRooms env,
      createFoldersAndExtendDocuments env, createInvestmentYearsTable env,
      fixInvalidDrawingCategories env, populateInvestmentYears env,
      addAttachmentColumnsToReportsAndMaintenance env, extendRoleEnumForRbac env,
      fixJeanAdminRole env] s6 = (Inr (), t)"
    by (rule run_steps_Cons_grows) (simp_all add: g)
  from r6 obtain s7 where 7: "ensureSupabaseBucketsForSchools env s6 = (Inr (), s7)" "grows s7 t"
    and r7: "run_steps [recalculateBudgetSpentAmounts env,
      createRoomsAndTerrainTables env, addMaxStudentsToRooms env,
      createFoldersAndExtendDocuments env, createInvestmentYearsTable env,
      fixInvalidDrawingCategories env, populateInvestmentYears env,
      addAttachmentColumnsToReportsAndMaintenance env, extendRoleEnumForRbac env,
      fixJeanAdminRole env] s7 = (Inr (), t)"
    by (rule run_steps_Cons_grows) (simp_all add: g)
  from r7 obtain s8 where 8: "recalculateBudgetSpentAmounts env s7 = (Inr (), s8)" "grows s8 t"
    and r8: "run_steps [createRoomsAndTerrainTables env, addMaxStudentsToRooms env,
      createFoldersAndExtendDocuments env, createInvestmentYearsTable env,
      fixInvalidDrawingCategories env, populateInvestmentYears env,
      addAttachmentColumnsToReportsAndMaintenance env, extendRoleEnumForRbac env,
      fixJeanAdminRole env] s8 = (Inr (), t)"
    by (rule run_steps_Cons_grows) (simp_all add: g)
  from r8 obtain s9 where 9: "createRoomsAndTerrainTables env s8 = (Inr (), s9)" "grows s9 t"
    and r9: "run_steps [addMaxStudentsToRooms env,
      createFoldersAndExtendDocuments env, createInvestmentYearsTable env,
      fixInvalidDrawingCategories env, populateInvestmentYears env,
      addAttachmentColumnsToReportsAndMaintenance env, extendRoleEnumForRbac env,
      fixJeanAdminRole env] s9 = (Inr (), t)"
    by (rule run_steps_Cons_grows) (simp_all add: g)
  from r9 obtain s10 where 10: "addMaxStudentsToRooms env s9 = (Inr (), s10)" "grows s10 t"
    and r10: "run_steps [createFoldersAndExtendDocuments env, createInvestmentYearsTable env,
      fixInvalidDrawingCategories env, populateInvestmentYears env,
      addAttachmentColumnsToReportsAndMaintenance env, extendRoleEnumForRbac env,
      fixJeanAdminRole env] s10 = (Inr (), t)"
    by (rule run_steps_Cons_grows) (simp_all add: g)
  from r10 obtain s11 where 11: "createFoldersAndExtendDocuments env s10 = (Inr (), s11)"
      "grows s11 t"
    and r11: "run_steps [createInvestmentYearsTable env,
      fixInvalidDrawingCategories env, populateInvestmentYears env,
      addAttachmentColumnsToReportsAndMaintenance env, extendRoleEnumForRbac env,
      fixJeanAdminRole env] s11 = (Inr (), t)"
    by (rule run_steps_Cons_grows) (simp_all add: g)
  from r11 obtain s12 where 12: "createInvestmentYearsTable env s11 = (Inr (), s12)"
      "grows s12 t"
    and r12: "run_steps [fixInvalidDrawingCategories env, populateInvestmentYears env,
      addAttachmentColumnsToReportsAndMaintenance env, extendRoleEnumForRbac env,
      fixJeanAdminRole env] s12 = (Inr (), t)"
    by (rule run_steps_Cons_grows) (simp_all add: g)
  from r12 obtain s13 where 13: "fixInvalidDrawingCategories env s12 = (Inr (), s13)"
      "grows s13 t"
    and r13: "run_steps [populateInvestmentYears env,
      addAttachmentColumnsToReportsAndMaintenance env, extendRoleEnumForRbac env,
      fixJeanAdminRole env] s13 = (Inr (), t)"
    by (rule run_steps_Cons_grows) (simp_all add: g)
  from r13 obtain s14 where 14: "populateInvestmentYears env s13 = (Inr (), s14)" "grows s14 t"
    and r14: "run_steps [addAttachmentColumnsToReportsAndMaintenance env,
      extendRoleEnumForRbac env, fixJeanAdminRole env] s14 = (Inr (), t)"
    by (rule run_steps_Cons_grows) (simp_all add: g)
  from r14 obtain s15 where 15: "addAttachmentColumnsToReportsAndMaintenance env s14 = (Inr (), s15)"
      "grows s15 t"
    and r15: "run_steps [extendRoleEnumForRbac env, fixJeanAdminRole env] s15 = (Inr (), t)"
    by (rule run_steps_Cons_grows) (simp_all add: g)
  from r15 obtain s16 where 16: "extendRoleEnumForRbac env s15 = (Inr (), s16)" "grows s16 t"
    and r16: "run_steps [fixJeanAdminRole env] s16 = (Inr (), t)"
    by (rule run_steps_Cons_grows) (simp_all add: g)
  from r16 obtain s17 where 17: "fixJeanAdminRole env s16 = (Inr (), s17)" "grows s17 t"
    by (rule run_steps_Cons_grows) simp_all
  have mark: "n \<in> set (migration_status t)" if "n \<in> set (migration_status a)" "grows a t" for n a
    using that by (auto simp: grows_def)
  have cat: "x \<in> set (catalog t)"
    if "x \<in> set (catalog a)" "grows a t" "x \<notin> set investments_columns" for x a
    using that by (auto simp: grows_def)
  have catalog: "set [Table ''migration_status'', Table ''schools'', Table ''session'',
           Constraint ''session_pkey'', Index ''IDX_session_expire''] \<subseteq> set (catalog t)"
    using cat[OF c0 g0] createBaseSchema_leaves[OF f 1(1)] ensureSessionTable_leaves[OF f 2(1)]
      cat[OF _ 1(2)] cat[OF _ 2(2)]
    by (simp add: investments_columns_def)
  have names: "set tracked_names \<subseteq> set (migration_status t)"
    using mark[OF _ 1(2)] createBaseSchema_leaves[OF f 1(1)]
      mark[OF tracked_leaves[OF f 3(1)[unfolded addDrawingCategoryEnumValues_def]] 3(2)]
      mark[OF seedSchoolsAndBoards_marks[OF f 4(1)] 4(2)]
      mark[OF tracked_leaves[OF f 8(1)[unfolded recalculateBudgetSpentAmounts_def]] 8(2)]
      mark[OF tracked_leaves[OF f 9(1)[unfolded createRoomsAndTerrainTables_def]] 9(2)]
      mark[OF tracked_leaves[OF f 10(1)[unfolded addMaxStudentsToRooms_def]] 10(2)]
      mark[OF tracked_leaves[OF f 11(1)[unfolded createFoldersAndExtendDocuments_def]] 11(2)]
      mark[OF tracked_leaves[OF f 12(1)[unfolded createInvestmentYearsTable_def]] 12(2)]
      mark[OF tracked_leaves[OF f 13(1)[unfolded fixInvalidDrawingCategories_def]] 13(2)]
      mark[OF tracked_leaves[OF f 14(1)[unfolded populateInvestmentYears_def]] 14(2)]
      mark[OF tracked_leaves[OF f 15(1)[unfolded
              addAttachmentColumnsToReportsAndMaintenance_def]] 15(2)]
      mark[OF tracked_leaves[OF f 16(1)[unfolded extendRoleEnumForRbac_def]] 16(2)]
      mark[OF tracked_leaves[OF f 17(1)[unfolded fixJeanAdminRole_def]] 17(2)]
    by (simp add: tracked_names_def)
  have sch4: "schools s4 \<noteq> []" using 4(1) by (rule seedSchoolsAndBoards_leaves_schools)
  then have scht: "schools t = schools s4" using 4(2) by (simp add: grows_def)
  have g45: "grows s4 s5" using grows_seedHardcodedAdminUser[of env] 5(1)
    by (auto simp: io_respects_def dest: spec[of _ s4])
  have g56: "grows s5 s6" using grows_assignUsersToSchools[of env] 6(1)
    by (auto simp: io_respects_def dest: spec[of _ s5])
  have g67: "grows s6 s7" using grows_ensureSupabaseBucketsForSchools[of env] 7(1)
    by (auto simp: io_respects_def dest: spec[of _ s6])
  have sch5: "schools s5 = schools s4" using g45 sch4 by (simp add: grows_def)
  have sch6: "schools s6 = schools s4" using g56 sch5 sch4 by (simp add: grows_def)
  have adm5: "HARDCODED_USER_ID \<in> user_id ` set (users s5)"
    using 5(1) by (rule seedHardcodedAdminUser_leaves)
  have ids6: "map user_id (users s6) = map user_id (users s5)"
    using g56 adm5 by (simp add: grows_def)
  have idst: "map user_id (users t) = map user_id (users s5)"
    using 5(2) adm5 by (simp add: grows_def)
  have admt: "HARDCODED_USER_ID \<in> user_id ` set (users t)"
    using adm5 arg_cong[OF idst, of set] by simp
  have no6: "\<forall>u \<in> set (users s6). \<not> orphaned s6 u"
    using f 6(1) by (rule assignUsersToSchools_leaves) (simp add: sch5 sch4)
  have not: "\<forall>u \<in> set (users t). \<not> orphaned t u"
  proof
    fix u assume "u \<in> set (users t)"
    then have "user_id u \<in> set (map user_id (users t))" by simp
    then have "user_id u \<in> set (map user_id (users s6))" using idst ids6 by simp
    then obtain u6 where u6: "u6 \<in> set (users s6)" "user_id u6 = user_id u" by auto
    then obtain l where "l \<in> set (user_schools s6)" "us_user l = user_id u"
      using no6 by (auto simp: orphaned_def)
    moreover have "set (user_schools s6) \<subseteq> set (user_schools t)"
      using 6(2) by (simp add: grows_def)
    ultimately show "\<not> orphaned t u" by (auto simp: orphaned_def)
  qed
  have bk: "import_fault env = None \<longrightarrow>
           (\<forall>sc \<in> set (schools t).
              storage_fault env (bucket_name (school_id sc)) = None
              \<longrightarrow> bucket_name (school_id sc) \<in> set (buckets t))"
  proof (intro impI ballI)
    fix sc assume i: "import_fault env = None" and sc: "sc \<in> set (schools t)"
      and ok: "storage_fault env (bucket_name (school_id sc)) = None"
    have "sc \<in> set (schools s6)" using sc scht sch6 by simp
    with f i have "bucket_name (school_id sc)
        \<in> set (buckets (snd (ensureSupabaseBucketsForSchools env s6)))"
      using ok by (rule ensureSupabaseBucketsForSchools_leaves)
    then have "bucket_name (school_id sc) \<in> set (buckets s7)" using 7(1) by simp
    moreover have "set (buckets s7) \<subseteq> set (buckets t)" using 7(2) by (simp add: grows_def)
    ultimately show "bucket_name (school_id sc) \<in> set (buckets t)" by blast
  qed
  show ?thesis
    unfolding settled_def using catalog names sch4 scht admt not bk by simp
qed

lemma add_new_present: "x \<in> set xs \<Longrightarrow> add_new x xs = xs"
  by (simp add: add_new_def)

lemma create_objects_present:
  "set objs \<subseteq> set (catalog s) \<Longrightarrow> create_objects objs s = s"
proof -
  have "set objs \<subseteq> set c \<Longrightarrow> foldl (\<lambda>c x. add_new x c) c objs = c" for c
    by (induction objs) (simp_all add: add_new_present)
  then show "set objs \<subseteq> set (catalog s) \<Longrightarrow> create_objects objs s = s"
    by (simp add: create_objects_def)
qed

lemma mark_present:
  "name \<in> set (migration_status s) \<Longrightarrow> db_fault env (InsertMigration name) = None \<Longrightarrow>
   markMigrationComplete env name s = (Inr (), s)"
  by (simp add: markMigrationComplete_def execute_def add_new_present)

lemma tracked_skips:
  "name \<in> set (migration_status s) \<Longrightarrow> db_fault env (SelectMigration name) = None \<Longrightarrow>
   tracked env st name work s = (Inr (), s\<lparr>started := started s @ [st]\<rparr>)"
  by (simp add: tracked_apply)

lemma settled_started [simp]: "settled env (s\<lparr>started := x\<rparr>) = settled env s"
  by (simp add: settled_def orphaned_def)

lemma buckets_present:
  "\<forall>sc \<in> set xs. storage_fault env (bucket_name (school_id sc)) = None
        \<longrightarrow> bucket_name (school_id sc) \<in> set (buckets s) \<Longrightarrow>
   io_foreach (\<lambda>row. io_catch (createBucketIfNotExists env (bucket_name (school_id row)))
                          (\<lambda>e. io_return ())) xs s = (Inr (), s)"
proof (induction xs)
  case Nil
  then show ?case by (simp add: io_return_def)
next
  case (Cons x xs)
  have "io_catch (createBucketIfNotExists env (bucket_name (school_id x))) (\<lambda>e. io_return ()) s
      = (Inr (), s)"
    using Cons.prems
    by (simp add: io_catch_def createBucketIfNotExists_def io_return_def add_new_present
          split: option.splits)
  then show ?case using Cons by (simp add: io_then_apply)
qed

lemma settled_critical:
  assumes "\<forall>q. db_fault env q = None" "settled env s"
  shows "run_steps (critical_steps env) s
    = (Inr (), s\<lparr>started := started s @ take 4 migration_order\<rparr>)"
proof -
  have f: "db_fault env q = None" for q using assms(1) by simp
  have c: "Table ''schools'' \<in> set (catalog s)"
    "set [Table ''session''] \<subseteq> set (catalog s)"
    "set [Constraint ''session_pkey''] \<subseteq> set (catalog s)"
    "set [Index ''IDX_session_expire''] \<subseteq> set (catalog s)"
    using assms(2) by (simp_all add: settled_def)
  have n: "''create_base_schema'' \<in> set (migration_status s)"
    "''add_all_drawing_category_enum_values'' \<in> set (migration_status s)"
    "''seed_schools_and_boards'' \<in> set (migration_status s)"
    using assms(2) by (auto simp: settled_def tracked_names_def)
  have sch: "schools s \<noteq> []" using assms(2) by (simp add: settled_def)
  have a: "createBaseSchema env t = (Inr (), t\<lparr>started := started t @ [CreateBaseSchema]\<rparr>)"
    if "catalog t = catalog s" "migration_status t = migration_status s" for t
    using that c(1) n(1)
    by (simp add: createBaseSchema_def io_then_apply io_bind_def log_start_def query_def f
          io_catch_def mark_present)
  have b: "ensureSessionTable env t = (Inr (), t\<lparr>started := started t @ [EnsureSessionTable]\<rparr>)"
    if "catalog t = catalog s" for t
    using that c(2-4)
    by (simp add: ensureSessionTable_def io_then_apply io_catch_def log_start_def execute_def f
          create_objects_present)
  have d: "addDrawingCategoryEnumValues env t
      = (Inr (), t\<lparr>started := started t @ [AddDrawingCategoryEnumValues]\<rparr>)"
    if "migration_status t = migration_status s" for t
    using that n(2) by (simp add: addDrawingCategoryEnumValues_def tracked_skips f)
  have e: "seedSchoolsAndBoards env t
      = (Inr (), t\<lparr>started := started t @ [SeedSchoolsAndBoards]\<rparr>)"
    if "migration_status t = migration_status s" "schools t = schools s" for t
    using that n(3) sch
    by (simp add: seedSchoolsAndBoards_def io_then_apply io_bind_def log_start_def query_def f
          mark_present)
  show ?thesis
    by (simp add: critical_steps_def io_then_apply a b d e io_return_def migration_order_def)
qed


lemma settled_noncritical:
  assumes "\<forall>q. db_fault env q = None" "settled env s"
  shows "run_steps (noncritical_steps env) s
    = (Inr (), s\<lparr>started := started s @ drop 4 migration_order\<rparr>)"
proof -
  have f: "db_fault env q = None" for q using assms(1) by simp
  have n: "set tracked_names \<subseteq> set (migration_status s)"
    using assms(2) by (simp add: settled_def)
  have "HARDCODED_USER_ID \<in> user_id ` set (users s)"
    using assms(2) by (simp add: settled_def)
  then have adm: "filter (\<lambda>u. user_id u = HARDCODED_USER_ID) (users s) \<noteq> []"
    by (force simp: filter_empty_conv)
  then have us: "users s \<noteq> []" by auto
  have orph: "filter (orphaned s) (users s) = []"
    using assms(2) by (auto simp: settled_def filter_empty_conv)
  have a: "seedHardcodedAdminUser env t
      = (Inr (), t\<lparr>started := started t @ [SeedHardcodedAdminUser]\<rparr>)"
    if "users t = users s" for t
    using that adm
    by (simp add: seedHardcodedAdminUser_def io_then_apply io_bind_def log_start_def query_def f
          io_return_def)
  have b: "assignUsersToSchools env t
      = (Inr (), t\<lparr>started := started t @ [AssignUsersToSchools]\<rparr>)"
    if "users t = users s" "user_schools t = user_schools s" for t
  proof -
    have "orphaned (t\<lparr>started := started t @ [AssignUsersToSchools]\<rparr>) = orphaned s"
      by (intro ext) (simp add: orphaned_def that)
    then show ?thesis
      using that us orph
      by (simp add: assignUsersToSchools_def io_then_apply io_bind_def log_start_def query_def f
            io_return_def)
  qed
  have c: "ensureSupabaseBucketsForSchools env t
      = (Inr (), t\<lparr>started := started t @ [EnsureSupabaseBucketsForSchools]\<rparr>)"
    if "schools t = schools s" "buckets t = buckets s" for t
  proof (cases "import_fault env")
    case (Some m)
    then show ?thesis
      by (simp add: ensureSupabaseBucketsForSchools_def io_then_apply io_catch_def log_start_def
            import_storage_def io_return_def)
  next
    case None
    let ?t = "t\<lparr>started := started t @ [EnsureSupabaseBucketsForSchools]\<rparr>"
    have "\<forall>sc \<in> set (schools s). storage_fault env (bucket_name (school_id sc)) = None
        \<longrightarrow> bucket_name (school_id sc) \<in> set (buckets ?t)"
      using assms(2) None that by (simp add: settled_def)
    then have "io_foreach (\<lambda>row. io_catch (createBucketIfNotExists env (bucket_name (school_id row)))
                          (\<lambda>e. io_return ())) (schools s) ?t = (Inr (), ?t)"
      by (rule buckets_present)
    then show ?thesis
      using None that
      by (simp add: ensureSupabaseBucketsForSchools_def io_then_apply io_catch_def log_start_def
            import_storage_def io_return_def io_bind_def query_def f)
  qed
  have tr: "tracked env st name work t = (Inr (), t\<lparr>started := started t @ [st]\<rparr>)"
    if "migration_status t = migration_status s" "name \<in> set tracked_names" for t st name work
    using that n by (intro tracked_skips f) auto
  show ?thesis
    by (simp add: noncritical_steps_def io_then_apply a b c io_return_def migration_order_def
          recalculateBudgetSpentAmounts_def createRoomsAndTerrainTables_def
          addMaxStudentsToRooms_def createFoldersAndExtendDocuments_def
          createInvestmentYearsTable_def fixInvalidDrawingCategories_def
          populateInvestmentYears_def addAttachmentColumnsToReportsAndMaintenance_def
          extendRoleEnumForRbac_def fixJeanAdminRole_def tr tracked_names_def)
qed

lemma settled_run:
  assumes "\<forall>q. db_fault env q = None" "settled env s"
  shows "runMigrations env s = (Inr (), s\<lparr>started := started s @ migration_order\<rparr>)"
proof -
  have e: "ensureMigrationTable env s = (Inr (), s)"
    using assms
    by (simp add: ensureMigrationTable_def execute_def settled_def create_objects_present)
  have c: "run_steps (critical_steps env) s
    = (Inr (), s\<lparr>started := started s @ take 4 migration_order\<rparr>)"
    using assms by (rule settled_critical)
  have n: "run_steps (noncritical_steps env) (s\<lparr>started := started s @ take 4 migration_order\<rparr>)
    = (Inr (), s\<lparr>started := (started s @ take 4 migration_order) @ drop 4 migration_order\<rparr>)"
    using settled_noncritical[OF assms(1), of "s\<lparr>started := started s @ take 4 migration_order\<rparr>"]
      assms(2) by simp
  show ?thesis
    by (simp add: runMigrations_apply e c n)
qed


lemma complete_run_succeeds:
  assumes "run_without_catch env s = (Inr (), s1)"
  shows "runMigrations env s = (Inr (), s1)"
proof -
  obtain r0 s0 where e: "ensureMigrationTable env s = (r0, s0)"
    by (cases "ensureMigrationTable env s")
  from assms e have r0: "r0 = Inr ()"
    and all: "run_steps (critical_steps env @ noncritical_steps env) s0 = (Inr (), s1)"
    by (cases r0; simp add: run_without_catch_def io_then_apply)+
  obtain r1 t1 where c: "run_steps (critical_steps env) s0 = (r1, t1)"
    by (cases "run_steps (critical_steps env) s0")
  from all c have "r1 = Inr ()" "run_steps (noncritical_steps env) t1 = (Inr (), s1)"
    by (cases r1; simp add: run_steps_append)+
  then show ?thesis using e r0 c by (simp add: runMigrations_apply)
qed

lemma full_run_on_seeded:
  "fst (run_without_catch no_faults seeded_db) = Inr ()
   \<and> users (snd (run_without_catch no_faults seeded_db)) = [admin_user]
   \<and> started (snd (run_without_catch no_faults seeded_db)) = migration_order"
  by (simp add: run_without_catch_def no_faults_def env_failing_def critical_steps_def
        noncritical_steps_def step_eval io_eval seeded_db_def fresh_db_def
        insert_by_key_def admin_user_def HARDCODED_USER_ID_def orphaned_def new_links_for_def
        has_link_def import_storage_def createBucketIfNotExists_def bucket_name_def
        recalculate_spent_def populate_years_def investments_without_years_def
        extend_role_enum_def add_role_value_def is_jean_def List.map_filter_def
        valid_drawing_categories_def investments_columns_def lower_def migration_order_def)


lemma full_run_pair:
  "run_without_catch no_faults seeded_db = (Inr (), snd (run_without_catch no_faults seeded_db))"
  using full_run_on_seeded by (simp add: prod_eq_iff)

text \<open>
  C6, as stated, fails. A first run in which the query of \<^verbatim>\<open>seedHardcodedAdminUser\<close>
  fails still succeeds, since the failure is swallowed with the rest of the
  non-critical migrations; it leaves the users table empty. A second run on the
  resulting database, with every statement going through, inserts the administrator.
\<close>

theorem second_run_counterexample:
  "runMigrations (env_failing [SelectAdminUser]) seeded_db
     = (Inr (), seeded_db\<lparr>started := [CreateBaseSchema, EnsureSessionTable,
                                      AddDrawingCategoryEnumValues, SeedSchoolsAndBoards,
                                      SeedHardcodedAdminUser]\<rparr>)
   \<and> users (seeded_db\<lparr>started := [CreateBaseSchema, EnsureSessionTable,
                                    AddDrawingCategoryEnumValues, SeedSchoolsAndBoards,
                                    SeedHardcodedAdminUser]\<rparr>) = []
   \<and> fst (runMigrations no_faults
            (seeded_db\<lparr>started := [CreateBaseSchema, EnsureSessionTable,
                                    AddDrawingCategoryEnumValues, SeedSchoolsAndBoards,
                                    SeedHardcodedAdminUser]\<rparr>)) = Inr ()
   \<and> users (snd (runMigrations no_faults
            (seeded_db\<lparr>started := [CreateBaseSchema, EnsureSessionTable,
                                    AddDrawingCategoryEnumValues, SeedSchoolsAndBoards,
                                    SeedHardcodedAdminUser]\<rparr>))) = [admin_user]"
proof -
  let ?E = "env_failing [SelectAdminUser]"
  let ?five = "[CreateBaseSchema, EnsureSessionTable, AddDrawingCategoryEnumValues,
                SeedSchoolsAndBoards, SeedHardcodedAdminUser]"
  have a: "seedHardcodedAdminUser ?E
       (seeded_db\<lparr>started := [CreateBaseSchema, EnsureSessionTable,
                                AddDrawingCategoryEnumValues, SeedSchoolsAndBoards]\<rparr>)
     = (Inl (Error ''connection terminated''), seeded_db\<lparr>started := ?five\<rparr>)"
    by (simp add: seedHardcodedAdminUser_def io_eval)
  have c: "run_steps (critical_steps ?E) seeded_db
     = (Inr (), seeded_db\<lparr>started := [CreateBaseSchema, EnsureSessionTable,
                                AddDrawingCategoryEnumValues, SeedSchoolsAndBoards]\<rparr>)"
    using critical_on_seeded[of ?E "[]"] by (simp add: migration_order_def)
  have e: "ensureMigrationTable ?E seeded_db = (Inr (), seeded_db)"
    using ensure_on_seeded[of ?E "[]"] by simp
  have first: "runMigrations ?E seeded_db = (Inr (), seeded_db\<lparr>started := ?five\<rparr>)"
    by (simp add: runMigrations_apply e c noncritical_steps_def io_then_apply a)
  have e2: "ensureMigrationTable no_faults (seeded_db\<lparr>started := ?five\<rparr>)
      = (Inr (), seeded_db\<lparr>started := ?five\<rparr>)"
    by (rule ensure_on_seeded) (simp add: no_faults_def)
  have c2: "run_steps (critical_steps no_faults) (seeded_db\<lparr>started := ?five\<rparr>)
      = (Inr (), seeded_db\<lparr>started := ?five @ take 4 migration_order\<rparr>)"
    by (rule critical_on_seeded) (simp add: no_faults_def)
  have n2: "users (snd (run_steps (noncritical_steps no_faults)
               (seeded_db\<lparr>started := ?five @ take 4 migration_order\<rparr>))) = [admin_user]"
    by (simp add: no_faults_def env_failing_def noncritical_steps_def step_eval io_eval
          seeded_db_def fresh_db_def insert_by_key_def admin_user_def HARDCODED_USER_ID_def
          orphaned_def new_links_for_def has_link_def import_storage_def
          createBucketIfNotExists_def bucket_name_def recalculate_spent_def populate_years_def
          investments_without_years_def extend_role_enum_def add_role_value_def is_jean_def
          List.map_filter_def valid_drawing_categories_def investments_columns_def lower_def)
  have second: "fst (runMigrations no_faults (seeded_db\<lparr>started := ?five\<rparr>)) = Inr ()"
    "users (snd (runMigrations no_faults (seeded_db\<lparr>started := ?five\<rparr>))) = [admin_user]"
    using n2 by (simp_all add: runMigrations_apply e2 c2)
  have u: "users (seeded_db\<lparr>started := ?five\<rparr>) = []"
    by (simp add: seeded_db_def fresh_db_def)
  show ?thesis using first second u by simp
qed

text \<open>
  C6, amended. Let no database statement fail, and let a first run complete every
  migration, none of them throwing to the runner. Then that run succeeds, and a second
  run on the resulting database succeeds as well and leaves the database and the
  buckets exactly as they were; only the log of opening lines grows. In particular
  boards, schools and users keep their rows and the two enum types their labels.
\<close>

theorem second_run_changes_nothing:
  assumes "\<forall>q. db_fault env q = None" and "run_without_catch env s = (Inr (), s1)"
  shows "runMigrations env s = (Inr (), s1)
     \<and> runMigrations env s1 = (Inr (), s1\<lparr>started := started s1 @ migration_order\<rparr>)
     \<and> boards (snd (runMigrations env s1)) = boards s1
     \<and> schools (snd (runMigrations env s1)) = schools s1
     \<and> users (snd (runMigrations env s1)) = users s1
     \<and> drawing_category (snd (runMigrations env s1)) = drawing_category s1
     \<and> role_enum (snd (runMigrations env s1)) = role_enum s1"
proof -
  have "settled env s1" using assms by (rule complete_run_settles)
  with assms(1)
  have "runMigrations env s1 = (Inr (), s1\<lparr>started := started s1 @ migration_order\<rparr>)"
    by (rule settled_run)
  then show ?thesis using complete_run_succeeds[OF assms(2)] by simp
qed

theorem second_run_changes_nothing_witness:
  "db_fault no_faults CountSchools = None
   \<and> fst (run_without_catch no_faults seeded_db) = Inr ()
   \<and> users (snd (run_without_catch no_faults seeded_db)) = [admin_user]
   \<and> fst (runMigrations no_faults (snd (run_without_catch no_faults seeded_db))) = Inr ()
   \<and> users (snd (runMigrations no_faults (snd (run_without_catch no_faults seeded_db))))
       = [admin_user]"
proof -
  have f: "\<forall>q. db_fault no_faults q = None" by (simp add: no_faults_def)
  show ?thesis
    using f full_run_on_seeded second_run_changes_nothing [OF f full_run_pair]
    by simp
qed

subsection \<open>The declared order\<close>

lemma runMigrations_started_prefix:
  "\<exists>k. started (snd (runMigrations env s)) = started s @ take k migration_order"
proof -
  obtain r0 s0 where e: "ensureMigrationTable env s = (r0, s0)"
    by (cases "ensureMigrationTable env s")
  have s0: "started s0 = started s"
    using ensureMigrationTable_started[of env s] e by simp
  show ?thesis
  proof (cases r0)
    case (Inl err)
    then have "started (snd (runMigrations env s)) = started s @ take 0 migration_order"
      using e s0 by (simp add: runMigrations_apply)
    then show ?thesis by blast
  next
    case (Inr u)
    obtain r1 s1 where c: "run_steps (critical_steps env) s0 = (r1, s1)"
      by (cases "run_steps (critical_steps env) s0")
    have len4: "length (take 4 migration_order) = 4"
      by (simp add: migration_order_def)
    from run_steps_started_prefix[OF critical_announce, of env s0]
    obtain k where k': "k \<le> length (take 4 migration_order)"
      "started (snd (run_steps (critical_steps env) s0))
         = started s0 @ take k (take 4 migration_order)"
      "\<forall>u. fst (run_steps (critical_steps env) s0) = Inr u
         \<longrightarrow> k = length (take 4 migration_order)"
      by blast
    have k: "k \<le> 4" "started s1 = started s0 @ take k (take 4 migration_order)"
      "\<forall>u. r1 = Inr u \<longrightarrow> k = 4"
      using k' c len4 by simp_all
    show ?thesis
    proof (cases r1)
      case (Inl err)
      then have "started (snd (runMigrations env s)) = started s @ take k migration_order"
        using e Inr c k s0 by (simp add: runMigrations_apply min_def)
      then show ?thesis by blast
    next
      case (Inr u1)
      then have k4: "k = 4" using k(3) by simp
      from run_steps_started_prefix[OF noncritical_announce, of env s1]
      obtain j where j: "started (snd (run_steps (noncritical_steps env) s1))
          = started s1 @ take j (drop 4 migration_order)"
        by blast
      have "started (snd (runMigrations env s))
          = started s @ take 4 migration_order @ take j (drop 4 migration_order)"
        using e \<open>r0 = Inr u\<close> c Inr j k(2) k4 s0 by (simp add: runMigrations_apply)
      also have "take 4 migration_order @ take j (drop 4 migration_order)
          = take (4 + j) migration_order"
        by (simp only: take_add)
      finally show ?thesis by blast
    qed
  qed
qed

lemma creates_before_needs:
  "a \<noteq> b \<Longrightarrow> x \<in> set (creates a) \<Longrightarrow> x \<in> set (needs b) \<Longrightarrow> precedes a b"
  by (cases b; cases a;
      auto simp: precedes_def migration_order_def base_enum_types_def base_tables_def
        investments_columns_def valid_drawing_categories_def)

text \<open>
  C5. Whatever fails, the migrations a run starts are the first \<open>k\<close> of the declared
  order, started in that order, so that a migration runs only after all that precede
  it. In that order \<^verbatim>\<open>createBaseSchema\<close> precedes every other migration; the
  session table and the enum values precede every migration that writes rows;
  \<^verbatim>\<open>seedSchoolsAndBoards\<close> precedes \<^verbatim>\<open>assignUsersToSchools\<close>; and a migration that
  creates a schema object precedes every other migration whose statements name that
  object, as \<^verbatim>\<open>createInvestmentYearsTable\<close> precedes \<^verbatim>\<open>populateInvestmentYears\<close>.
\<close>

theorem migrations_run_in_declared_order:
  "(\<exists>k. started (snd (runMigrations env s)) = started s @ take k migration_order)
   \<and> (\<forall>st. st \<noteq> CreateBaseSchema \<longrightarrow> precedes CreateBaseSchema st)
   \<and> (\<forall>st. writes_rows st \<longrightarrow>
          precedes EnsureSessionTable st \<and> precedes AddDrawingCategoryEnumValues st)
   \<and> precedes SeedSchoolsAndBoards AssignUsersToSchools
   \<and> (\<forall>a b. a \<noteq> b \<and> (\<exists>x \<in> set (creates a). x \<in> set (needs b)) \<longrightarrow> precedes a b)
   \<and> precedes CreateInvestmentYearsTable PopulateInvestmentYears"
proof (intro conjI allI impI)
  show "\<exists>k. started (snd (runMigrations env s)) = started s @ take k migration_order"
    by (rule runMigrations_started_prefix)
next
  fix st :: step assume "st \<noteq> CreateBaseSchema"
  then show "precedes CreateBaseSchema st"
    by (cases st) (simp_all add: precedes_def migration_order_def)
next
  fix st assume "writes_rows st"
  then show "precedes EnsureSessionTable st"
    by (cases st) (simp_all add: precedes_def migration_order_def)
next
  fix st assume "writes_rows st"
  then show "precedes AddDrawingCategoryEnumValues st"
    by (cases st) (simp_all add: precedes_def migration_order_def)
next
  show "precedes SeedSchoolsAndBoards AssignUsersToSchools"
    by (simp add: precedes_def migration_order_def)
next
  fix a b assume "a \<noteq> b \<and> (\<exists>x \<in> set (creates a). x \<in> set (needs b))"
  then show "precedes a b" by (blast intro: creates_before_needs)
next
  show "precedes CreateInvestmentYearsTable PopulateInvestmentYears"
    by (simp add: precedes_def migration_order_def)
qed


theorem migrations_run_in_declared_order_witness:
  "started (snd (runMigrations no_faults seeded_db)) = started seeded_db @ take 17 migration_order
   \<and> writes_rows PopulateInvestmentYears
   \<and> precedes EnsureSessionTable PopulateInvestmentYears
   \<and> Table ''investment_years'' \<in> set (creates CreateInvestmentYearsTable)
   \<and> Table ''investment_years'' \<in> set (needs PopulateInvestmentYears)
   \<and> precedes CreateInvestmentYearsTable PopulateInvestmentYears
   \<and> precedes CreateBaseSchema FixJeanAdminRole"
proof -
  have r: "runMigrations no_faults seeded_db
      = (Inr (), snd (run_without_catch no_faults seeded_db))"
    using full_run_pair by (rule complete_run_succeeds)
  have s: "started (snd (runMigrations no_faults seeded_db))
      = started seeded_db @ take 17 migration_order"
    using full_run_on_seeded unfolding r
    by (simp add: seeded_db_def fresh_db_def migration_order_def)
  show ?thesis
    using s migrations_run_in_declared_order [of no_faults seeded_db]
    by simp
qed

end
